theory Spec2Isabelle
  imports Main
begin

unbundle bit_operations_syntax

section \<open>The OpenTitan importer of PeakRDL-opentitan\<close>

text \<open>
  A shallow embedding of \<^verbatim>\<open>src/peakrdl_opentitan/importer.py\<close>: the class
  \<^verbatim>\<open>OpenTitanImporter\<close>, which walks a parsed Hjson document and builds a
  SystemRDL component tree.

  Conventions of the embedding:
  \<^item> a Python string is a \<open>string\<close> whose characters are the code points 0 to 255;
    \<^verbatim>\<open>lower\<close>, \<^verbatim>\<open>isdigit\<close> and \<^verbatim>\<open>int\<close> are written out for that range;
  \<^item> a document value is a \<open>jval\<close>; floating point numbers are left out;
  \<^item> a Python dictionary is an association list in insertion order, read with
    \<open>map_of\<close>; the keys of one dictionary are taken to be distinct;
  \<^item> an exception is a value \<open>Inl e\<close> of the result; a call that returns gives \<open>Inr\<close>;
  \<^item> the attributes \<^verbatim>\<open>regwidth\<close> and \<^verbatim>\<open>__addroffset\<close> of the importer and the
    warnings sent to the message handler are the record \<open>importer\<close>, passed through
    every call;
  \<^item> the construction primitives of \<^verbatim>\<open>RDLImporter\<close> (definitions, instances,
    \<^verbatim>\<open>assign_property\<close>, \<^verbatim>\<open>add_child\<close>) belong to systemrdl-compiler; they are
    modelled as recording what they are given, in call order;
  \<^item> \<^verbatim>\<open>typemaps.sw_from_access\<close>, \<^verbatim>\<open>typemaps.hw_from_access\<close> and the property
    registry of the compiler are not part of the file; they are the parameters
    gathered in the record \<open>env\<close>.
\<close>

subsection \<open>Document values and exceptions\<close>

datatype jval =
    JNull
  | JBool bool
  | JInt int
  | JStr string
  | JList "jval list"
  | JDict "(string \<times> jval) list"

type_synonym dict = "(string \<times> jval) list"

datatype error =
    KeyError jval
  | TypeError
  | ValueError
  | AttributeError
  | IndexError
  | AssertionError
  | RDLCompileError

definition bind :: "error + 'a \<Rightarrow> ('a \<Rightarrow> error + 'b) \<Rightarrow> error + 'b" where
  "bind m f = (case m of Inl e \<Rightarrow> Inl e | Inr x \<Rightarrow> f x)"

text \<open>\<^verbatim>\<open>d[k]\<close> on a dictionary.\<close>

definition getitem :: "dict \<Rightarrow> string \<Rightarrow> error + jval" where
  "getitem d k = (case map_of d k of None \<Rightarrow> Inl (KeyError (JStr k)) | Some v \<Rightarrow> Inr v)"

text \<open>\<^verbatim>\<open>d[k] if k in d else None\<close>.\<close>

definition get_or_none :: "dict \<Rightarrow> string \<Rightarrow> jval" where
  "get_or_none d k = (case map_of d k of None \<Rightarrow> JNull | Some v \<Rightarrow> v)"

text \<open>\<^verbatim>\<open>d[k] = v\<close>: an existing key keeps its place, a new one goes last.\<close>

fun setitem :: "dict \<Rightarrow> string \<Rightarrow> jval \<Rightarrow> dict" where
  "setitem [] k v = [(k, v)]"
| "setitem (p # ps) k v = (if fst p = k then (k, v) # ps else p # setitem ps k v)"

text \<open>
  A value used where the code subscripts it with a string key or tests a key in it:
  every value that is not a dictionary ends in a \<^verbatim>\<open>TypeError\<close> there.
\<close>

definition as_dict :: "jval \<Rightarrow> error + dict" where
  "as_dict v = (case v of JDict d \<Rightarrow> Inr d | _ \<Rightarrow> Inl TypeError)"

text \<open>\<^verbatim>\<open>for x in v\<close>: a dictionary gives its keys, a string its characters.\<close>

definition py_iter :: "jval \<Rightarrow> error + jval list" where
  "py_iter v = (case v of
      JList xs \<Rightarrow> Inr xs
    | JDict d \<Rightarrow> Inr (map (\<lambda>p. JStr (fst p)) d)
    | JStr s \<Rightarrow> Inr (map (\<lambda>c. JStr [c]) s)
    | _ \<Rightarrow> Inl TypeError)"

definition py_len :: "jval \<Rightarrow> error + nat" where
  "py_len v = (case v of
      JList xs \<Rightarrow> Inr (length xs)
    | JDict d \<Rightarrow> Inr (length d)
    | JStr s \<Rightarrow> Inr (length s)
    | _ \<Rightarrow> Inl TypeError)"

text \<open>Truth value of a document value, as \<^verbatim>\<open>not name\<close> tests it.\<close>

definition py_truthy :: "jval \<Rightarrow> bool" where
  "py_truthy v = (case v of
      JNull \<Rightarrow> False
    | JBool b \<Rightarrow> b
    | JInt n \<Rightarrow> n \<noteq> 0
    | JStr s \<Rightarrow> s \<noteq> []
    | JList xs \<Rightarrow> xs \<noteq> []
    | JDict d \<Rightarrow> d \<noteq> [])"

subsection \<open>Strings\<close>

definition py_isupper :: "char \<Rightarrow> bool" where
  "py_isupper c = (let n = (of_char c :: nat) in
     (65 \<le> n \<and> n \<le> 90) \<or> (192 \<le> n \<and> n \<le> 222 \<and> n \<noteq> 215))"

definition lower_char :: "char \<Rightarrow> char" where
  "lower_char c = (if py_isupper c then char_of ((of_char c :: nat) + 32) else c)"

definition py_lower :: "string \<Rightarrow> string" where
  "py_lower s = map lower_char s"

text \<open>\<^verbatim>\<open>v.lower()\<close>: only a string has the method.\<close>

definition lower :: "jval \<Rightarrow> error + string" where
  "lower v = (case v of JStr s \<Rightarrow> Inr (py_lower s) | _ \<Rightarrow> Inl AttributeError)"

definition py_isdigit :: "char \<Rightarrow> bool" where
  "py_isdigit c = (let n = (of_char c :: nat) in
     (48 \<le> n \<and> n \<le> 57) \<or> n = 178 \<or> n = 179 \<or> n = 185)"

text \<open>\<^verbatim>\<open>s.split(c)\<close> for a one-character separator.\<close>

fun py_split :: "char \<Rightarrow> string \<Rightarrow> string list" where
  "py_split c [] = [[]]"
| "py_split c (x # xs) =
     (if x = c then [] # py_split c xs
      else (case py_split c xs of [] \<Rightarrow> [[x]] | y # ys \<Rightarrow> (x # y) # ys))"

text \<open>\<^verbatim>\<open>str(n)\<close> for a natural number.\<close>

definition digit_char :: "nat \<Rightarrow> char" where
  "digit_char d = char_of (48 + d)"

fun str_of_nat :: "nat \<Rightarrow> string" where
  "str_of_nat n = (if n < 10 then [digit_char n] else str_of_nat (n div 10) @ [digit_char (n mod 10)])"

declare str_of_nat.simps [simp del]

subsection \<open>\<^verbatim>\<open>int(s)\<close> and \<^verbatim>\<open>int(s, 16)\<close>\<close>

text \<open>
  The characters \<^verbatim>\<open>int\<close> skips around a number, the value of a digit (letters count
  from 10, as in the interpreter's digit table), and the scan of the digits: one
  underscore is allowed between two digits, none in front and none at the end, and
  there is at least one digit. The interpreter's limit on the number of decimal
  digits (a run-time setting) is left out.
\<close>

definition int_space :: "char \<Rightarrow> bool" where
  "int_space c = (let n = (of_char c :: nat) in
     (9 \<le> n \<and> n \<le> 13) \<or> n = 32 \<or> n = 133 \<or> n = 160)"

definition digit_value :: "char \<Rightarrow> nat option" where
  "digit_value c = (let n = (of_char c :: nat) in
     if 48 \<le> n \<and> n \<le> 57 then Some (n - 48)
     else if 97 \<le> n \<and> n \<le> 122 then Some (n - 87)
     else if 65 \<le> n \<and> n \<le> 90 then Some (n - 55)
     else None)"

definition is_digit :: "nat \<Rightarrow> char \<Rightarrow> bool" where
  "is_digit base c = (case digit_value c of None \<Rightarrow> False | Some d \<Rightarrow> d < base)"

fun scan_digits :: "nat \<Rightarrow> bool \<Rightarrow> int \<Rightarrow> string \<Rightarrow> (int \<times> string) option" where
  "scan_digits base us acc [] = (if us then None else Some (acc, []))"
| "scan_digits base us acc (c # cs) =
     (if c = CHR ''_'' then (if us then None else scan_digits base True acc cs)
      else if is_digit base c
        then scan_digits base False (acc * int base + int (the (digit_value c))) cs
      else if us then None else Some (acc, c # cs))"

definition int_tail :: "nat \<Rightarrow> int \<Rightarrow> string \<Rightarrow> int option" where
  "int_tail base sg s = (case scan_digits base True 0 s of
      None \<Rightarrow> None
    | Some (v, rest) \<Rightarrow> if dropWhile int_space rest = [] then Some (sg * v) else None)"

definition strip_sign :: "string \<Rightarrow> int \<times> string" where
  "strip_sign s = (case s of
      [] \<Rightarrow> (1, [])
    | c # cs \<Rightarrow> if c = CHR ''+'' then (1, cs) else if c = CHR ''-'' then (-1, cs) else (1, s))"

definition strip_0x :: "string \<Rightarrow> string" where
  "strip_0x s = (case s of
      c # d # cs \<Rightarrow>
        if c = CHR ''0'' \<and> (d = CHR ''x'' \<or> d = CHR ''X'')
        then (case cs of [] \<Rightarrow> [] | e # es \<Rightarrow> if e = CHR ''_'' then es else cs)
        else s
    | _ \<Rightarrow> s)"

definition int_of_str :: "string \<Rightarrow> int option" where
  "int_of_str s = (case strip_sign (dropWhile int_space s) of (sg, t) \<Rightarrow> int_tail 10 sg t)"

definition int_of_str16 :: "string \<Rightarrow> int option" where
  "int_of_str16 s =
     (case strip_sign (dropWhile int_space s) of (sg, t) \<Rightarrow> int_tail 16 sg (strip_0x t))"

text \<open>\<^verbatim>\<open>int(v)\<close> on a document value.\<close>

definition py_int :: "jval \<Rightarrow> error + int" where
  "py_int v = (case v of
      JInt n \<Rightarrow> Inr n
    | JBool b \<Rightarrow> Inr (if b then 1 else 0)
    | JStr s \<Rightarrow> (case int_of_str s of None \<Rightarrow> Inl ValueError | Some n \<Rightarrow> Inr n)
    | _ \<Rightarrow> Inl TypeError)"

subsection \<open>\<^verbatim>\<open>hex_or_dec_to_dec\<close>\<close>

definition hex_or_dec_to_dec :: "jval \<Rightarrow> error + jval" where
  "hex_or_dec_to_dec num = (case num of
      JStr s \<Rightarrow>
        if take 2 s = ''0x''
        then (case int_of_str16 s of None \<Rightarrow> Inl ValueError | Some n \<Rightarrow> Inr (JInt n))
        else (case int_of_str s of None \<Rightarrow> Inl ValueError | Some n \<Rightarrow> Inr (JInt n))
    | _ \<Rightarrow> Inr num)"

subsection \<open>Bit ranges (the head of the loop of \<^verbatim>\<open>add_fields\<close>)\<close>

text \<open>
  \<^verbatim>\<open>bits = [int(part) for part in field_dict['bits'].split(':')]\<close> and the three
  branches on \<^verbatim>\<open>len(bits)\<close>; the result is \<open>(bit_offset, bit_width)\<close>.
\<close>

fun ints_of :: "string list \<Rightarrow> error + int list" where
  "ints_of [] = Inr []"
| "ints_of (p # ps) = (case int_of_str p of
      None \<Rightarrow> Inl ValueError
    | Some n \<Rightarrow> bind (ints_of ps) (\<lambda>ns. Inr (n # ns)))"

definition parse_bits :: "jval \<Rightarrow> error + (int \<times> int)" where
  "parse_bits v = (case v of
      JStr s \<Rightarrow> bind (ints_of (py_split CHR '':'' s)) (\<lambda>bits.
        case bits of
          [hi, lo] \<Rightarrow> Inr (lo, (hi - lo) + 1)
        | [n] \<Rightarrow> Inr (n, 1)
        | _ \<Rightarrow> Inl AssertionError)
    | _ \<Rightarrow> Inl AttributeError)"

subsection \<open>Components, messages and the importer's attributes\<close>

text \<open>
  What the primitives of \<^verbatim>\<open>RDLImporter\<close> record. A property value is a value of
  the document (or a Python literal of the same kind), a value of
  \<^verbatim>\<open>systemrdl.rdltypes\<close> given by name, or an enumeration type.
\<close>

record enum_member =
  m_name :: string
  m_value :: int
  m_desc :: jval

record user_enum =
  e_name :: string
  e_members :: "enum_member list"

datatype pval = Doc jval | Rdl string | Encode user_enum

record component =
  properties :: "(string \<times> pval) list"

text \<open>\<open>Intr_o v\<close> stands for the text \<^verbatim>\<open>f"intr_{v}_o"\<close>, \<open>Given v\<close> for \<open>v\<close> itself.\<close>

datatype signal_name = Given jval | Intr_o jval

record signal_inst = component +
  s_type_name :: jval
  s_inst_name :: signal_name

record field_inst = component +
  f_type_name :: string
  f_inst_name :: string
  f_bit_offset :: int
  f_bit_width :: int

record reg_inst = component +
  r_type_name :: string
  r_inst_name :: string
  addr_offset :: int
  external :: bool
  r_children :: "field_inst list"

record addrmap = component +
  a_type_name :: jval
  a_signals :: "signal_inst list"
  a_regs :: "reg_inst list"

text \<open>
  The warnings, by the parts their text is formatted from:
  \<^verbatim>\<open>f"{scope} unsupported key: {key}"\<close>,
  \<^verbatim>\<open>f"Unsupported resval value: {resval}, using 0 instead"\<close> and
  \<^verbatim>\<open>f"Enumeration name cannot start with number: {name}, ..."\<close>.
\<close>

datatype scope = Addrmap | Signal jval | Register jval | Field jval

datatype message =
    Unsupported_key scope string
  | Unsupported_resval jval
  | Enum_name_digit jval

record importer =
  regwidth :: "int option"
  addroffset :: int
  warnings :: "message list"

record env =
  sw_from_access :: "jval \<Rightarrow> error + (pval \<times> pval option \<times> pval option)"
  hw_from_access :: "jval \<Rightarrow> error + (pval \<times> pval option)"
  lookup_property :: "string \<Rightarrow> bool"

definition has_key :: "dict \<Rightarrow> string \<Rightarrow> bool" where
  "has_key d k = (map_of d k \<noteq> None)"

definition assign_property ::
  "'a component_scheme \<Rightarrow> string \<Rightarrow> pval \<Rightarrow> 'a component_scheme" where
  "assign_property c prop v = c\<lparr>properties := properties c @ [(prop, v)]\<rparr>"

definition warning :: "message \<Rightarrow> importer \<Rightarrow> importer" where
  "warning m st = st\<lparr>warnings := warnings st @ [m]\<rparr>"

definition warn_unsupported :: "string \<Rightarrow> dict \<Rightarrow> scope \<Rightarrow> importer \<Rightarrow> importer" where
  "warn_unsupported key tree scope st =
     (if has_key tree key then warning (Unsupported_key scope key) st else st)"

definition unsupported_addrmap_props :: "string list" where
  "unsupported_addrmap_props =
     [''cip_id'', ''bus_interfaces'', ''revisions'', ''design_spec'', ''dv_doc'',
      ''hw_checklist'', ''sw_checklist'', ''design_stage'', ''dif_stage'',
      ''verification_stage'', ''notes'', ''version'', ''life_stage'', ''commit_id'',
      ''alert_list'', ''expose_reg_if'', ''inter_signal_list'', ''no_auto_id_regs'',
      ''no_auto_feat_regs'', ''no_auto_intr_regs'', ''no_auto_alert_regs'',
      ''param_list'', ''reset_request_list'', ''scan'', ''scan_reset'', ''scan_en'',
      ''SPDX-License-Identifier'', ''wakeup_list'', ''countermeasure'']"

definition unsupported_reg_props :: "string list" where
  "unsupported_reg_props =
     [''alias_target'', ''async'', ''sync'', ''hwre'', ''regwen'', ''tags'',
      ''shadowed'', ''update_err_alert'', ''storage_err_alert'']"

definition unsupported_field_props :: "string list" where
  "unsupported_field_props = [''alias_target'', ''tags'', ''mubi'', ''auto_split'']"

definition unsupported_signal_props :: "string list" where
  "unsupported_signal_props = [''type'', ''default'']"

text \<open>\<^verbatim>\<open>for prop in props: self.warn_unsupported(prop, tree, scope)\<close>.\<close>

definition warn_all :: "string list \<Rightarrow> dict \<Rightarrow> scope \<Rightarrow> importer \<Rightarrow> importer" where
  "warn_all props tree scope st = fold (\<lambda>prop. warn_unsupported prop tree scope) props st"

text \<open>A loop whose body may raise: the first exception ends it.\<close>

fun for_each :: "('a \<Rightarrow> 's \<Rightarrow> error + 's) \<Rightarrow> 'a list \<Rightarrow> 's \<Rightarrow> error + 's" where
  "for_each f [] s = Inr s"
| "for_each f (x # xs) s = bind (f x s) (\<lambda>s'. for_each f xs s')"

subsection \<open>\<^verbatim>\<open>create_signal\<close> and \<^verbatim>\<open>add_signals\<close>\<close>

text \<open>
  \<^verbatim>\<open>create_signal\<close> writes \<^verbatim>\<open>signalwidth\<close> and the direction into the entry it
  is given, which is the entry of the document itself; no later statement of the
  importer reads either key, so the changed entry is kept local here.
\<close>

definition forward_props :: "env \<Rightarrow> dict \<Rightarrow> signal_inst \<Rightarrow> signal_inst" where
  "forward_props E sig_dict S =
     fold (\<lambda>p S. if lookup_property E (fst p) \<and> fst p \<noteq> ''name''
                  then assign_property S (fst p) (Doc (snd p)) else S) sig_dict S"

definition create_signal ::
  "env \<Rightarrow> jval \<Rightarrow> string \<Rightarrow> importer \<Rightarrow> error + (signal_inst \<times> importer)" where
  "create_signal E sig sig_type st =
     bind (as_dict sig) (\<lambda>sig_dict.
     bind (getitem sig_dict ''name'') (\<lambda>name.
     let st1 = warn_all unsupported_signal_props sig_dict (Signal name) st;
         signal_inst_name = (if sig_type = ''interrupt'' then Intr_o name else Given name);
         sig_type1 = (if sig_type = ''interrupt'' then ''output'' else sig_type);
         S = \<lparr>properties = [], s_type_name = name, s_inst_name = signal_inst_name\<rparr>;
         sig_dict1 = (if \<not> has_key sig_dict ''width''
                      then setitem sig_dict ''signalwidth'' (JInt 1) else sig_dict);
         sig_dict2 = (if \<not> has_key sig_dict1 sig_type1
                      then setitem sig_dict1 sig_type1 (JBool True) else sig_dict1)
     in Inr (forward_props E sig_dict2 S, st1)))"

definition add_signal_child :: "addrmap \<Rightarrow> signal_inst \<Rightarrow> addrmap" where
  "add_signal_child parent child = parent\<lparr>a_signals := a_signals parent @ [child]\<rparr>"

definition add_signal ::
  "env \<Rightarrow> string \<Rightarrow> jval \<Rightarrow> addrmap \<times> importer \<Rightarrow> error + (addrmap \<times> importer)" where
  "add_signal E sig_type s ns =
     bind (create_signal E s sig_type (snd ns)) (\<lambda>r.
       Inr (add_signal_child (fst ns) (fst r), snd r))"

text \<open>The dictionary built for one pair of an entry of \<^verbatim>\<open>clocking\<close>.\<close>

definition clocking_sig_dict :: "string \<Rightarrow> jval \<Rightarrow> dict" where
  "clocking_sig_dict key v =
     (if key = ''clock''
        then [(''name'', v), (''desc'', JStr ''Input clock''), (''clock'', JBool True)]
      else if key = ''reset''
        then (if v = JStr ''rst_ni''
              then [(''name'', v), (''reset_signal'', JBool True),
                    (''desc'', JStr ''Input reset, active low''), (''activelow'', JBool True)]
              else [(''name'', v), (''reset_signal'', JBool True),
                    (''desc'', JStr ''Input reset, active high''), (''activehigh'', JBool True)])
      else [(''name'', v)])"

definition add_clocking_entry ::
  "env \<Rightarrow> jval \<Rightarrow> addrmap \<times> importer \<Rightarrow> error + (addrmap \<times> importer)" where
  "add_clocking_entry E entry ns = (case entry of
      JDict items \<Rightarrow>
        for_each (\<lambda>kv. add_signal E ''input'' (JDict (clocking_sig_dict (fst kv) (snd kv))))
          items ns
    | _ \<Rightarrow> Inl AttributeError)"

text \<open>\<^verbatim>\<open>if list_type in tree: for s in tree[list_type]: ...\<close>.\<close>

definition add_signal_list ::
  "env \<Rightarrow> dict \<Rightarrow> string \<Rightarrow> string \<Rightarrow> addrmap \<times> importer \<Rightarrow> error + (addrmap \<times> importer)" where
  "add_signal_list E tree list_type sig_type ns = (case map_of tree list_type of
      None \<Rightarrow> Inr ns
    | Some l \<Rightarrow> bind (py_iter l) (\<lambda>entries. for_each (add_signal E sig_type) entries ns))"

definition add_signals ::
  "env \<Rightarrow> addrmap \<Rightarrow> dict \<Rightarrow> importer \<Rightarrow> error + (addrmap \<times> importer)" where
  "add_signals E node tree st =
     bind (case map_of tree ''clocking'' of
             None \<Rightarrow> Inr (node, st)
           | Some clocking \<Rightarrow>
               bind (py_iter clocking) (\<lambda>entries.
                 for_each (add_clocking_entry E) entries (node, st))) (\<lambda>ns1.
     bind (add_signal_list E tree ''available_input_list'' ''input'' ns1) (\<lambda>ns2.
     bind (add_signal_list E tree ''available_output_list'' ''output'' ns2) (\<lambda>ns3.
     bind (add_signal_list E tree ''available_inout_list'' ''inout'' ns3) (\<lambda>ns4.
     add_signal_list E tree ''interrupt_list'' ''interrupt'' ns4))))"

subsection \<open>\<^verbatim>\<open>parse_enum\<close>\<close>

text \<open>
  \<^verbatim>\<open>enum['name'][0].isdigit()\<close>: the first character of a string; what the
  subscript and the method do on the other values is written out, each ending in
  the exception the loop body raises there.
\<close>

definition starts_with_digit :: "jval \<Rightarrow> error + bool" where
  "starts_with_digit name = (case name of
      JStr s \<Rightarrow> (case s of [] \<Rightarrow> Inl IndexError | c # _ \<Rightarrow> Inr (py_isdigit c))
    | JList xs \<Rightarrow> (case xs of
          [] \<Rightarrow> Inl IndexError
        | x # _ \<Rightarrow> (case x of
              JStr t \<Rightarrow> if t \<noteq> [] \<and> list_all py_isdigit t then Inl TypeError
                        else Inl AttributeError
            | _ \<Rightarrow> Inl AttributeError))
    | JDict d \<Rightarrow> Inl (KeyError (JInt 0))
    | _ \<Rightarrow> Inl TypeError)"

definition enum_member_of ::
  "jval \<Rightarrow> enum_member list \<times> importer \<Rightarrow> error + (enum_member list \<times> importer)" where
  "enum_member_of enum ms =
     bind (as_dict enum) (\<lambda>e.
     bind (getitem e ''name'') (\<lambda>name.
     bind (starts_with_digit name) (\<lambda>dg.
     let st1 = (if dg then warning (Enum_name_digit name) (snd ms) else snd ms);
         name1 = (if dg then (case name of JStr s \<Rightarrow> JStr (CHR ''_'' # s) | _ \<Rightarrow> name)
                  else name)
     in bind (lower name1) (\<lambda>lname.
        bind (getitem e ''value'') (\<lambda>v.
        bind (py_int v) (\<lambda>n.
        bind (getitem e ''desc'') (\<lambda>desc.
        Inr (fst ms @ [\<lparr>m_name = lname, m_value = n, m_desc = desc\<rparr>], st1))))))))"

definition parse_enum :: "dict \<Rightarrow> importer \<Rightarrow> error + (user_enum \<times> importer)" where
  "parse_enum field_dict st =
     bind (getitem field_dict ''enum'') (\<lambda>l.
     bind (py_iter l) (\<lambda>enums.
     bind (for_each enum_member_of enums ([], st)) (\<lambda>ms.
     bind (getitem field_dict ''name'') (\<lambda>name.
     bind (lower name) (\<lambda>lname.
     Inr (\<lparr>e_name = lname @ ''_e'', e_members = fst ms\<rparr>, snd ms))))))"

subsection \<open>\<^verbatim>\<open>add_fields\<close>\<close>

text \<open>
  \<^verbatim>\<open>(reg_resval & ((2**bit_width-1) << bit_offset)) >> bit_offset\<close>. With a
  negative width the power is a float, which has no shift; a negative shift count
  is a \<^verbatim>\<open>ValueError\<close>; a register reset value that is neither an integer nor a
  Boolean has no \<^verbatim>\<open>&\<close> with an integer.
\<close>

definition inherit_resval :: "jval \<Rightarrow> int \<Rightarrow> int \<Rightarrow> error + jval" where
  "inherit_resval reg_resval bit_offset bit_width =
     (if bit_width < 0 then Inl TypeError
      else if bit_offset < 0 then Inl ValueError
      else (case reg_resval of
          JInt r \<Rightarrow> Inr (JInt (drop_bit (nat bit_offset)
                     (r AND push_bit (nat bit_offset) (2 ^ nat bit_width - 1))))
        | JBool b \<Rightarrow> Inr (JInt (drop_bit (nat bit_offset)
                     ((if b then 1 else 0) AND push_bit (nat bit_offset) (2 ^ nat bit_width - 1))))
        | _ \<Rightarrow> Inl TypeError))"

definition field_resval ::
  "dict \<Rightarrow> jval \<Rightarrow> int \<Rightarrow> int \<Rightarrow> importer \<Rightarrow> error + (jval \<times> importer)" where
  "field_resval field_dict reg_resval bit_offset bit_width st =
     (case map_of field_dict ''resval'' of
        Some resval \<Rightarrow>
          if resval = JStr ''x''
          then bind (hex_or_dec_to_dec (JInt 0)) (\<lambda>r.
                 Inr (r, warning (Unsupported_resval resval) st))
          else bind (hex_or_dec_to_dec resval) (\<lambda>r. Inr (r, st))
      | None \<Rightarrow> bind (inherit_resval reg_resval bit_offset bit_width) (\<lambda>r. Inr (r, st)))"

definition field_name_of :: "dict \<Rightarrow> nat \<Rightarrow> jval" where
  "field_name_of field_dict cnt = (case map_of field_dict ''name'' of
      Some v \<Rightarrow> v
    | None \<Rightarrow> JStr (''val'' @ str_of_nat cnt))"

definition get_or :: "dict \<Rightarrow> string \<Rightarrow> jval \<Rightarrow> jval" where
  "get_or d k dflt = (case map_of d k of None \<Rightarrow> dflt | Some v \<Rightarrow> v)"

definition assign_opt :: "field_inst \<Rightarrow> string \<Rightarrow> pval option \<Rightarrow> field_inst" where
  "assign_opt F prop v = (case v of None \<Rightarrow> F | Some x \<Rightarrow> assign_property F prop x)"

definition instantiate_field :: "string \<Rightarrow> string \<Rightarrow> int \<Rightarrow> int \<Rightarrow> field_inst" where
  "instantiate_field type_name inst_name bit_offset bit_width =
     \<lparr>properties = [], f_type_name = type_name, f_inst_name = inst_name,
      f_bit_offset = bit_offset, f_bit_width = bit_width\<rparr>"

text \<open>The statements of the loop body that assign properties, group by group.\<close>

definition assign_desc :: "dict \<Rightarrow> field_inst \<Rightarrow> field_inst" where
  "assign_desc field_dict F = (case map_of field_dict ''desc'' of
      Some d \<Rightarrow> assign_property F ''desc'' (Doc d)
    | None \<Rightarrow> F)"

definition assign_sw :: "pval \<times> pval option \<times> pval option \<Rightarrow> field_inst \<Rightarrow> field_inst" where
  "assign_sw sw F =
     (let F1 = assign_property F ''sw'' (fst sw);
          F2 = assign_opt F1 ''onread'' (snd (snd sw))
      in assign_opt F2 ''onwrite'' (fst (snd sw)))"

definition assign_hw :: "jval \<Rightarrow> jval \<Rightarrow> pval \<times> pval option \<Rightarrow> field_inst \<Rightarrow> field_inst" where
  "assign_hw swaccess hwaccess hw F =
     (let F1 = assign_property F ''hw'' (fst hw)
      in if \<not> (swaccess = JStr ''ro''
                \<and> (hwaccess = JStr ''hwo'' \<or> hwaccess = JStr ''hro''))
         then assign_opt F1 ''we'' (snd hw) else F1)"

definition assign_reset :: "jval \<Rightarrow> jval \<Rightarrow> field_inst \<Rightarrow> field_inst" where
  "assign_reset hwqe resval F =
     (let F1 = assign_property F ''reset'' (Doc resval)
      in if hwqe = JStr ''true''
         then assign_property F1 ''swmod'' (Doc (JBool True)) else F1)"

definition assign_enum ::
  "dict \<Rightarrow> field_inst \<Rightarrow> importer \<Rightarrow> error + (field_inst \<times> importer)" where
  "assign_enum field_dict F st =
     (if has_key field_dict ''enum''
      then bind (parse_enum field_dict st) (\<lambda>en.
             Inr (assign_property F ''encode'' (Encode (fst en)), snd en))
      else Inr (F, st))"

text \<open>The body of the loop of \<^verbatim>\<open>add_fields\<close>, up to \<^verbatim>\<open>add_child\<close>.\<close>

definition create_field ::
  "env \<Rightarrow> jval \<Rightarrow> jval \<Rightarrow> jval \<Rightarrow> jval \<Rightarrow> nat \<Rightarrow> jval \<Rightarrow> importer
   \<Rightarrow> error + (field_inst \<times> importer)" where
  "create_field E hwqe default_swaccess default_hwaccess reg_resval cnt field st =
     bind (as_dict field) (\<lambda>field_dict.
     let field_name = field_name_of field_dict cnt;
         st1 = warn_all unsupported_field_props field_dict (Field field_name) st
     in
     bind (getitem field_dict ''bits'') (\<lambda>b.
     bind (parse_bits b) (\<lambda>bits.
     bind (lower field_name) (\<lambda>lname.
     let F0 = instantiate_field lname lname (fst bits) (snd bits);
         F1 = assign_desc field_dict F0;
         swaccess = get_or field_dict ''swaccess'' default_swaccess;
         hwaccess = get_or field_dict ''hwaccess'' default_hwaccess
     in
     bind (sw_from_access E swaccess) (\<lambda>sw.
     let F2 = assign_sw sw F1 in
     bind (hw_from_access E hwaccess) (\<lambda>hw.
     let F3 = assign_hw swaccess hwaccess hw F2 in
     bind (field_resval field_dict reg_resval (fst bits) (snd bits) st1) (\<lambda>rv.
     let F4 = assign_reset hwqe (fst rv) F3 in
     assign_enum field_dict F4 (snd rv))))))))"

definition add_field_child :: "reg_inst \<Rightarrow> field_inst \<Rightarrow> reg_inst" where
  "add_field_child parent child = parent\<lparr>r_children := r_children parent @ [child]\<rparr>"

definition add_field ::
  "env \<Rightarrow> jval \<Rightarrow> jval \<Rightarrow> jval \<Rightarrow> jval \<Rightarrow> nat \<times> jval \<Rightarrow> reg_inst \<times> importer
   \<Rightarrow> error + (reg_inst \<times> importer)" where
  "add_field E hwqe default_swaccess default_hwaccess reg_resval cf rs =
     bind (create_field E hwqe default_swaccess default_hwaccess reg_resval
             (fst cf) (snd cf) (snd rs)) (\<lambda>r.
       Inr (add_field_child (fst rs) (fst r), snd r))"

definition add_fields ::
  "env \<Rightarrow> reg_inst \<Rightarrow> dict \<Rightarrow> jval \<Rightarrow> jval \<Rightarrow> jval \<Rightarrow> importer
   \<Rightarrow> error + (reg_inst \<times> importer)" where
  "add_fields E reg reg_dict default_swaccess default_hwaccess reg_resval st =
     (let hwqe = get_or_none reg_dict ''hwqe'' in
      bind (getitem reg_dict ''fields'') (\<lambda>l.
      bind (py_iter l) (\<lambda>fields.
      for_each (add_field E hwqe default_swaccess default_hwaccess reg_resval)
        (enumerate 0 fields) (reg, st))))"

subsection \<open>\<^verbatim>\<open>create_register\<close>\<close>

definition create_register ::
  "env \<Rightarrow> jval \<Rightarrow> importer \<Rightarrow> error + (reg_inst \<times> importer)" where
  "create_register E reg st =
     bind (as_dict reg) (\<lambda>reg_dict.
     bind (getitem reg_dict ''name'') (\<lambda>name.
     let st1 = warn_all unsupported_reg_props reg_dict (Register name) st in
     bind (lower name) (\<lambda>lname.
     let R0 = \<lparr>properties = [], r_type_name = lname, r_inst_name = lname,
               addr_offset = addroffset st1, external = False, r_children = []\<rparr>
     in
     bind (case regwidth st1 of None \<Rightarrow> Inl TypeError | Some w \<Rightarrow> Inr w) (\<lambda>w.
     let st2 = st1\<lparr>addroffset := addroffset st1 + w div 8\<rparr> in
     bind (getitem reg_dict ''desc'') (\<lambda>desc.
     let R1 = assign_property R0 ''desc'' (Doc desc);
         swaccess = get_or_none reg_dict ''swaccess'';
         hwaccess = get_or_none reg_dict ''hwaccess'';
         hwext = get_or_none reg_dict ''hwext''
     in
     bind (case map_of reg_dict ''resval'' of
             Some v \<Rightarrow> hex_or_dec_to_dec v | None \<Rightarrow> Inr (JInt 0)) (\<lambda>resval.
     let R2 = (if hwext = JStr ''true'' then R1\<lparr>external := True\<rparr> else R1) in
     add_fields E R2 reg_dict swaccess hwaccess resval st2))))))"

subsection \<open>\<^verbatim>\<open>add_registers\<close>\<close>

definition intr_state_reg :: dict where
  "intr_state_reg =
     [(''name'', JStr ''intr_state''), (''desc'', JStr ''Interrupt state register.''),
      (''swaccess'', JStr ''rw1c''), (''hwaccess'', JStr ''hrw'')]"

definition intr_enable_reg :: dict where
  "intr_enable_reg =
     [(''name'', JStr ''intr_enable''), (''desc'', JStr ''Interrupt enable register.''),
      (''swaccess'', JStr ''rw''), (''hwaccess'', JStr ''hro'')]"

definition intr_test_reg :: dict where
  "intr_test_reg =
     [(''name'', JStr ''intr_test''), (''desc'', JStr ''Interrupt test register.''),
      (''swaccess'', JStr ''wo''), (''hwaccess'', JStr ''hro''), (''hwext'', JStr ''true'')]"

text \<open>
  The body of the loop over \<^verbatim>\<open>enumerate(tree["interrupt_list"])\<close>: the three
  lists of field dictionaries, each one entry longer.
\<close>

definition intr_fields ::
  "nat \<times> jval \<Rightarrow> jval list \<times> jval list \<times> jval list
   \<Rightarrow> error + (jval list \<times> jval list \<times> jval list)" where
  "intr_fields ci acc =
     bind (as_dict (snd ci)) (\<lambda>intr.
     bind (getitem intr ''name'') (\<lambda>intr_name.
     bind (getitem intr ''desc'') (\<lambda>desc.
     let resval = (case map_of intr ''default'' of Some v \<Rightarrow> v | None \<Rightarrow> JInt 0);
         base_field = [(''name'', intr_name), (''desc'', desc),
                       (''bits'', JStr (str_of_nat (fst ci)))];
         status_field = setitem base_field ''resval'' resval;
         test_field = base_field
     in Inr (fst acc @ [JDict status_field],
             fst (snd acc) @ [JDict base_field],
             snd (snd acc) @ [JDict test_field]))))"

definition add_child :: "addrmap \<Rightarrow> reg_inst \<Rightarrow> addrmap" where
  "add_child parent child = parent\<lparr>a_regs := a_regs parent @ [child]\<rparr>"

definition add_register ::
  "env \<Rightarrow> jval \<Rightarrow> addrmap \<times> importer \<Rightarrow> error + (addrmap \<times> importer)" where
  "add_register E reg ns =
     bind (create_register E reg (snd ns)) (\<lambda>r. Inr (add_child (fst ns) (fst r), snd r))"

definition add_registers ::
  "env \<Rightarrow> addrmap \<Rightarrow> dict \<Rightarrow> importer \<Rightarrow> error + (addrmap \<times> importer)" where
  "add_registers E node tree st =
     bind (getitem tree ''interrupt_list'') (\<lambda>il.
     bind (py_len il) (\<lambda>n.
     if \<not> n \<le> 32 then bind (getitem tree ''name'') (\<lambda>_. Inl AssertionError)
     else
     bind (py_iter il) (\<lambda>intrs.
     bind (for_each intr_fields (enumerate 0 intrs) ([], [], [])) (\<lambda>fs.
     let state_reg = setitem intr_state_reg ''fields'' (JList (fst fs));
         enable_reg = setitem intr_enable_reg ''fields'' (JList (fst (snd fs)));
         test_reg = setitem intr_test_reg ''fields'' (JList (snd (snd fs)));
         intr_regs = [JDict state_reg, JDict enable_reg, JDict test_reg]
     in
     bind (for_each (add_register E) intr_regs (node, st)) (\<lambda>ns.
     bind (getitem tree ''registers'') (\<lambda>l.
     bind (py_iter l) (\<lambda>regs.
     for_each (add_register E) regs ns)))))))"

subsection \<open>\<^verbatim>\<open>import_ip\<close> and \<^verbatim>\<open>import_file\<close>\<close>

text \<open>
  \<^verbatim>\<open>self.msg.fatal\<close> raises \<^verbatim>\<open>RDLCompileError\<close>. The root component that
  \<^verbatim>\<open>register_root_component\<close> receives is the result.
\<close>

definition addrmap_desc :: "dict \<Rightarrow> addrmap \<Rightarrow> addrmap" where
  "addrmap_desc tree C = (case map_of tree ''one_paragraph_desc'' of
      Some d \<Rightarrow> assign_property C ''desc'' (Doc d)
    | None \<Rightarrow> (case map_of tree ''one_line_desc'' of
          Some d \<Rightarrow> assign_property C ''desc'' (Doc d)
        | None \<Rightarrow> C))"

definition import_ip :: "env \<Rightarrow> jval \<Rightarrow> importer \<Rightarrow> error + (addrmap \<times> importer)" where
  "import_ip E doc st =
     bind (as_dict doc) (\<lambda>tree.
     let st1 = warn_all unsupported_addrmap_props tree Addrmap st in
     bind (getitem tree ''name'') (\<lambda>name.
     if \<not> py_truthy name then Inl RDLCompileError
     else
     let C0 = \<lparr>properties = [], a_type_name = name, a_signals = [], a_regs = []\<rparr>;
         C1 = (if has_key tree ''human_name''
               then assign_property C0 ''name'' (Doc name) else C0);
         C2 = addrmap_desc tree C1
     in
     bind (add_signals E C2 tree st1) (\<lambda>ns.
     bind (case map_of tree ''regwidth'' of
             Some v \<Rightarrow> py_int v | None \<Rightarrow> Inr 32) (\<lambda>w.
     add_registers E (fst ns) tree ((snd ns)\<lparr>regwidth := Some w\<rparr>)))))"

text \<open>
  \<^verbatim>\<open>import_file\<close> loads the document, sets \<^verbatim>\<open>regwidth\<close> to \<^verbatim>\<open>None\<close> and
  \<^verbatim>\<open>__addroffset\<close> to 0 and calls \<^verbatim>\<open>import_ip\<close>; the loaded document is the
  argument here.
\<close>

definition import_file :: "env \<Rightarrow> jval \<Rightarrow> error + (addrmap \<times> importer)" where
  "import_file E doc = import_ip E doc \<lparr>regwidth = None, addroffset = 0, warnings = []\<rparr>"

subsection \<open>An environment to run the importer in\<close>

text \<open>
  Modelled from the spec: the token tables of \<^verbatim>\<open>typemaps.py\<close> and the property
  registry (the compiler's own properties and those of \<^verbatim>\<open>sig_props.rdl\<close>) are
  not among the sources. The tables below hold the tokens that section 4.1 of the
  specification names, an unrecognised token being fatal; the registry holds the
  property names the importer itself writes for a signal. They serve to run the
  importer on concrete documents; every theorem is stated for an arbitrary
  environment.
\<close>

definition example_sw_from_access :: "jval \<Rightarrow> error + (pval \<times> pval option \<times> pval option)" where
  "example_sw_from_access t =
     (if t = JStr ''ro'' then Inr (Rdl ''r'', None, None)
      else if t = JStr ''rw'' then Inr (Rdl ''rw'', None, None)
      else if t = JStr ''rw1c'' then Inr (Rdl ''rw'', Some (Rdl ''woclr''), None)
      else if t = JStr ''wo'' then Inr (Rdl ''w'', None, None)
      else Inl RDLCompileError)"

definition example_hw_from_access :: "jval \<Rightarrow> error + (pval \<times> pval option)" where
  "example_hw_from_access t =
     (if t = JStr ''hro'' then Inr (Rdl ''r'', None)
      else if t = JStr ''hwo'' then Inr (Rdl ''w'', Some (Doc (JBool True)))
      else if t = JStr ''hrw'' then Inr (Rdl ''rw'', Some (Doc (JBool True)))
      else Inl RDLCompileError)"

definition example_lookup_property :: "string \<Rightarrow> bool" where
  "example_lookup_property prop =
     (prop \<in> set [''name'', ''desc'', ''signalwidth'', ''input'', ''output'', ''inout'',
                   ''clock'', ''reset_signal'', ''activelow'', ''activehigh''])"

definition example_env :: env where
  "example_env = \<lparr>sw_from_access = example_sw_from_access,
                   hw_from_access = example_hw_from_access,
                   lookup_property = example_lookup_property\<rparr>"


subsection \<open>Notions used in the statements\<close>

text \<open>The entry an optional property adds to the property list.\<close>

definition opt_prop :: "string \<Rightarrow> pval option \<Rightarrow> (string \<times> pval) list" where
  "opt_prop k v = (case v of None \<Rightarrow> [] | Some x \<Rightarrow> [(k, x)])"

text \<open>The token pair for which the loop body skips the write enable.\<close>

definition no_storage :: "jval \<Rightarrow> jval \<Rightarrow> bool" where
  "no_storage swaccess hwaccess \<longleftrightarrow>
     swaccess = JStr ''ro'' \<and> (hwaccess = JStr ''hwo'' \<or> hwaccess = JStr ''hro'')"

text \<open>The properties of a field before \<^verbatim>\<open>encode\<close>, in the order of assignment.\<close>

definition field_props ::
  "dict \<Rightarrow> jval \<Rightarrow> jval \<Rightarrow> jval \<Rightarrow> pval \<times> pval option \<times> pval option \<Rightarrow> pval \<times> pval option
   \<Rightarrow> jval \<Rightarrow> (string \<times> pval) list" where
  "field_props fd hwqe swa hwa sw hw rv =
     (case map_of fd ''desc'' of None \<Rightarrow> [] | Some d \<Rightarrow> [(''desc'', Doc d)])
     @ [(''sw'', fst sw)] @ opt_prop ''onread'' (snd (snd sw))
     @ opt_prop ''onwrite'' (fst (snd sw))
     @ [(''hw'', fst hw)] @ (if no_storage swa hwa then [] else opt_prop ''we'' (snd hw))
     @ [(''reset'', Doc rv)]
     @ (if hwqe = JStr ''true'' then [(''swmod'', Doc (JBool True))] else [])"

text \<open>The characters a successful \<^verbatim>\<open>int(s)\<close> can contain.\<close>

definition int_char :: "nat \<Rightarrow> char \<Rightarrow> bool" where
  "int_char base c \<longleftrightarrow> int_space c \<or> c = CHR ''+'' \<or> c = CHR ''-'' \<or> c = CHR ''_'' \<or> is_digit base c"

text \<open>Two states of the importer with the same attributes: only warnings were added.\<close>

definition same_attrs :: "importer \<Rightarrow> importer \<Rightarrow> bool" where
  "same_attrs st st' \<longleftrightarrow> regwidth st' = regwidth st \<and> addroffset st' = addroffset st"

text \<open>Two register instances that differ in their fields at most.\<close>

definition same_reg :: "reg_inst \<Rightarrow> reg_inst \<Rightarrow> bool" where
  "same_reg R R' \<longleftrightarrow> r_type_name R' = r_type_name R \<and> r_inst_name R' = r_inst_name R
     \<and> addr_offset R' = addr_offset R \<and> external R' = external R
     \<and> properties R' = properties R"

text \<open>
  \<^verbatim>\<open>self.hex_or_dec_to_dec(reg_dict['resval']) if 'resval' in reg_dict else 0\<close>,
  the reset value that \<^verbatim>\<open>create_register\<close> hands to \<^verbatim>\<open>add_fields\<close>.
\<close>

definition reg_resval :: "dict \<Rightarrow> error + jval" where
  "reg_resval rd = (case map_of rd ''resval'' of
      Some v \<Rightarrow> hex_or_dec_to_dec v | None \<Rightarrow> Inr (JInt 0))"

text \<open>A register entry, the state it is translated in and what \<^verbatim>\<open>create_register\<close> returns for it.\<close>

definition example_state :: importer where
  "example_state = \<lparr>regwidth = Some 32, addroffset = 8, warnings = []\<rparr>"

definition example_fields :: "jval list" where
  "example_fields =
     [JDict [(''bits'', JStr ''7:4'')],
      JDict [(''name'', JStr ''EN''), (''bits'', JStr ''0''), (''swaccess'', JStr ''rw''),
             (''hwaccess'', JStr ''hrw''), (''resval'', JStr ''x''),
             (''enum'', JList [JDict [(''name'', JStr ''0_ERR''), (''value'', JInt 0),
                                      (''desc'', JStr ''d'')]])]]"

definition example_reg :: dict where
  "example_reg =
     [(''name'', JStr ''CTRL''), (''desc'', JStr ''d''), (''swaccess'', JStr ''ro''),
      (''hwaccess'', JStr ''hwo''), (''resval'', JStr ''0xA5''),
      (''fields'', JList example_fields)]"

definition example_reg_inst :: reg_inst where
  "example_reg_inst =
     \<lparr>properties = [(''desc'', Doc (JStr ''d''))], r_type_name = ''ctrl'',
      r_inst_name = ''ctrl'', addr_offset = 8, external = False,
      r_children =
        [\<lparr>properties = [(''sw'', Rdl ''r''), (''hw'', Rdl ''w''), (''reset'', Doc (JInt 10))],
          f_type_name = ''val0'', f_inst_name = ''val0'', f_bit_offset = 4, f_bit_width = 4\<rparr>,
         \<lparr>properties = [(''sw'', Rdl ''rw''), (''hw'', Rdl ''rw''), (''we'', Doc (JBool True)),
                         (''reset'', Doc (JInt 0)),
                         (''encode'', Encode \<lparr>e_name = ''en_e'', e_members =
                            [\<lparr>m_name = ''_0_err'', m_value = 0, m_desc = JStr ''d''\<rparr>]\<rparr>)],
          f_type_name = ''en'', f_inst_name = ''en'', f_bit_offset = 0, f_bit_width = 1\<rparr>]\<rparr>"

definition example_state_after :: importer where
  "example_state_after =
     \<lparr>regwidth = Some 32, addroffset = 12,
      warnings = [Unsupported_resval (JStr ''x''), Enum_name_digit (JStr ''0_ERR'')]\<rparr>"

text \<open>The integer that \<^verbatim>\<open>&\<close> takes a reset value for: a Boolean counts as 0 or 1.\<close>

definition int_of_jval :: "jval \<Rightarrow> int option" where
  "int_of_jval v = (case v of
      JInt r \<Rightarrow> Some r
    | JBool b \<Rightarrow> Some (if b then 1 else 0)
    | _ \<Rightarrow> None)"

text \<open>The number that a string of digits denotes in a base.\<close>

definition digits_value :: "nat \<Rightarrow> string \<Rightarrow> int" where
  "digits_value base ds = foldl (\<lambda>a c. a * int base + int (the (digit_value c))) 0 ds"

text \<open>The warnings of the first state are among those of the second.\<close>

definition grows :: "importer \<Rightarrow> importer \<Rightarrow> bool" where
  "grows st st' \<longleftrightarrow> set (warnings st) \<subseteq> set (warnings st')"

text \<open>Two address maps that differ in their registers at most.\<close>

definition same_signals :: "addrmap \<Rightarrow> addrmap \<Rightarrow> bool" where
  "same_signals C C' \<longleftrightarrow> a_signals C' = a_signals C \<and> a_type_name C' = a_type_name C
     \<and> properties C' = properties C"

text \<open>The three register entries that \<^verbatim>\<open>add_registers\<close> builds from the field lists.\<close>

definition intr_regs :: "jval list \<times> jval list \<times> jval list \<Rightarrow> jval list" where
  "intr_regs fs =
     [JDict (setitem intr_state_reg ''fields'' (JList (fst fs))),
      JDict (setitem intr_enable_reg ''fields'' (JList (fst (snd fs)))),
      JDict (setitem intr_test_reg ''fields'' (JList (snd (snd fs))))]"

text \<open>Two address maps that differ in their signals at most.\<close>

definition same_regs :: "addrmap \<Rightarrow> addrmap \<Rightarrow> bool" where
  "same_regs C C' \<longleftrightarrow> a_regs C' = a_regs C \<and> a_type_name C' = a_type_name C
     \<and> properties C' = properties C"

text \<open>
  The entry as \<^verbatim>\<open>create_signal\<close> completes it before it forwards the keys:
  \<^verbatim>\<open>signalwidth\<close> is 1 when the entry has no \<^verbatim>\<open>width\<close>, and the direction is
  set when the entry has no key of that name.
\<close>

definition completed_entry :: "dict \<Rightarrow> string \<Rightarrow> dict" where
  "completed_entry sig_dict sig_type =
     (let d1 = (if \<not> has_key sig_dict ''width''
                then setitem sig_dict ''signalwidth'' (JInt 1) else sig_dict)
      in if \<not> has_key d1 sig_type then setitem d1 sig_type (JBool True) else d1)"

text \<open>The properties that the last loop of \<^verbatim>\<open>create_signal\<close> assigns.\<close>

definition forwarded :: "env \<Rightarrow> dict \<Rightarrow> (string \<times> pval) list" where
  "forwarded E d =
     map (\<lambda>p. (fst p, Doc (snd p)))
       (filter (\<lambda>p. lookup_property E (fst p) \<and> fst p \<noteq> ''name'') d)"

text \<open>
  The signals \<open>Ss\<close> are those of the entries of one list of the document, one for
  each entry and in their order.
\<close>

definition signals_of :: "env \<Rightarrow> dict \<Rightarrow> string \<Rightarrow> string \<Rightarrow> signal_inst list \<Rightarrow> bool" where
  "signals_of E tree list_type sig_type Ss \<longleftrightarrow>
     (case map_of tree list_type of
        None \<Rightarrow> Ss = []
      | Some l \<Rightarrow> \<exists>entries. py_iter l = Inr entries \<and> length Ss = length entries
          \<and> (\<forall>i<length entries. \<exists>a b.
                create_signal E (entries ! i) sig_type a = Inr (Ss ! i, b)))"

text \<open>\<^verbatim>\<open>int(tree['regwidth'])\<close> when the key is there, and 32 otherwise.\<close>

definition regwidth_of :: "dict \<Rightarrow> error + int" where
  "regwidth_of tree = (case map_of tree ''regwidth'' of
      Some v \<Rightarrow> py_int v | None \<Rightarrow> Inr 32)"

text \<open>
  A document: the scenario of section 8 of the specification, with two inputs and
  an interrupt name in upper case; and what \<^verbatim>\<open>import_file\<close> returns for it.
\<close>

definition example_tree :: dict where
  "example_tree =
     [(''name'', JStr ''uart''), (''regwidth'', JInt 32),
      (''available_input_list'',
         JList [JDict [(''name'', JStr ''rx''), (''width'', JInt 8)],
                JDict [(''name'', JStr ''cts'')]]),
      (''interrupt_list'',
         JList [JDict [(''name'', JStr ''tx_done''), (''desc'', JStr ''d'')],
                JDict [(''name'', JStr ''RX_Full''), (''desc'', JStr ''d''),
                       (''default'', JInt 1)]]),
      (''registers'',
         JList [JDict [(''name'', JStr ''ctrl''), (''desc'', JStr ''d''),
                       (''swaccess'', JStr ''rw''), (''hwaccess'', JStr ''hro''),
                       (''fields'', JList [JDict [(''name'', JStr ''enable''),
                          (''desc'', JStr ''d''), (''bits'', JStr ''0'')]])]])]"

definition example_map :: addrmap where
  "example_map =
     \<lparr>properties = [], a_type_name = JStr ''uart'',
     a_signals =
     [\<lparr>properties = [(''input'', Doc (JBool True))],
     s_type_name = JStr ''rx'',
     s_inst_name = Given (JStr ''rx'')\<rparr>,
     \<lparr>properties =
     [(''signalwidth'', Doc (JInt 1)),
     (''input'', Doc (JBool True))],
     s_type_name = JStr ''cts'',
     s_inst_name = Given (JStr ''cts'')\<rparr>,
     \<lparr>properties =
     [(''desc'', Doc (JStr ''d'')),
     (''signalwidth'', Doc (JInt 1)),
     (''output'', Doc (JBool True))],
     s_type_name = JStr ''tx_done'',
     s_inst_name = Intr_o (JStr ''tx_done'')\<rparr>,
     \<lparr>properties =
     [(''desc'', Doc (JStr ''d'')),
     (''signalwidth'', Doc (JInt 1)),
     (''output'', Doc (JBool True))],
     s_type_name = JStr ''RX_Full'',
     s_inst_name = Intr_o (JStr ''RX_Full'')\<rparr>],
     a_regs =
     [\<lparr>properties =
     [(''desc'', Doc (JStr ''Interrupt state register.''))],
     r_type_name = ''intr_state'', r_inst_name = ''intr_state'',
     addr_offset = 0, external = False,
     r_children =
     [\<lparr>properties =
     [(''desc'', Doc (JStr ''d'')), (''sw'', Rdl ''rw''),
     (''onwrite'', Rdl ''woclr''), (''hw'', Rdl ''rw''),
     (''we'', Doc (JBool True)),
     (''reset'', Doc (JInt 0))],
     f_type_name = ''tx_done'', f_inst_name = ''tx_done'',
     f_bit_offset = 0, f_bit_width = 1\<rparr>,
     \<lparr>properties =
     [(''desc'', Doc (JStr ''d'')), (''sw'', Rdl ''rw''),
     (''onwrite'', Rdl ''woclr''), (''hw'', Rdl ''rw''),
     (''we'', Doc (JBool True)),
     (''reset'', Doc (JInt 1))],
     f_type_name = ''rx_full'', f_inst_name = ''rx_full'',
     f_bit_offset = 1, f_bit_width = 1\<rparr>]\<rparr>,
     \<lparr>properties =
     [(''desc'', Doc (JStr ''Interrupt enable register.''))],
     r_type_name = ''intr_enable'', r_inst_name = ''intr_enable'',
     addr_offset = 4, external = False,
     r_children =
     [\<lparr>properties =
     [(''desc'', Doc (JStr ''d'')), (''sw'', Rdl ''rw''),
     (''hw'', Rdl ''r''), (''reset'', Doc (JInt 0))],
     f_type_name = ''tx_done'', f_inst_name = ''tx_done'',
     f_bit_offset = 0, f_bit_width = 1\<rparr>,
     \<lparr>properties =
     [(''desc'', Doc (JStr ''d'')), (''sw'', Rdl ''rw''),
     (''hw'', Rdl ''r''), (''reset'', Doc (JInt 0))],
     f_type_name = ''rx_full'', f_inst_name = ''rx_full'',
     f_bit_offset = 1, f_bit_width = 1\<rparr>]\<rparr>,
     \<lparr>properties =
     [(''desc'', Doc (JStr ''Interrupt test register.''))],
     r_type_name = ''intr_test'', r_inst_name = ''intr_test'',
     addr_offset = 8, external = True,
     r_children =
     [\<lparr>properties =
     [(''desc'', Doc (JStr ''d'')), (''sw'', Rdl ''w''),
     (''hw'', Rdl ''r''), (''reset'', Doc (JInt 0))],
     f_type_name = ''tx_done'', f_inst_name = ''tx_done'',
     f_bit_offset = 0, f_bit_width = 1\<rparr>,
     \<lparr>properties =
     [(''desc'', Doc (JStr ''d'')), (''sw'', Rdl ''w''),
     (''hw'', Rdl ''r''), (''reset'', Doc (JInt 0))],
     f_type_name = ''rx_full'', f_inst_name = ''rx_full'',
     f_bit_offset = 1, f_bit_width = 1\<rparr>]\<rparr>,
     \<lparr>properties = [(''desc'', Doc (JStr ''d''))],
     r_type_name = ''ctrl'', r_inst_name = ''ctrl'',
     addr_offset = 12, external = False,
     r_children =
     [\<lparr>properties =
     [(''desc'', Doc (JStr ''d'')), (''sw'', Rdl ''rw''),
     (''hw'', Rdl ''r''), (''reset'', Doc (JInt 0))],
     f_type_name = ''enable'', f_inst_name = ''enable'',
     f_bit_offset = 0, f_bit_width = 1\<rparr>]\<rparr>]\<rparr>"

definition example_map_state :: importer where
  "example_map_state =
     \<lparr>regwidth = Some 32, addroffset = 16,
     warnings =
     [Unsupported_key (Signal (JStr ''RX_Full'')) ''default'']\<rparr>"

text \<open>The interrupt entries of the document and the field entries made from them.\<close>

definition example_intrs :: "jval list" where
  "example_intrs = [JDict [(''name'', JStr ''tx_done''), (''desc'', JStr ''d'')],
                JDict [(''name'', JStr ''RX_Full''), (''desc'', JStr ''d''),
                       (''default'', JInt 1)]]"

definition example_intr_fields :: "jval list \<times> jval list \<times> jval list" where
  "example_intr_fields =
    ([JDict [(''name'', JStr ''tx_done''), (''desc'', JStr ''d''), (''bits'', JStr ''0''),
             (''resval'', JInt 0)],
      JDict [(''name'', JStr ''RX_Full''), (''desc'', JStr ''d''), (''bits'', JStr ''1''),
             (''resval'', JInt 1)]],
     [JDict [(''name'', JStr ''tx_done''), (''desc'', JStr ''d''), (''bits'', JStr ''0'')],
      JDict [(''name'', JStr ''RX_Full''), (''desc'', JStr ''d''), (''bits'', JStr ''1'')]],
     [JDict [(''name'', JStr ''tx_done''), (''desc'', JStr ''d''), (''bits'', JStr ''0'')],
      JDict [(''name'', JStr ''RX_Full''), (''desc'', JStr ''d''), (''bits'', JStr ''1'')]])"

definition example_user_regs :: "jval list" where
  "example_user_regs =
     [JDict [(''name'', JStr ''ctrl''), (''desc'', JStr ''d''),
             (''swaccess'', JStr ''rw''), (''hwaccess'', JStr ''hro''),
             (''fields'', JList [JDict [(''name'', JStr ''enable''),
                (''desc'', JStr ''d''), (''bits'', JStr ''0'')]])]]"


text \<open>
  The field entries that the loop of \<^verbatim>\<open>add_registers\<close> builds for the interrupt
  \<open>cnt\<close>: \<^verbatim>\<open>base_field\<close>, and \<^verbatim>\<open>status_field\<close> with its reset value.
\<close>

definition base_field :: "jval \<Rightarrow> jval \<Rightarrow> nat \<Rightarrow> dict" where
  "base_field intr_name desc cnt =
     [(''name'', intr_name), (''desc'', desc), (''bits'', JStr (str_of_nat cnt))]"

definition status_field :: "jval \<Rightarrow> jval \<Rightarrow> nat \<Rightarrow> jval \<Rightarrow> dict" where
  "status_field intr_name desc cnt resval =
     base_field intr_name desc cnt @ [(''resval'', resval)]"

text \<open>
  The access tokens that \<^verbatim>\<open>add_registers\<close> writes into the entries of
  \<^verbatim>\<open>intr_state\<close>, \<^verbatim>\<open>intr_enable\<close> and \<^verbatim>\<open>intr_test\<close>, in this order.
\<close>

definition intr_swaccess :: "string list" where
  "intr_swaccess = [''rw1c'', ''rw'', ''wo'']"

definition intr_hwaccess :: "string list" where
  "intr_hwaccess = [''hrw'', ''hro'', ''hro'']"

text \<open>
  What the field \<open>F\<close> of the interrupt register \<open>k\<close> (0 state, 1 enable, 2 test)
  is for the \<open>i\<close>-th interrupt entry \<open>x\<close>: a one-bit field at bit \<open>i\<close>, named by
  the lower-cased name of the interrupt, with its description and with the
  properties that the tables give for the tokens of the register. The reset value
  of a state field is the \<^verbatim>\<open>default\<close> of the interrupt as
  \<^verbatim>\<open>hex_or_dec_to_dec\<close> reads it, 0 for the string \<^verbatim>\<open>x\<close> and without a
  \<^verbatim>\<open>default\<close>; that of the other fields is 0.
\<close>

definition interrupt_field :: "env \<Rightarrow> jval \<Rightarrow> nat \<Rightarrow> nat \<Rightarrow> field_inst \<Rightarrow> bool" where
  "interrupt_field E x k i F \<longleftrightarrow>
     (\<exists>d nm desc sw hw. x = JDict d
        \<and> map_of d ''name'' = Some (JStr nm) \<and> map_of d ''desc'' = Some desc
        \<and> f_inst_name F = py_lower nm \<and> f_type_name F = py_lower nm
        \<and> f_bit_offset F = int i \<and> f_bit_width F = 1
        \<and> map_of (properties F) ''desc'' = Some (Doc desc)
        \<and> sw_from_access E (JStr (intr_swaccess ! k)) = Inr sw
        \<and> hw_from_access E (JStr (intr_hwaccess ! k)) = Inr hw
        \<and> map_of (properties F) ''sw'' = Some (fst sw)
        \<and> map_of (properties F) ''onread'' = snd (snd sw)
        \<and> map_of (properties F) ''onwrite'' = fst (snd sw)
        \<and> map_of (properties F) ''hw'' = Some (fst hw)
        \<and> map_of (properties F) ''we'' = snd hw
        \<and> (if k = 0
            then (case map_of d ''default'' of
                    None \<Rightarrow> map_of (properties F) ''reset'' = Some (Doc (JInt 0))
                  | Some v \<Rightarrow>
                      if v = JStr ''x''
                      then map_of (properties F) ''reset'' = Some (Doc (JInt 0))
                      else \<exists>r. hex_or_dec_to_dec v = Inr r
                             \<and> map_of (properties F) ''reset'' = Some (Doc r))
            else map_of (properties F) ''reset'' = Some (Doc (JInt 0))))"





section \<open>Properties\<close>

subsection \<open>Exceptions and strings\<close>

lemma bind_Inl [simp]: "bind (Inl e) f = Inl e"
  by (simp add: bind_def)

lemma bind_Inr [simp]: "bind (Inr x) f = f x"
  by (simp add: bind_def)

lemma bind_eq_Inr: "bind m f = Inr y \<longleftrightarrow> (\<exists>x. m = Inr x \<and> f x = Inr y)"
  by (cases m) simp_all

lemma py_split_no_sep: "c \<notin> set s \<Longrightarrow> py_split c s = [s]"
  by (induction s) auto

lemma py_split_append: "c \<notin> set a \<Longrightarrow> py_split c (a @ c # b) = a # py_split c b"
  by (induction a) auto

lemma py_split_not_Nil: "py_split c s \<noteq> []"
  by (induction s) (auto split: list.splits)

lemma py_split_one: "py_split c s = [a] \<Longrightarrow> s = a \<and> c \<notin> set a"
proof (induction s arbitrary: a)
  case Nil
  then show ?case by simp
next
  case (Cons x xs)
  then show ?case
    by (auto simp: py_split_not_Nil split: if_splits list.splits)
qed

lemma py_split_two:
  "py_split c s = [a, b] \<Longrightarrow> s = a @ c # b \<and> c \<notin> set a \<and> c \<notin> set b"
proof (induction s arbitrary: a)
  case Nil
  then show ?case by simp
next
  case (Cons x xs)
  show ?case
  proof (cases "x = c")
    case True
    with Cons.prems have "a = []" and "py_split c xs = [b]" by auto
    with True py_split_one [of c xs b] show ?thesis by auto
  next
    case False
    with Cons.prems obtain y where y: "py_split c xs = [y, b]" and a: "a = x # y"
      by (auto split: list.splits)
    from Cons.IH [OF y] a False show ?thesis by auto
  qed
qed

lemma dropWhile_Nil_all: "dropWhile P xs = [] \<Longrightarrow> \<forall>x\<in>set xs. P x"
  by (induction xs) (auto split: if_splits)

lemma scan_digits_chars:
  "scan_digits base us acc s = Some (v, rest) \<Longrightarrow>
   \<exists>pre. s = pre @ rest \<and> (\<forall>c\<in>set pre. c = CHR ''_'' \<or> is_digit base c)"
proof (induction base us acc s rule: scan_digits.induct)
  case (1 base us acc)
  then show ?case by (auto split: if_splits)
next
  case (2 base us acc c cs)
  show ?case
  proof (cases "c = CHR ''_''")
    case True
    with "2.prems" have us: "\<not> us" and r: "scan_digits base True acc cs = Some (v, rest)"
      by (auto split: if_splits)
    from "2.IH"(1) [OF True us r] obtain pre where
      "cs = pre @ rest" "\<forall>c\<in>set pre. c = CHR ''_'' \<or> is_digit base c" by blast
    with True show ?thesis by (intro exI [of _ "c # pre"]) simp
  next
    case False
    show ?thesis
    proof (cases "is_digit base c")
      case True
      with False "2.prems" have
        r: "scan_digits base False (acc * int base + int (the (digit_value c))) cs = Some (v, rest)"
        by simp
      from "2.IH"(2) [OF False True r] obtain pre where
        "cs = pre @ rest" "\<forall>c\<in>set pre. c = CHR ''_'' \<or> is_digit base c" by blast
      with True show ?thesis by (intro exI [of _ "c # pre"]) simp
    next
      case nd: False
      with False "2.prems" have "rest = c # cs" by (auto split: if_splits)
      then show ?thesis by (intro exI [of _ "[]"]) simp
    qed
  qed
qed

lemma int_tail_chars:
  assumes "int_tail base sg s = Some n"
  shows "\<forall>c\<in>set s. int_char base c"
proof -
  from assms obtain v rest where sc: "scan_digits base True 0 s = Some (v, rest)"
    and dr: "dropWhile int_space rest = []"
    by (auto simp: int_tail_def split: option.splits if_splits)
  from scan_digits_chars [OF sc] obtain pre where
    "s = pre @ rest" "\<forall>c\<in>set pre. c = CHR ''_'' \<or> is_digit base c" by blast
  with dropWhile_Nil_all [OF dr] show ?thesis by (auto simp: int_char_def)
qed

lemma set_dropWhile_split: "set xs = set (takeWhile P xs) \<union> set (dropWhile P xs)"
  by (metis set_append takeWhile_dropWhile_id)

lemma strip_sign_chars:
  "strip_sign u = (sg, t) \<Longrightarrow> set u \<subseteq> {CHR ''+'', CHR ''-''} \<union> set t"
  by (cases u) (auto simp: strip_sign_def split: if_splits)

lemma int_of_str_chars:
  assumes "int_of_str s = Some n"
  shows "\<forall>c\<in>set s. int_char 10 c"
proof -
  obtain sg t where st: "strip_sign (dropWhile int_space s) = (sg, t)" by force
  with assms have t: "int_tail 10 sg t = Some n" by (simp add: int_of_str_def)
  have "set (dropWhile int_space s) \<subseteq> {CHR ''+'', CHR ''-''} \<union> set t"
    using strip_sign_chars [OF st] .
  with int_tail_chars [OF t] have d: "\<forall>c\<in>set (dropWhile int_space s). int_char 10 c"
    by (auto simp: int_char_def)
  have "\<forall>c\<in>set (takeWhile int_space s). int_char 10 c"
    by (auto simp: int_char_def dest: set_takeWhileD)
  with d show ?thesis
    using set_dropWhile_split [of s int_space] by auto
qed

lemma colon_not_int_char: "\<not> int_char 10 CHR '':''"
  by (simp add: int_char_def int_space_def is_digit_def digit_value_def)

lemma int_of_str_no_colon: "int_of_str s = Some n \<Longrightarrow> CHR '':'' \<notin> set s"
  using int_of_str_chars colon_not_int_char by blast

subsection \<open>What one pass of the loop of \<^verbatim>\<open>add_fields\<close> builds\<close>

lemma assign_property_simps [simp]:
  "properties (assign_property c k v) = properties c @ [(k, v)]"
  "f_type_name (assign_property F k v) = f_type_name F"
  "f_inst_name (assign_property F k v) = f_inst_name F"
  "f_bit_offset (assign_property F k v) = f_bit_offset F"
  "f_bit_width (assign_property F k v) = f_bit_width F"
  "r_type_name (assign_property R k v) = r_type_name R"
  "r_inst_name (assign_property R k v) = r_inst_name R"
  "addr_offset (assign_property R k v) = addr_offset R"
  "external (assign_property R k v) = external R"
  "r_children (assign_property R k v) = r_children R"
  "s_type_name (assign_property S k v) = s_type_name S"
  "s_inst_name (assign_property S k v) = s_inst_name S"
  "a_type_name (assign_property C k v) = a_type_name C"
  "a_signals (assign_property C k v) = a_signals C"
  "a_regs (assign_property C k v) = a_regs C"
  by (simp_all add: assign_property_def)

lemma assign_opt_simps [simp]:
  "properties (assign_opt F k v) = properties F @ opt_prop k v"
  "f_type_name (assign_opt F k v) = f_type_name F"
  "f_inst_name (assign_opt F k v) = f_inst_name F"
  "f_bit_offset (assign_opt F k v) = f_bit_offset F"
  "f_bit_width (assign_opt F k v) = f_bit_width F"
  by (cases v; simp add: assign_opt_def opt_prop_def)+

lemma instantiate_field_simps [simp]:
  "properties (instantiate_field t i bo bw) = []"
  "f_type_name (instantiate_field t i bo bw) = t"
  "f_inst_name (instantiate_field t i bo bw) = i"
  "f_bit_offset (instantiate_field t i bo bw) = bo"
  "f_bit_width (instantiate_field t i bo bw) = bw"
  by (simp_all add: instantiate_field_def)

lemma assign_desc_simps [simp]:
  "properties (assign_desc fd F) =
     properties F @ (case map_of fd ''desc'' of None \<Rightarrow> [] | Some d \<Rightarrow> [(''desc'', Doc d)])"
  "f_type_name (assign_desc fd F) = f_type_name F"
  "f_inst_name (assign_desc fd F) = f_inst_name F"
  "f_bit_offset (assign_desc fd F) = f_bit_offset F"
  "f_bit_width (assign_desc fd F) = f_bit_width F"
  by (cases "map_of fd ''desc''"; simp add: assign_desc_def)+

lemma assign_sw_simps [simp]:
  "properties (assign_sw sw F) =
     properties F @ [(''sw'', fst sw)] @ opt_prop ''onread'' (snd (snd sw))
       @ opt_prop ''onwrite'' (fst (snd sw))"
  "f_type_name (assign_sw sw F) = f_type_name F"
  "f_inst_name (assign_sw sw F) = f_inst_name F"
  "f_bit_offset (assign_sw sw F) = f_bit_offset F"
  "f_bit_width (assign_sw sw F) = f_bit_width F"
  by (simp_all add: assign_sw_def Let_def)

lemma assign_hw_simps [simp]:
  "properties (assign_hw swa hwa hw F) =
     properties F @ [(''hw'', fst hw)]
       @ (if no_storage swa hwa then [] else opt_prop ''we'' (snd hw))"
  "f_type_name (assign_hw swa hwa hw F) = f_type_name F"
  "f_inst_name (assign_hw swa hwa hw F) = f_inst_name F"
  "f_bit_offset (assign_hw swa hwa hw F) = f_bit_offset F"
  "f_bit_width (assign_hw swa hwa hw F) = f_bit_width F"
  by (auto simp: assign_hw_def no_storage_def Let_def)

lemma assign_reset_simps [simp]:
  "properties (assign_reset hwqe rv F) =
     properties F @ [(''reset'', Doc rv)]
       @ (if hwqe = JStr ''true'' then [(''swmod'', Doc (JBool True))] else [])"
  "f_type_name (assign_reset hwqe rv F) = f_type_name F"
  "f_inst_name (assign_reset hwqe rv F) = f_inst_name F"
  "f_bit_offset (assign_reset hwqe rv F) = f_bit_offset F"
  "f_bit_width (assign_reset hwqe rv F) = f_bit_width F"
  by (simp_all add: assign_reset_def Let_def)

lemma assign_enum_Inr:
  assumes "assign_enum fd F0 st = Inr (F, st')"
  shows "f_type_name F = f_type_name F0 \<and> f_inst_name F = f_inst_name F0
    \<and> f_bit_offset F = f_bit_offset F0 \<and> f_bit_width F = f_bit_width F0
    \<and> (if has_key fd ''enum''
        then \<exists>en. parse_enum fd st = Inr (en, st')
               \<and> properties F = properties F0 @ [(''encode'', Encode en)]
        else st' = st \<and> properties F = properties F0)"
  using assms by (auto simp: assign_enum_def bind_eq_Inr split: if_splits)

lemma create_field_Inr:
  assumes "create_field E hwqe dsw dhw rr cnt field st = Inr (F, st')"
  shows "\<exists>fd b bo bw lname sw hw rv st2.
    field = JDict fd
    \<and> getitem fd ''bits'' = Inr b
    \<and> parse_bits b = Inr (bo, bw)
    \<and> lower (field_name_of fd cnt) = Inr lname
    \<and> sw_from_access E (get_or fd ''swaccess'' dsw) = Inr sw
    \<and> hw_from_access E (get_or fd ''hwaccess'' dhw) = Inr hw
    \<and> field_resval fd rr bo bw
         (warn_all unsupported_field_props fd (Field (field_name_of fd cnt)) st) = Inr (rv, st2)
    \<and> assign_enum fd
         (assign_reset hwqe rv
           (assign_hw (get_or fd ''swaccess'' dsw) (get_or fd ''hwaccess'' dhw) hw
             (assign_sw sw (assign_desc fd (instantiate_field lname lname bo bw))))) st2
       = Inr (F, st')"
proof -
  from assms obtain fd where fd: "field = JDict fd"
    by (cases field) (simp_all add: create_field_def as_dict_def)
  have "as_dict (JDict fd) = Inr fd" by (simp add: as_dict_def)
  with assms [unfolded fd create_field_def Let_def bind_eq_Inr] fd
  show ?thesis by fastforce
qed

lemma create_field_sel:
  assumes "create_field E hwqe dsw dhw rr cnt (JDict fd) st = Inr (F, st')"
  shows "\<exists>b lname. getitem fd ''bits'' = Inr b
    \<and> parse_bits b = Inr (f_bit_offset F, f_bit_width F)
    \<and> lower (field_name_of fd cnt) = Inr lname
    \<and> f_type_name F = lname \<and> f_inst_name F = lname"
proof -
  from create_field_Inr [OF assms] obtain b bo bw lname sw hw rv st2 F0 where
    b: "getitem fd ''bits'' = Inr b" "parse_bits b = Inr (bo, bw)"
       "lower (field_name_of fd cnt) = Inr lname"
    and F0: "F0 = assign_reset hwqe rv
           (assign_hw (get_or fd ''swaccess'' dsw) (get_or fd ''hwaccess'' dhw) hw
             (assign_sw sw (assign_desc fd (instantiate_field lname lname bo bw))))"
    and en: "assign_enum fd F0 st2 = Inr (F, st')"
    by auto
  from assign_enum_Inr [OF en] F0 b show ?thesis by simp
qed

lemma create_field_props:
  assumes "create_field E hwqe dsw dhw rr cnt (JDict fd) st = Inr (F, st')"
  shows "\<exists>b sw hw rv st2 enc.
      getitem fd ''bits'' = Inr b
    \<and> sw_from_access E (get_or fd ''swaccess'' dsw) = Inr sw
    \<and> hw_from_access E (get_or fd ''hwaccess'' dhw) = Inr hw
    \<and> field_resval fd rr (f_bit_offset F) (f_bit_width F)
         (warn_all unsupported_field_props fd (Field (field_name_of fd cnt)) st) = Inr (rv, st2)
    \<and> properties F =
         field_props fd hwqe (get_or fd ''swaccess'' dsw) (get_or fd ''hwaccess'' dhw)
           sw hw rv @ enc
    \<and> (if has_key fd ''enum''
        then \<exists>en. parse_enum fd st2 = Inr (en, st') \<and> enc = [(''encode'', Encode en)]
        else st' = st2 \<and> enc = [])"
proof -
  from create_field_Inr [OF assms] obtain b bo bw lname sw hw rv st2 F0 where
    b: "getitem fd ''bits'' = Inr b"
       "sw_from_access E (get_or fd ''swaccess'' dsw) = Inr sw"
       "hw_from_access E (get_or fd ''hwaccess'' dhw) = Inr hw"
       "field_resval fd rr bo bw
         (warn_all unsupported_field_props fd (Field (field_name_of fd cnt)) st) = Inr (rv, st2)"
    and F0: "F0 = assign_reset hwqe rv
           (assign_hw (get_or fd ''swaccess'' dsw) (get_or fd ''hwaccess'' dhw) hw
             (assign_sw sw (assign_desc fd (instantiate_field lname lname bo bw))))"
    and en: "assign_enum fd F0 st2 = Inr (F, st')"
    by auto
  have p: "properties F0 = field_props fd hwqe (get_or fd ''swaccess'' dsw)
      (get_or fd ''hwaccess'' dhw) sw hw rv"
    by (simp add: F0 field_props_def)
  have s: "f_bit_offset F0 = bo" "f_bit_width F0 = bw" by (simp_all add: F0)
  show ?thesis
  proof (cases "has_key fd ''enum''")
    case True
    with assign_enum_Inr [OF en] obtain en where
      "parse_enum fd st2 = Inr (en, st')"
      "properties F = properties F0 @ [(''encode'', Encode en)]"
      "f_bit_offset F = bo" "f_bit_width F = bw"
      using s by auto
    with True p b show ?thesis by auto
  next
    case False
    with assign_enum_Inr [OF en] have
      "st' = st2" "properties F = properties F0 @ []"
      "f_bit_offset F = bo" "f_bit_width F = bw"
      using s by auto
    with False p b show ?thesis by auto
  qed
qed

subsection \<open>Bit ranges\<close>

lemma ints_of_error: "ints_of ps = Inl e \<Longrightarrow> e = ValueError"
  by (induction ps arbitrary: e) (auto simp: bind_def split: option.splits sum.splits)

lemma parse_bits_error:
  "parse_bits v = Inl e \<Longrightarrow> e = ValueError \<or> e = AssertionError \<or> e = AttributeError"
  by (cases v)
    (auto simp: parse_bits_def bind_def dest: ints_of_error split: sum.splits list.splits)

lemma parse_bits_Inr:
  assumes a: "parse_bits v = Inr r"
  shows "(\<exists>hs ls hi lo. v = JStr (hs @ '':'' @ ls) \<and> int_of_str hs = Some hi
            \<and> int_of_str ls = Some lo \<and> r = (lo, hi - lo + 1))
        \<or> (\<exists>s n. v = JStr s \<and> int_of_str s = Some n \<and> r = (n, 1))"
proof -
  from a obtain s where v: "v = JStr s" by (cases v) (simp_all add: parse_bits_def)
  from a v obtain bits where b: "ints_of (py_split CHR '':'' s) = Inr bits"
    and r: "(case bits of [hi, lo] \<Rightarrow> Inr (lo, (hi - lo) + 1) | [n] \<Rightarrow> Inr (n, 1)
             | _ \<Rightarrow> Inl AssertionError) = Inr r"
    by (auto simp: parse_bits_def bind_eq_Inr)
  show ?thesis
  proof (cases "py_split CHR '':'' s")
    case Nil
    with py_split_not_Nil show ?thesis by blast
  next
    case (Cons p ps)
    show ?thesis
    proof (cases ps)
      case Nil
      with Cons b r py_split_one [of "CHR '':''" s p] v show ?thesis
        by (auto simp: bind_eq_Inr split: option.splits)
    next
      case c2: (Cons q qs)
      show ?thesis
      proof (cases qs)
        case Nil
        with Cons c2 py_split_two [of "CHR '':''" s p q] have s: "s = p @ '':'' @ q"
          by simp
        from Nil Cons c2 b obtain hi lo where "int_of_str p = Some hi"
          "int_of_str q = Some lo" "bits = [hi, lo]"
          by (auto simp: bind_eq_Inr split: option.splits)
        with r s v have "v = JStr (p @ '':'' @ q) \<and> int_of_str p = Some hi
            \<and> int_of_str q = Some lo \<and> r = (lo, hi - lo + 1)"
          by simp
        then show ?thesis by blast
      next
        case c3: (Cons q' qs')
        with Cons c2 b r show ?thesis
          by (auto simp: bind_eq_Inr split: option.splits list.splits)
      qed
    qed
  qed
qed

lemma create_field_bits_error:
  "getitem fd ''bits'' = Inr b \<Longrightarrow> parse_bits b = Inl e \<Longrightarrow>
   create_field E hwqe dsw dhw rr cnt (JDict fd) st = Inl e"
  by (simp add: create_field_def as_dict_def Let_def)

text \<open>
  Claim C4. A \<^verbatim>\<open>bits\<close> string \<^verbatim>\<open>"hi:lo"\<close>, where \<^verbatim>\<open>int\<close> reads \<open>hi\<close> and
  \<open>lo\<close>, gives the bit offset \<open>lo\<close> and the bit width \<open>hi - lo + 1\<close>; a string
  that \<^verbatim>\<open>int\<close> reads as \<open>n\<close> gives the offset \<open>n\<close> and the width 1. A value of
  any other form gives no bit range but an exception (\<^verbatim>\<open>ValueError\<close> from
  \<^verbatim>\<open>int\<close>, \<^verbatim>\<open>AssertionError\<close> for three parts or more,
  \<^verbatim>\<open>AttributeError\<close> for a value without \<^verbatim>\<open>split\<close>). The field that the loop
  body of \<^verbatim>\<open>add_fields\<close> instantiates carries that offset and width, and the
  exception ends the loop body.
\<close>

theorem bit_range_forms:
  "(int_of_str hs = Some hi \<and> int_of_str ls = Some lo \<longrightarrow>
      parse_bits (JStr (hs @ '':'' @ ls)) = Inr (lo, hi - lo + 1))
   \<and> (int_of_str s = Some n \<longrightarrow> parse_bits (JStr s) = Inr (n, 1))
   \<and> (parse_bits v = Inr r \<longrightarrow>
        (\<exists>hs ls hi lo. v = JStr (hs @ '':'' @ ls) \<and> int_of_str hs = Some hi
            \<and> int_of_str ls = Some lo \<and> r = (lo, hi - lo + 1))
        \<or> (\<exists>s n. v = JStr s \<and> int_of_str s = Some n \<and> r = (n, 1)))
   \<and> (parse_bits v = Inl e \<longrightarrow>
        e = ValueError \<or> e = AssertionError \<or> e = AttributeError)
   \<and> (create_field E hwqe dsw dhw rr cnt (JDict fd) st = Inr (F, st') \<longrightarrow>
        (\<exists>b. getitem fd ''bits'' = Inr b
           \<and> parse_bits b = Inr (f_bit_offset F, f_bit_width F)))
   \<and> (getitem fd ''bits'' = Inr b \<and> parse_bits b = Inl e \<longrightarrow>
        create_field E hwqe dsw dhw rr cnt (JDict fd) st = Inl e)"
proof (intro conjI impI)
  assume "int_of_str hs = Some hi \<and> int_of_str ls = Some lo"
  then show "parse_bits (JStr (hs @ '':'' @ ls)) = Inr (lo, hi - lo + 1)"
    using int_of_str_no_colon [of hs hi] int_of_str_no_colon [of ls lo]
    by (simp add: parse_bits_def py_split_append py_split_no_sep)
next
  assume "int_of_str s = Some n"
  then show "parse_bits (JStr s) = Inr (n, 1)"
    using int_of_str_no_colon [of s n]
    by (simp add: parse_bits_def py_split_no_sep)
next
  assume "parse_bits v = Inr r"
  then show "(\<exists>hs ls hi lo. v = JStr (hs @ '':'' @ ls) \<and> int_of_str hs = Some hi
            \<and> int_of_str ls = Some lo \<and> r = (lo, hi - lo + 1))
        \<or> (\<exists>s n. v = JStr s \<and> int_of_str s = Some n \<and> r = (n, 1))"
    by (rule parse_bits_Inr)
next
  assume "parse_bits v = Inl e"
  then show "e = ValueError \<or> e = AssertionError \<or> e = AttributeError"
    by (rule parse_bits_error)
next
  assume "create_field E hwqe dsw dhw rr cnt (JDict fd) st = Inr (F, st')"
  from create_field_sel [OF this]
  show "\<exists>b. getitem fd ''bits'' = Inr b
           \<and> parse_bits b = Inr (f_bit_offset F, f_bit_width F)"
    by blast
next
  assume "getitem fd ''bits'' = Inr b \<and> parse_bits b = Inl e"
  then show "create_field E hwqe dsw dhw rr cnt (JDict fd) st = Inl e"
    by (simp add: create_field_bits_error)
qed

theorem bit_range_forms_witness:
  "int_of_str ''7'' = Some 7 \<and> int_of_str ''4'' = Some 4
   \<and> parse_bits (JStr ''7:4'') = Inr (4, 4)
   \<and> int_of_str ''3'' = Some 3 \<and> parse_bits (JStr ''3'') = Inr (3, 1)
   \<and> parse_bits (JStr ''7-4'') = Inl ValueError
   \<and> create_field example_env JNull (JStr ''rw'') (JStr ''hro'') (JInt 0) 0
        (JDict [(''name'', JStr ''MODE''), (''bits'', JStr ''7:4'')])
        \<lparr>regwidth = Some 32, addroffset = 0, warnings = []\<rparr>
      = Inr (\<lparr>properties = [(''sw'', Rdl ''rw''), (''hw'', Rdl ''r''),
                              (''reset'', Doc (JInt 0))],
               f_type_name = ''mode'', f_inst_name = ''mode'',
               f_bit_offset = 4, f_bit_width = 4\<rparr>,
             \<lparr>regwidth = Some 32, addroffset = 0, warnings = []\<rparr>)
   \<and> create_field example_env JNull (JStr ''rw'') (JStr ''hro'') (JInt 0) 0
        (JDict [(''name'', JStr ''MODE''), (''bits'', JStr ''7-4'')])
        \<lparr>regwidth = Some 32, addroffset = 0, warnings = []\<rparr>
      = Inl ValueError"
proof -
  let ?st = "\<lparr>regwidth = Some 32, addroffset = 0, warnings = []\<rparr>"
  let ?F = "\<lparr>properties = [(''sw'', Rdl ''rw''), (''hw'', Rdl ''r''),
                              (''reset'', Doc (JInt 0))],
               f_type_name = ''mode'', f_inst_name = ''mode'',
               f_bit_offset = 4, f_bit_width = 4\<rparr>"
  have h1: "int_of_str ''7'' = Some 7 \<and> int_of_str ''4'' = Some 4" by code_simp
  have h2: "int_of_str ''3'' = Some 3" by code_simp
  have h3: "parse_bits (JStr ''7:4'') = Inr (4, 4)" by code_simp
  have h4: "parse_bits (JStr ''7-4'') = Inl ValueError" by code_simp
  have h5: "create_field example_env JNull (JStr ''rw'') (JStr ''hro'') (JInt 0) 0
        (JDict [(''name'', JStr ''MODE''), (''bits'', JStr ''7:4'')]) ?st = Inr (?F, ?st)"
    by code_simp
  have h6: "getitem [(''name'', JStr ''MODE''), (''bits'', JStr ''7-4'')] ''bits''
      = Inr (JStr ''7-4'') \<and> parse_bits (JStr ''7-4'') = Inl ValueError"
    by code_simp
  note T = bit_range_forms [where hs = "''7''" and hi = 7 and ls = "''4''" and lo = 4
      and s = "''3''" and n = 3 and v = "JStr ''7:4''" and r = "(4, 4)"
      and E = example_env and hwqe = JNull and dsw = "JStr ''rw''" and dhw = "JStr ''hro''"
      and rr = "JInt 0" and cnt = 0
      and fd = "[(''name'', JStr ''MODE''), (''bits'', JStr ''7:4'')]"
      and st = ?st and F = ?F and st' = ?st]
  note U = bit_range_forms [where v = "JStr ''7-4''" and e = ValueError
      and b = "JStr ''7-4''" and E = example_env and hwqe = JNull and dsw = "JStr ''rw''"
      and dhw = "JStr ''hro''" and rr = "JInt 0" and cnt = 0
      and fd = "[(''name'', JStr ''MODE''), (''bits'', JStr ''7-4'')]" and st = ?st]
  from T h1 have c1: "parse_bits (JStr (''7'' @ '':'' @ ''4'')) = Inr (4, 7 - 4 + 1)"
    by blast
  from T h2 have c2: "parse_bits (JStr ''3'') = Inr (3, 1)" by blast
  from U h6 have c6: "create_field example_env JNull (JStr ''rw'') (JStr ''hro'') (JInt 0) 0
        (JDict [(''name'', JStr ''MODE''), (''bits'', JStr ''7-4'')]) ?st = Inl ValueError"
    by blast
  from T h3 h5 U h4 c1 c2 c6 h1 h2 show ?thesis by simp
qed

subsection \<open>The importer attributes, the field loop and \<^verbatim>\<open>create_register\<close>\<close>

lemma same_attrs_refl [simp]: "same_attrs st st"
  by (simp add: same_attrs_def)

lemma same_attrs_trans: "same_attrs a b \<Longrightarrow> same_attrs b c \<Longrightarrow> same_attrs a c"
  by (simp add: same_attrs_def)

lemma same_attrs_warning [simp]: "same_attrs st (warning m st)"
  by (simp add: same_attrs_def warning_def)

lemma same_attrs_warn_unsupported [simp]: "same_attrs st (warn_unsupported k d sc st)"
  by (simp add: warn_unsupported_def)

lemma same_attrs_fold_warn:
  "same_attrs st (fold (\<lambda>prop. warn_unsupported prop d sc) props st)"
proof (induction props arbitrary: st)
  case Nil
  show ?case by simp
next
  case (Cons p ps)
  have "same_attrs st (warn_unsupported p d sc st)" by simp
  from this Cons [of "warn_unsupported p d sc st"]
  have "same_attrs st (fold (\<lambda>prop. warn_unsupported prop d sc) ps (warn_unsupported p d sc st))"
    by (rule same_attrs_trans)
  then show ?case by simp
qed

lemma same_attrs_warn_all [simp]: "same_attrs st (warn_all props d sc st)"
  by (simp add: warn_all_def same_attrs_fold_warn)

lemma for_each_invariant:
  assumes "for_each f xs s = Inr s'" and "P s"
    and "\<And>x a b. x \<in> set xs \<Longrightarrow> P a \<Longrightarrow> f x a = Inr b \<Longrightarrow> P b"
  shows "P s'"
  using assms
proof (induction xs arbitrary: s)
  case Nil
  then show ?case by simp
next
  case (Cons x xs)
  from Cons.prems(1) obtain m where m: "f x s = Inr m" and r: "for_each f xs m = Inr s'"
    by (auto simp: bind_eq_Inr)
  have "P m" using Cons.prems(2,3) m by auto
  with Cons.IH [OF r] Cons.prems(3) show ?case by auto
qed

lemma enum_member_of_attrs:
  assumes "enum_member_of e ms = Inr ms'"
  shows "same_attrs (snd ms) (snd ms')"
  using assms
  by (auto simp: enum_member_of_def bind_eq_Inr Let_def)

lemma parse_enum_attrs:
  assumes "parse_enum fd st = Inr (en, st')"
  shows "same_attrs st st'"
proof -
  from assms obtain enums ms where
    fe: "for_each enum_member_of enums ([], st) = Inr ms" and st': "st' = snd ms"
    by (auto simp: parse_enum_def bind_eq_Inr)
  have "same_attrs st (snd ms)"
    by (rule for_each_invariant [OF fe, where P = "\<lambda>m. same_attrs st (snd m)"])
      (auto dest: enum_member_of_attrs intro: same_attrs_trans)
  with st' show ?thesis by simp
qed

lemma field_resval_attrs:
  assumes "field_resval fd rr bo bw st = Inr (rv, st')"
  shows "same_attrs st st'"
  using assms
  by (auto simp: field_resval_def bind_eq_Inr split: option.splits if_splits)

lemma assign_enum_attrs:
  assumes "assign_enum fd F0 st = Inr (F, st')"
  shows "same_attrs st st'"
  using assms
  by (auto simp: assign_enum_def bind_eq_Inr dest: parse_enum_attrs split: if_splits)

lemma create_field_attrs:
  assumes "create_field E hwqe dsw dhw rr cnt field st = Inr (F, st')"
  shows "same_attrs st st'"
proof -
  from create_field_Inr [OF assms] obtain fd bo bw rv st2 F0 where
    r: "field_resval fd rr bo bw
         (warn_all unsupported_field_props fd (Field (field_name_of fd cnt)) st) = Inr (rv, st2)"
    and e: "assign_enum fd F0 st2 = Inr (F, st')"
    by blast
  have "same_attrs st (warn_all unsupported_field_props fd (Field (field_name_of fd cnt)) st)"
    by simp
  with field_resval_attrs [OF r] assign_enum_attrs [OF e] show ?thesis
    by (blast intro: same_attrs_trans)
qed

lemma add_fields_loop:
  assumes "for_each (add_field E hwqe dsw dhw rr) (enumerate n fs) (R, st) = Inr (R', st')"
  shows "same_reg R R' \<and> same_attrs st st'
    \<and> (\<exists>Fs. r_children R' = r_children R @ Fs \<and> length Fs = length fs
          \<and> (\<forall>i<length fs. \<exists>a b.
                create_field E hwqe dsw dhw rr (n + i) (fs ! i) a = Inr (Fs ! i, b)))"
  using assms
proof (induction fs arbitrary: n R st)
  case Nil
  then show ?case by (simp add: same_reg_def)
next
  case (Cons f fs)
  from Cons.prems obtain s1 where
    af: "add_field E hwqe dsw dhw rr (n, f) (R, st) = Inr s1"
    and r1: "for_each (add_field E hwqe dsw dhw rr) (enumerate (Suc n) fs) s1 = Inr (R', st')"
    by (auto simp: bind_eq_Inr)
  from af obtain F m where
    cf: "create_field E hwqe dsw dhw rr n f st = Inr (F, m)"
    and s1: "s1 = (add_field_child R F, m)"
    by (auto simp: bind_eq_Inr add_field_def)
  from r1 s1 have r: "for_each (add_field E hwqe dsw dhw rr) (enumerate (Suc n) fs)
             (add_field_child R F, m) = Inr (R', st')"
    by simp
  from Cons.IH [OF r] obtain Fs where
    sr: "same_reg (add_field_child R F) R'" and sa: "same_attrs m st'"
    and ch: "r_children R' = r_children (add_field_child R F) @ Fs"
    and len: "length Fs = length fs"
    and each: "\<forall>i<length fs. \<exists>a b.
                create_field E hwqe dsw dhw rr (Suc n + i) (fs ! i) a = Inr (Fs ! i, b)"
    by blast
  have 1: "same_reg R R'" using sr by (simp add: same_reg_def add_field_child_def)
  have 2: "same_attrs st st'" using create_field_attrs [OF cf] sa
    by (blast intro: same_attrs_trans)
  have 3: "r_children R' = r_children R @ (F # Fs)" using ch
    by (simp add: add_field_child_def)
  have 4: "\<forall>i<length (f # fs). \<exists>a b.
      create_field E hwqe dsw dhw rr (n + i) ((f # fs) ! i) a = Inr ((F # Fs) ! i, b)"
  proof (intro allI impI)
    fix i assume i: "i < length (f # fs)"
    show "\<exists>a b. create_field E hwqe dsw dhw rr (n + i) ((f # fs) ! i) a
        = Inr ((F # Fs) ! i, b)"
    proof (cases i)
      case 0
      with cf show ?thesis by auto
    next
      case (Suc j)
      with i each show ?thesis by auto
    qed
  qed
  from 1 2 3 4 len show ?case by (intro conjI exI [of _ "F # Fs"]) simp_all
qed

lemma create_register_Inr:
  assumes "create_register E reg st = Inr (R, st')"
  shows "\<exists>rd name lname w desc l fs rr.
      reg = JDict rd
    \<and> getitem rd ''name'' = Inr name \<and> lower name = Inr lname
    \<and> r_type_name R = lname \<and> r_inst_name R = lname
    \<and> regwidth st = Some w \<and> regwidth st' = Some w
    \<and> addr_offset R = addroffset st
    \<and> addroffset st' = addroffset st + w div 8
    \<and> getitem rd ''desc'' = Inr desc \<and> properties R = [(''desc'', Doc desc)]
    \<and> external R = (get_or_none rd ''hwext'' = JStr ''true'')
    \<and> reg_resval rd = Inr rr
    \<and> getitem rd ''fields'' = Inr l \<and> py_iter l = Inr fs
    \<and> length (r_children R) = length fs
    \<and> (\<forall>i<length fs. \<exists>a b.
          create_field E (get_or_none rd ''hwqe'') (get_or_none rd ''swaccess'')
            (get_or_none rd ''hwaccess'') rr i (fs ! i) a = Inr (r_children R ! i, b))"
proof -
  from assms obtain rd where rd: "reg = JDict rd"
    by (cases reg) (simp_all add: create_register_def as_dict_def)
  let ?st1 = "\<lambda>name. warn_all unsupported_reg_props rd (Register name) st"
  have ad: "as_dict (JDict rd) = Inr rd" by (simp add: as_dict_def)
  from assms [unfolded rd create_register_def Let_def bind_eq_Inr ad]
  obtain name lname w desc rr where
    n: "getitem rd ''name'' = Inr name" and ln: "lower name = Inr lname"
    and w: "(case regwidth (?st1 name) of None \<Rightarrow> Inl TypeError | Some w \<Rightarrow> Inr w) = Inr w"
    and d: "getitem rd ''desc'' = Inr desc"
    and rr: "reg_resval rd = Inr rr"
    and af: "add_fields E
       (if get_or_none rd ''hwext'' = JStr ''true''
        then (assign_property \<lparr>properties = [], r_type_name = lname, r_inst_name = lname,
               addr_offset = addroffset (?st1 name), external = False, r_children = []\<rparr>
               ''desc'' (Doc desc))\<lparr>external := True\<rparr>
        else assign_property \<lparr>properties = [], r_type_name = lname, r_inst_name = lname,
               addr_offset = addroffset (?st1 name), external = False, r_children = []\<rparr>
               ''desc'' (Doc desc))
       rd (get_or_none rd ''swaccess'') (get_or_none rd ''hwaccess'') rr
       ((?st1 name)\<lparr>addroffset := addroffset (?st1 name) + w div 8\<rparr>) = Inr (R, st')"
    unfolding reg_resval_def by auto
  let ?R2 = "if get_or_none rd ''hwext'' = JStr ''true''
        then (assign_property \<lparr>properties = [], r_type_name = lname, r_inst_name = lname,
               addr_offset = addroffset (?st1 name), external = False, r_children = []\<rparr>
               ''desc'' (Doc desc))\<lparr>external := True\<rparr>
        else assign_property \<lparr>properties = [], r_type_name = lname, r_inst_name = lname,
               addr_offset = addroffset (?st1 name), external = False, r_children = []\<rparr>
               ''desc'' (Doc desc)"
  let ?st2 = "(?st1 name)\<lparr>addroffset := addroffset (?st1 name) + w div 8\<rparr>"
  have sa: "same_attrs st (?st1 name)" by simp
  from w sa have rw: "regwidth st = Some w"
    by (auto simp: same_attrs_def split: option.splits)
  from af obtain l fs where l: "getitem rd ''fields'' = Inr l" and fs: "py_iter l = Inr fs"
    and loop: "for_each (add_field E (get_or_none rd ''hwqe'') (get_or_none rd ''swaccess'')
        (get_or_none rd ''hwaccess'') rr) (enumerate 0 fs) (?R2, ?st2) = Inr (R, st')"
    by (auto simp: add_fields_def Let_def bind_eq_Inr)
  from add_fields_loop [OF loop] obtain Fs where
    sr: "same_reg ?R2 R" and sa2: "same_attrs ?st2 st'"
    and ch: "r_children R = r_children ?R2 @ Fs" and len: "length Fs = length fs"
    and each: "\<forall>i<length fs. \<exists>a b.
          create_field E (get_or_none rd ''hwqe'') (get_or_none rd ''swaccess'')
            (get_or_none rd ''hwaccess'') rr (0 + i) (fs ! i) a = Inr (Fs ! i, b)"
    by blast
  have R2: "r_type_name ?R2 = lname" "r_inst_name ?R2 = lname"
    "addr_offset ?R2 = addroffset st" "properties ?R2 = [(''desc'', Doc desc)]"
    "external ?R2 = (get_or_none rd ''hwext'' = JStr ''true'')" "r_children ?R2 = []"
    using sa by (simp_all add: same_attrs_def)
  from sr R2 have R: "r_type_name R = lname" "r_inst_name R = lname"
    "addr_offset R = addroffset st" "properties R = [(''desc'', Doc desc)]"
    "external R = (get_or_none rd ''hwext'' = JStr ''true'')"
    unfolding same_reg_def by metis+
  from ch R2 have ch': "r_children R = Fs" by simp
  from sa2 sa rw have st': "regwidth st' = Some w" "addroffset st' = addroffset st + w div 8"
    by (simp_all add: same_attrs_def)
  from each ch' have each': "\<forall>i<length fs. \<exists>a b.
          create_field E (get_or_none rd ''hwqe'') (get_or_none rd ''swaccess'')
            (get_or_none rd ''hwaccess'') rr i (fs ! i) a = Inr (r_children R ! i, b)"
    by simp
  from rd n ln R rw st' d rr l fs len ch' each' show ?thesis by simp
qed

subsection \<open>Write enable and inherited reset value\<close>

lemma map_of_field_props:
  "map_of (field_props fd hwqe swa hwa sw hw rv) ''we''
     = (if no_storage swa hwa then None else snd hw)"
  "map_of (field_props fd hwqe swa hwa sw hw rv) ''reset'' = Some (Doc rv)"
  "map_of (field_props fd hwqe swa hwa sw hw rv) ''desc'' = map_option Doc (map_of fd ''desc'')"
  "map_of (field_props fd hwqe swa hwa sw hw rv) ''sw'' = Some (fst sw)"
  "map_of (field_props fd hwqe swa hwa sw hw rv) ''hw'' = Some (fst hw)"
  "map_of (field_props fd hwqe swa hwa sw hw rv) ''onread'' = snd (snd sw)"
  "map_of (field_props fd hwqe swa hwa sw hw rv) ''onwrite'' = fst (snd sw)"
  "map_of (field_props fd hwqe swa hwa sw hw rv) ''encode'' = None"
  by (simp_all add: field_props_def opt_prop_def map_add_def split: option.splits)

lemma map_of_append_other:
  "set (map fst ys) \<subseteq> {k'} \<Longrightarrow> k \<noteq> k' \<Longrightarrow> map_of (xs @ ys) k = map_of xs k"
  by (cases "map_of ys k"; cases "map_of xs k") (auto simp: map_add_def dest!: map_of_SomeD)

lemma create_field_map_of:
  assumes "create_field E hwqe dsw dhw rr cnt (JDict fd) st = Inr (F, st')"
  shows "\<exists>sw hw rv st2.
      sw_from_access E (get_or fd ''swaccess'' dsw) = Inr sw
    \<and> hw_from_access E (get_or fd ''hwaccess'' dhw) = Inr hw
    \<and> field_resval fd rr (f_bit_offset F) (f_bit_width F)
         (warn_all unsupported_field_props fd (Field (field_name_of fd cnt)) st) = Inr (rv, st2)
    \<and> (\<forall>k. k \<noteq> ''encode'' \<longrightarrow> map_of (properties F) k
          = map_of (field_props fd hwqe (get_or fd ''swaccess'' dsw)
              (get_or fd ''hwaccess'' dhw) sw hw rv) k)
    \<and> (if has_key fd ''enum''
        then \<exists>en. parse_enum fd st2 = Inr (en, st')
               \<and> map_of (properties F) ''encode'' = Some (Encode en)
        else st' = st2 \<and> map_of (properties F) ''encode'' = None)"
proof -
  from create_field_props [OF assms] obtain sw hw rv st2 enc where
    sw: "sw_from_access E (get_or fd ''swaccess'' dsw) = Inr sw"
    and hw: "hw_from_access E (get_or fd ''hwaccess'' dhw) = Inr hw"
    and rv: "field_resval fd rr (f_bit_offset F) (f_bit_width F)
         (warn_all unsupported_field_props fd (Field (field_name_of fd cnt)) st) = Inr (rv, st2)"
    and p: "properties F = field_props fd hwqe (get_or fd ''swaccess'' dsw)
              (get_or fd ''hwaccess'' dhw) sw hw rv @ enc"
    and e: "if has_key fd ''enum''
        then \<exists>en. parse_enum fd st2 = Inr (en, st') \<and> enc = [(''encode'', Encode en)]
        else st' = st2 \<and> enc = []"
    by blast
  let ?fp = "field_props fd hwqe (get_or fd ''swaccess'' dsw) (get_or fd ''hwaccess'' dhw) sw hw rv"
  from e have sub: "set (map fst enc) \<subseteq> {''encode''}" by (auto split: if_splits)
  have 1: "\<forall>k. k \<noteq> ''encode'' \<longrightarrow> map_of (properties F) k = map_of ?fp k"
    unfolding p using map_of_append_other [OF sub] by blast
  have 2: "if has_key fd ''enum''
        then \<exists>en. parse_enum fd st2 = Inr (en, st')
               \<and> map_of (properties F) ''encode'' = Some (Encode en)
        else st' = st2 \<and> map_of (properties F) ''encode'' = None"
    using e unfolding p
    by (auto simp: map_of_field_props map_add_def split: if_splits)
  from sw hw rv 1 2 show ?thesis by blast
qed

lemma create_register_field:
  assumes "create_register E (JDict rd) st = Inr (R, st')"
    and "getitem rd ''fields'' = Inr l" and "py_iter l = Inr fs" and "i < length fs"
  shows "\<exists>rr a b. reg_resval rd = Inr rr
    \<and> create_field E (get_or_none rd ''hwqe'') (get_or_none rd ''swaccess'')
         (get_or_none rd ''hwaccess'') rr i (fs ! i) a = Inr (r_children R ! i, b)"
  using create_register_Inr [OF assms(1)] assms(2-4) by auto

text \<open>
  Claim C6. For the field that \<^verbatim>\<open>create_register\<close> builds from the \<open>i\<close>-th
  entry of \<^verbatim>\<open>fields\<close>, with the software and hardware access tokens taken from
  the field entry and else from the register: the property \<^verbatim>\<open>we\<close> is not assigned
  when the software token is \<^verbatim>\<open>ro\<close> and the hardware token is \<^verbatim>\<open>hwo\<close> or
  \<^verbatim>\<open>hro\<close>, whatever \<^verbatim>\<open>hw_from_access\<close> returns for it; for every other pair
  of tokens it is assigned exactly when \<^verbatim>\<open>hw_from_access\<close> returns a write enable,
  and with that value.
\<close>

theorem write_enable_rule:
  assumes "create_register E (JDict rd) st = Inr (R, st')"
    and "getitem rd ''fields'' = Inr l" and "py_iter l = Inr fs"
    and "i < length fs" and "fs ! i = JDict fd"
  shows "\<exists>hw we.
      hw_from_access E (get_or fd ''hwaccess'' (get_or_none rd ''hwaccess'')) = Inr (hw, we)
    \<and> map_of (properties (r_children R ! i)) ''we''
        = (if get_or fd ''swaccess'' (get_or_none rd ''swaccess'') = JStr ''ro''
              \<and> (get_or fd ''hwaccess'' (get_or_none rd ''hwaccess'') = JStr ''hwo''
                  \<or> get_or fd ''hwaccess'' (get_or_none rd ''hwaccess'') = JStr ''hro'')
           then None else we)"
proof -
  from create_register_field [OF assms(1-4)] assms(5) obtain rr a b where
    "create_field E (get_or_none rd ''hwqe'') (get_or_none rd ''swaccess'')
         (get_or_none rd ''hwaccess'') rr i (JDict fd) a = Inr (r_children R ! i, b)"
    by auto
  from create_field_map_of [OF this] obtain hw where
    hw: "hw_from_access E (get_or fd ''hwaccess'' (get_or_none rd ''hwaccess'')) = Inr hw"
    and we: "map_of (properties (r_children R ! i)) ''we''
       = (if no_storage (get_or fd ''swaccess'' (get_or_none rd ''swaccess''))
               (get_or fd ''hwaccess'' (get_or_none rd ''hwaccess''))
          then None else snd hw)"
    by (auto simp: map_of_field_props)
  from hw we show ?thesis
    by (cases hw) (auto simp: no_storage_def)
qed

lemma shift_mask: "drop_bit n (r AND push_bit n m) = drop_bit n r AND (m::int)"
  by (simp add: bit_eq_iff bit_simps)

lemma inherit_resval_Inr:
  assumes "inherit_resval rr bo bw = Inr v"
  shows "\<exists>r. int_of_jval rr = Some r \<and> 0 \<le> bo \<and> 0 \<le> bw
    \<and> v = JInt (drop_bit (nat bo) r AND (push_bit (nat bw) 1 - 1))"
  using assms
  by (cases rr) (auto simp: inherit_resval_def int_of_jval_def drop_bit_push_bit
      split: if_splits)

text \<open>
  Claim C5. For a field entry without the key \<^verbatim>\<open>resval\<close>, the property
  \<^verbatim>\<open>reset\<close> of the field is \<open>(r >> bit_offset) & ((1 << bit_width) - 1)\<close>, where
  \<open>r\<close> is the reset value of the register that owns it, 0 when the register has
  none; offset and width are not negative there.
\<close>

theorem field_reset_inherited:
  assumes "create_register E (JDict rd) st = Inr (R, st')"
    and "getitem rd ''fields'' = Inr l" and "py_iter l = Inr fs"
    and "i < length fs" and "fs ! i = JDict fd"
    and "map_of fd ''resval'' = None"
  shows "\<exists>rr r. reg_resval rd = Inr rr \<and> int_of_jval rr = Some r
    \<and> (map_of rd ''resval'' = None \<longrightarrow> r = 0)
    \<and> 0 \<le> f_bit_offset (r_children R ! i) \<and> 0 \<le> f_bit_width (r_children R ! i)
    \<and> map_of (properties (r_children R ! i)) ''reset''
        = Some (Doc (JInt (drop_bit (nat (f_bit_offset (r_children R ! i))) r
                           AND (push_bit (nat (f_bit_width (r_children R ! i))) 1 - 1))))"
proof -
  let ?F = "r_children R ! i"
  from create_register_field [OF assms(1-4)] assms(5) obtain rr a b where
    rr: "reg_resval rd = Inr rr"
    and cf: "create_field E (get_or_none rd ''hwqe'') (get_or_none rd ''swaccess'')
         (get_or_none rd ''hwaccess'') rr i (JDict fd) a = Inr (?F, b)"
    by auto
  from create_field_map_of [OF cf] obtain rv st2 where
    fr: "field_resval fd rr (f_bit_offset ?F) (f_bit_width ?F)
         (warn_all unsupported_field_props fd (Field (field_name_of fd i)) a) = Inr (rv, st2)"
    and rs: "map_of (properties ?F) ''reset'' = Some (Doc rv)"
    by (auto simp: map_of_field_props)
  from fr assms(6) have "inherit_resval rr (f_bit_offset ?F) (f_bit_width ?F) = Inr rv"
    by (auto simp: field_resval_def bind_eq_Inr)
  from inherit_resval_Inr [OF this] obtain r where
    r: "int_of_jval rr = Some r" "0 \<le> f_bit_offset ?F" "0 \<le> f_bit_width ?F"
       "rv = JInt (drop_bit (nat (f_bit_offset ?F)) r AND (push_bit (nat (f_bit_width ?F)) 1 - 1))"
    by blast
  have "map_of rd ''resval'' = None \<longrightarrow> r = 0"
    using rr r(1) by (auto simp: reg_resval_def int_of_jval_def)
  with rr r rs show ?thesis by (intro exI [of _ rr] exI [of _ r]) simp
qed

lemma example_reg_run:
  "create_register example_env (JDict example_reg) example_state
     = Inr (example_reg_inst, example_state_after)"
  by code_simp

lemma example_reg_fields:
  "getitem example_reg ''fields'' = Inr (JList example_fields)"
  "py_iter (JList example_fields) = Inr example_fields"
  "example_fields ! 0 = JDict [(''bits'', JStr ''7:4'')]"
  "example_fields ! 1 =
     JDict [(''name'', JStr ''EN''), (''bits'', JStr ''0''), (''swaccess'', JStr ''rw''),
            (''hwaccess'', JStr ''hrw''), (''resval'', JStr ''x''),
            (''enum'', JList [JDict [(''name'', JStr ''0_ERR''), (''value'', JInt 0),
                                     (''desc'', JStr ''d'')]])]"
  "length example_fields = 2"
  by code_simp+

theorem write_enable_rule_witness:
  "create_register example_env (JDict example_reg) example_state
     = Inr (example_reg_inst, example_state_after)
   \<and> hw_from_access example_env (JStr ''hwo'') = Inr (Rdl ''w'', Some (Doc (JBool True)))
   \<and> map_of (properties (r_children example_reg_inst ! 0)) ''we'' = None
   \<and> hw_from_access example_env (JStr ''hrw'') = Inr (Rdl ''rw'', Some (Doc (JBool True)))
   \<and> map_of (properties (r_children example_reg_inst ! 1)) ''we'' = Some (Doc (JBool True))"
proof -
  have i0: "0 < length example_fields" and i1: "1 < length example_fields"
    by (simp_all add: example_reg_fields)
  note T0 = write_enable_rule [OF example_reg_run example_reg_fields(1,2) i0
      example_reg_fields(3)]
  note T1 = write_enable_rule [OF example_reg_run example_reg_fields(1,2) i1
      example_reg_fields(4)]
  have e0: "get_or [(''bits'', JStr ''7:4'')] ''swaccess'' (get_or_none example_reg ''swaccess'')
      = JStr ''ro''"
    "get_or [(''bits'', JStr ''7:4'')] ''hwaccess'' (get_or_none example_reg ''hwaccess'')
      = JStr ''hwo''"
    by code_simp+
  have e1: "get_or [(''name'', JStr ''EN''), (''bits'', JStr ''0''), (''swaccess'', JStr ''rw''),
            (''hwaccess'', JStr ''hrw''), (''resval'', JStr ''x''),
            (''enum'', JList [JDict [(''name'', JStr ''0_ERR''), (''value'', JInt 0),
                                     (''desc'', JStr ''d'')]])] ''swaccess''
         (get_or_none example_reg ''swaccess'') = JStr ''rw''"
    "get_or [(''name'', JStr ''EN''), (''bits'', JStr ''0''), (''swaccess'', JStr ''rw''),
            (''hwaccess'', JStr ''hrw''), (''resval'', JStr ''x''),
            (''enum'', JList [JDict [(''name'', JStr ''0_ERR''), (''value'', JInt 0),
                                     (''desc'', JStr ''d'')]])] ''hwaccess''
         (get_or_none example_reg ''hwaccess'') = JStr ''hrw''"
    by code_simp+
  have h0: "hw_from_access example_env (JStr ''hwo'') = Inr (Rdl ''w'', Some (Doc (JBool True)))"
    and h1: "hw_from_access example_env (JStr ''hrw'') = Inr (Rdl ''rw'', Some (Doc (JBool True)))"
    by code_simp+
  from T0 have w0: "map_of (properties (r_children example_reg_inst ! 0)) ''we'' = None"
    unfolding e0 by auto
  from T1 have w1: "map_of (properties (r_children example_reg_inst ! 1)) ''we''
      = Some (Doc (JBool True))"
    unfolding e1 h1 by auto
  from example_reg_run h0 h1 w0 w1 show ?thesis by simp
qed

theorem field_reset_inherited_witness:
  "create_register example_env (JDict example_reg) example_state
     = Inr (example_reg_inst, example_state_after)
   \<and> reg_resval example_reg = Inr (JInt 165)
   \<and> f_bit_offset (r_children example_reg_inst ! 0) = 4
   \<and> f_bit_width (r_children example_reg_inst ! 0) = 4
   \<and> map_of (properties (r_children example_reg_inst ! 0)) ''reset''
       = Some (Doc (JInt (drop_bit 4 165 AND (push_bit 4 1 - 1))))
   \<and> drop_bit 4 165 AND (push_bit 4 1 - 1) = (10 :: int)"
proof -
  have i0: "0 < length example_fields" by (simp add: example_reg_fields)
  have nr: "map_of [(''bits'', JStr ''7:4'')] ''resval'' = None" by simp
  note T = field_reset_inherited [OF example_reg_run example_reg_fields(1,2) i0
      example_reg_fields(3) nr]
  have rr: "reg_resval example_reg = Inr (JInt 165)" by code_simp
  have bits: "f_bit_offset (r_children example_reg_inst ! 0) = 4"
    "f_bit_width (r_children example_reg_inst ! 0) = 4"
    by code_simp+
  from T rr have "map_of (properties (r_children example_reg_inst ! 0)) ''reset''
       = Some (Doc (JInt (drop_bit 4 165 AND (push_bit 4 1 - 1))))"
    unfolding bits by (auto simp: int_of_jval_def)
  moreover have "drop_bit 4 165 AND (push_bit 4 1 - 1) = (10 :: int)" by code_simp
  ultimately show ?thesis using example_reg_run rr bits by simp
qed

subsection \<open>Names\<close>

lemma lower_char_not_upper: "\<not> py_isupper (lower_char c)"
proof (cases "py_isupper c")
  case True
  then have "(of_char c :: nat) + 32 < 256" by (auto simp: py_isupper_def Let_def)
  then have "(of_char (char_of ((of_char c :: nat) + 32)) :: nat) = of_char c + 32"
    by simp
  with True show ?thesis by (auto simp: lower_char_def py_isupper_def Let_def)
next
  case False
  then show ?thesis by (simp add: lower_char_def)
qed

lemma py_lower_no_upper: "\<forall>c\<in>set (py_lower s). \<not> py_isupper c"
  by (auto simp: py_lower_def lower_char_not_upper)

lemma lower_Inr: "lower v = Inr l \<Longrightarrow> \<exists>s. v = JStr s \<and> l = py_lower s"
  by (cases v) (auto simp: lower_def)

lemma suffix_e_no_upper: "\<forall>c\<in>set ''_e''. \<not> py_isupper c"
  by (simp add: py_isupper_def)

lemma parse_enum_name:
  assumes "parse_enum fd st = Inr (en, st')"
  shows "\<exists>s. map_of fd ''name'' = Some (JStr s) \<and> e_name en = py_lower s @ ''_e''"
proof -
  from assms [unfolded parse_enum_def bind_eq_Inr] obtain name lname ms where
    n: "getitem fd ''name'' = Inr name" and l: "lower name = Inr lname"
    and e: "en = \<lparr>e_name = lname @ ''_e'', e_members = ms\<rparr>"
    by auto
  from lower_Inr [OF l] obtain s where s: "name = JStr s" "lname = py_lower s" by blast
  from n s have "map_of fd ''name'' = Some (JStr s)"
    by (cases "map_of fd ''name''") (simp_all add: getitem_def)
  with e s show ?thesis by simp
qed

lemma create_field_names:
  assumes "create_field E hwqe dsw dhw rr cnt (JDict fd) st = Inr (F, st')"
  shows "\<exists>nm. (map_of fd ''name'' = Some (JStr nm)
                \<or> map_of fd ''name'' = None \<and> nm = ''val'' @ str_of_nat cnt)
    \<and> f_inst_name F = py_lower nm \<and> f_type_name F = py_lower nm
    \<and> (has_key fd ''enum'' \<longrightarrow>
         (\<exists>en. map_of (properties F) ''encode'' = Some (Encode en)
            \<and> e_name en = py_lower nm @ ''_e''))"
proof -
  from create_field_sel [OF assms] obtain lname where
    l: "lower (field_name_of fd cnt) = Inr lname"
    and f: "f_type_name F = lname" "f_inst_name F = lname"
    by blast
  from lower_Inr [OF l] obtain nm where nm: "field_name_of fd cnt = JStr nm"
    and ln: "lname = py_lower nm" by blast
  from nm have c: "map_of fd ''name'' = Some (JStr nm)
                \<or> map_of fd ''name'' = None \<and> nm = ''val'' @ str_of_nat cnt"
    by (auto simp: field_name_of_def split: option.splits)
  have en: "has_key fd ''enum'' \<longrightarrow>
         (\<exists>en. map_of (properties F) ''encode'' = Some (Encode en)
            \<and> e_name en = py_lower nm @ ''_e'')"
  proof
    assume hk: "has_key fd ''enum''"
    from create_field_map_of [OF assms] obtain st2 where
      "if has_key fd ''enum''
        then \<exists>en. parse_enum fd st2 = Inr (en, st')
               \<and> map_of (properties F) ''encode'' = Some (Encode en)
        else st' = st2 \<and> map_of (properties F) ''encode'' = None"
      by blast
    with hk obtain en where
      pe: "parse_enum fd st2 = Inr (en, st')"
      and enc: "map_of (properties F) ''encode'' = Some (Encode en)"
      by auto
    from parse_enum_name [OF pe] obtain s where
      "map_of fd ''name'' = Some (JStr s)" "e_name en = py_lower s @ ''_e''" by blast
    with nm have "e_name en = py_lower nm @ ''_e''"
      by (simp add: field_name_of_def)
    with enc show "\<exists>en. map_of (properties F) ''encode'' = Some (Encode en)
            \<and> e_name en = py_lower nm @ ''_e''"
      by blast
  qed
  from c f ln en show ?thesis by (intro exI [of _ nm]) simp
qed

text \<open>
  Claim C10. The register that \<^verbatim>\<open>create_register\<close> returns has the lower-cased
  declared name as its type and instance name. Each of its fields has the
  lower-cased name of its entry, or \<^verbatim>\<open>val<i>\<close> for the \<open>i\<close>-th entry when it
  has no name, as type and instance name; the enumeration of a field entry with the
  key \<^verbatim>\<open>enum\<close> is named by the lower-cased field name followed by \<^verbatim>\<open>_e\<close>. None
  of these names contains an upper-case character.
\<close>

theorem names_lowercased:
  assumes "create_register E (JDict rd) st = Inr (R, st')"
    and "getitem rd ''fields'' = Inr l" and "py_iter l = Inr fs"
  shows "(\<exists>nm. map_of rd ''name'' = Some (JStr nm)
            \<and> r_inst_name R = py_lower nm \<and> r_type_name R = py_lower nm
            \<and> (\<forall>c\<in>set (r_inst_name R). \<not> py_isupper c))
    \<and> (\<forall>i<length fs. \<exists>fd nm. fs ! i = JDict fd
          \<and> (map_of fd ''name'' = Some (JStr nm)
               \<or> map_of fd ''name'' = None \<and> nm = ''val'' @ str_of_nat i)
          \<and> f_inst_name (r_children R ! i) = py_lower nm
          \<and> f_type_name (r_children R ! i) = py_lower nm
          \<and> (\<forall>c\<in>set (f_inst_name (r_children R ! i)). \<not> py_isupper c)
          \<and> (has_key fd ''enum'' \<longrightarrow>
               (\<exists>en. map_of (properties (r_children R ! i)) ''encode'' = Some (Encode en)
                  \<and> e_name en = py_lower nm @ ''_e''
                  \<and> (\<forall>c\<in>set (e_name en). \<not> py_isupper c))))"
proof (intro conjI allI impI)
  from create_register_Inr [OF assms(1)] obtain name lname where
    n: "getitem rd ''name'' = Inr name" and l: "lower name = Inr lname"
    and r: "r_type_name R = lname" "r_inst_name R = lname"
    by blast
  from lower_Inr [OF l] obtain nm where nm: "name = JStr nm" "lname = py_lower nm" by blast
  from n nm have "map_of rd ''name'' = Some (JStr nm)"
    by (cases "map_of rd ''name''") (simp_all add: getitem_def)
  with r nm py_lower_no_upper [of nm]
  show "\<exists>nm. map_of rd ''name'' = Some (JStr nm)
            \<and> r_inst_name R = py_lower nm \<and> r_type_name R = py_lower nm
            \<and> (\<forall>c\<in>set (r_inst_name R). \<not> py_isupper c)"
    by (intro exI [of _ nm]) simp
next
  fix i assume i: "i < length fs"
  let ?F = "r_children R ! i"
  from create_register_field [OF assms i] obtain rr a b where
    cf: "create_field E (get_or_none rd ''hwqe'') (get_or_none rd ''swaccess'')
         (get_or_none rd ''hwaccess'') rr i (fs ! i) a = Inr (?F, b)"
    by blast
  from create_field_Inr [OF cf] obtain fd where fd: "fs ! i = JDict fd" by blast
  from create_field_names [OF cf [unfolded fd]] obtain nm where
    nm: "map_of fd ''name'' = Some (JStr nm)
          \<or> map_of fd ''name'' = None \<and> nm = ''val'' @ str_of_nat i"
    and f: "f_inst_name ?F = py_lower nm" "f_type_name ?F = py_lower nm"
    and en: "has_key fd ''enum'' \<longrightarrow>
         (\<exists>en. map_of (properties ?F) ''encode'' = Some (Encode en)
            \<and> e_name en = py_lower nm @ ''_e'')"
    by blast
  have u: "\<forall>c\<in>set (py_lower nm @ ''_e''). \<not> py_isupper c"
    using py_lower_no_upper [of nm] suffix_e_no_upper by auto
  from en u have en': "has_key fd ''enum'' \<longrightarrow>
         (\<exists>en. map_of (properties ?F) ''encode'' = Some (Encode en)
            \<and> e_name en = py_lower nm @ ''_e''
            \<and> (\<forall>c\<in>set (e_name en). \<not> py_isupper c))"
    by auto
  from fd nm f en' py_lower_no_upper [of nm]
  show "\<exists>fd nm. fs ! i = JDict fd
          \<and> (map_of fd ''name'' = Some (JStr nm)
               \<or> map_of fd ''name'' = None \<and> nm = ''val'' @ str_of_nat i)
          \<and> f_inst_name ?F = py_lower nm
          \<and> f_type_name ?F = py_lower nm
          \<and> (\<forall>c\<in>set (f_inst_name ?F). \<not> py_isupper c)
          \<and> (has_key fd ''enum'' \<longrightarrow>
               (\<exists>en. map_of (properties ?F) ''encode'' = Some (Encode en)
                  \<and> e_name en = py_lower nm @ ''_e''
                  \<and> (\<forall>c\<in>set (e_name en). \<not> py_isupper c)))"
    by (intro exI [of _ fd] exI [of _ nm]) simp
qed

theorem names_lowercased_witness:
  "create_register example_env (JDict example_reg) example_state
     = Inr (example_reg_inst, example_state_after)
   \<and> map_of example_reg ''name'' = Some (JStr ''CTRL'')
   \<and> r_inst_name example_reg_inst = ''ctrl'' \<and> r_type_name example_reg_inst = ''ctrl''
   \<and> f_inst_name (r_children example_reg_inst ! 0) = ''val0''
   \<and> f_inst_name (r_children example_reg_inst ! 1) = ''en''
   \<and> map_of (properties (r_children example_reg_inst ! 1)) ''encode''
       = Some (Encode \<lparr>e_name = ''en_e'', e_members =
           [\<lparr>m_name = ''_0_err'', m_value = 0, m_desc = JStr ''d''\<rparr>]\<rparr>)
   \<and> list_all (\<lambda>c. \<not> py_isupper c) (r_inst_name example_reg_inst)
   \<and> list_all (\<lambda>c. \<not> py_isupper c) (f_inst_name (r_children example_reg_inst ! 0))
   \<and> list_all (\<lambda>c. \<not> py_isupper c) (f_inst_name (r_children example_reg_inst ! 1))"
proof -
  note T = names_lowercased [OF example_reg_run example_reg_fields(1,2)]
  have v: "map_of example_reg ''name'' = Some (JStr ''CTRL'')"
    "r_inst_name example_reg_inst = ''ctrl''" "r_type_name example_reg_inst = ''ctrl''"
    "f_inst_name (r_children example_reg_inst ! 0) = ''val0''"
    "f_inst_name (r_children example_reg_inst ! 1) = ''en''"
    "map_of (properties (r_children example_reg_inst ! 1)) ''encode''
       = Some (Encode \<lparr>e_name = ''en_e'', e_members =
           [\<lparr>m_name = ''_0_err'', m_value = 0, m_desc = JStr ''d''\<rparr>]\<rparr>)"
    by code_simp+
  have len: "0 < length example_fields" "1 < length example_fields"
    by (simp_all add: example_fields_def)
  from T have r: "\<forall>c\<in>set (r_inst_name example_reg_inst). \<not> py_isupper c"
    and f: "\<forall>i<length example_fields.
        \<forall>c\<in>set (f_inst_name (r_children example_reg_inst ! i)). \<not> py_isupper c"
    by blast+
  from r have "list_all (\<lambda>c. \<not> py_isupper c) (r_inst_name example_reg_inst)"
    by (simp add: list_all_iff)
  moreover from f len
  have "list_all (\<lambda>c. \<not> py_isupper c) (f_inst_name (r_children example_reg_inst ! 0))"
    "list_all (\<lambda>c. \<not> py_isupper c) (f_inst_name (r_children example_reg_inst ! 1))"
    unfolding list_all_iff by blast+
  ultimately show ?thesis using example_reg_run v by simp
qed

subsection \<open>Reset values and the name of the document\<close>

lemma is_digit_plain:
  assumes "is_digit base c"
  shows "c \<noteq> CHR ''_''" "c \<noteq> CHR ''+''" "c \<noteq> CHR ''-''" "\<not> int_space c"
  using assms
  by (auto simp: is_digit_def digit_value_def int_space_def Let_def split: if_splits)

lemma scan_digits_all:
  assumes "\<forall>c\<in>set ds. is_digit base c" and "ds \<noteq> [] \<or> \<not> us"
  shows "scan_digits base us acc ds
    = Some (foldl (\<lambda>a c. a * int base + int (the (digit_value c))) acc ds, [])"
  using assms
proof (induction ds arbitrary: us acc)
  case Nil
  then show ?case by simp
next
  case (Cons c cs)
  then have c: "is_digit base c" "c \<noteq> CHR ''_''" by (auto dest: is_digit_plain)
  from Cons.prems have "\<forall>c\<in>set cs. is_digit base c" by simp
  from Cons.IH [OF this, of False] c show ?case by simp
qed

lemma int_tail_digits:
  assumes "\<forall>c\<in>set ds. is_digit base c" and "ds \<noteq> []"
  shows "int_tail base sg ds = Some (sg * digits_value base ds)"
  using scan_digits_all [OF assms(1), of True 0] assms(2)
  by (simp add: int_tail_def digits_value_def)

lemma digits_head:
  assumes "\<forall>c\<in>set ds. is_digit base c" and "ds \<noteq> []"
  shows "dropWhile int_space ds = ds" "strip_sign ds = (1, ds)"
proof -
  from assms obtain c cs where ds: "ds = c # cs" by (cases ds) auto
  with assms have c: "is_digit base c" by simp
  from is_digit_plain [OF c] ds show "dropWhile int_space ds = ds" "strip_sign ds = (1, ds)"
    by (simp_all add: strip_sign_def)
qed

lemma int_of_str_digits:
  assumes "\<forall>c\<in>set ds. is_digit 10 c" and "ds \<noteq> []"
  shows "int_of_str ds = Some (digits_value 10 ds)"
  using digits_head [OF assms] int_tail_digits [OF assms, of 1]
  by (simp add: int_of_str_def)

lemma x_not_decimal: "\<not> is_digit 10 CHR ''x''"
  by (simp add: is_digit_def digit_value_def)

lemma decimal_not_0x:
  assumes "\<forall>c\<in>set ds. is_digit 10 c"
  shows "take 2 ds \<noteq> ''0x''"
proof
  assume t: "take 2 ds = ''0x''"
  then have "CHR ''x'' \<in> set (take 2 ds)" by simp
  then have "CHR ''x'' \<in> set ds" by (rule in_set_takeD)
  with assms x_not_decimal show False by blast
qed

lemma int_of_str16_0x:
  assumes "\<forall>c\<in>set hs. is_digit 16 c" and "hs \<noteq> []"
  shows "int_of_str16 (''0x'' @ hs) = Some (digits_value 16 hs)"
proof -
  from assms obtain c cs where hs: "hs = c # cs" by (cases hs) auto
  with assms have "is_digit 16 c" by simp
  from is_digit_plain(1) [OF this] hs have s: "strip_0x (''0x'' @ hs) = hs"
    by (simp add: strip_0x_def)
  have d: "dropWhile int_space (''0x'' @ hs) = ''0x'' @ hs"
    by (simp add: int_space_def)
  have g: "strip_sign (''0x'' @ hs) = (1, ''0x'' @ hs)"
    by (simp add: strip_sign_def)
  show ?thesis
    unfolding int_of_str16_def d g using s int_tail_digits [OF assms, of 1] by simp
qed

lemma grows_refl [simp]: "grows st st"
  by (simp add: grows_def)

lemma grows_trans: "grows a b \<Longrightarrow> grows b c \<Longrightarrow> grows a c"
  by (auto simp: grows_def)

lemma grows_warning [simp]: "grows st (warning m st)"
  by (auto simp: grows_def warning_def)

lemma enum_member_of_grows:
  assumes "enum_member_of e ms = Inr ms'"
  shows "grows (snd ms) (snd ms')"
  using assms [unfolded enum_member_of_def Let_def bind_eq_Inr]
  by (auto split: if_splits)

lemma parse_enum_grows:
  assumes "parse_enum fd st = Inr (en, st')"
  shows "grows st st'"
proof -
  from assms [unfolded parse_enum_def bind_eq_Inr] obtain enums ms where
    fe: "for_each enum_member_of enums ([], st) = Inr ms" and st': "st' = snd ms"
    by auto
  have "grows st (snd ms)"
    by (rule for_each_invariant [OF fe, where P = "\<lambda>m. grows st (snd m)"])
      (auto dest: enum_member_of_grows intro: grows_trans)
  with st' show ?thesis by simp
qed

lemma field_resval_x:
  "map_of fd ''resval'' = Some (JStr ''x'') \<Longrightarrow>
   field_resval fd rr bo bw st = Inr (JInt 0, warning (Unsupported_resval (JStr ''x'')) st)"
  by (simp add: field_resval_def hex_or_dec_to_dec_def)

lemma field_resval_given:
  assumes "field_resval fd rr bo bw st = Inr (rv, st2)" and "map_of fd ''resval'' = Some v"
  shows "if v = JStr ''x''
         then rv = JInt 0 \<and> Unsupported_resval (JStr ''x'') \<in> set (warnings st2)
         else hex_or_dec_to_dec v = Inr rv"
proof (cases "v = JStr ''x''")
  case True
  with assms field_resval_x [of fd rr bo bw st] show ?thesis
    by (auto simp: warning_def)
next
  case False
  with assms show ?thesis by (simp add: field_resval_def bind_eq_Inr)
qed

lemma create_field_resval_given:
  assumes cf: "create_field E hwqe dsw dhw rr cnt (JDict fd) st = Inr (F, st')"
    and v: "map_of fd ''resval'' = Some v"
  shows "if v = JStr ''x''
         then map_of (properties F) ''reset'' = Some (Doc (JInt 0))
              \<and> Unsupported_resval (JStr ''x'') \<in> set (warnings st')
         else \<exists>r. hex_or_dec_to_dec v = Inr r \<and> map_of (properties F) ''reset'' = Some (Doc r)"
proof -
  from create_field_map_of [OF cf] obtain sw hw rv st2 where
    fr: "field_resval fd rr (f_bit_offset F) (f_bit_width F)
         (warn_all unsupported_field_props fd (Field (field_name_of fd cnt)) st) = Inr (rv, st2)"
    and k: "\<forall>k. k \<noteq> ''encode'' \<longrightarrow> map_of (properties F) k
          = map_of (field_props fd hwqe (get_or fd ''swaccess'' dsw)
              (get_or fd ''hwaccess'' dhw) sw hw rv) k"
    and e: "if has_key fd ''enum''
        then \<exists>en. parse_enum fd st2 = Inr (en, st')
               \<and> map_of (properties F) ''encode'' = Some (Encode en)
        else st' = st2 \<and> map_of (properties F) ''encode'' = None"
    by blast
  from k have rs: "map_of (properties F) ''reset'' = Some (Doc rv)"
    by (simp add: map_of_field_props)
  from e have g: "grows st2 st'"
    by (cases "has_key fd ''enum''") (auto dest: parse_enum_grows)
  from field_resval_given [OF fr v] rs g show ?thesis
    by (cases "v = JStr ''x''") (auto simp: grows_def)
qed

text \<open>
  Claim C9, as amended. \<^verbatim>\<open>hex_or_dec_to_dec\<close>, which reads the reset value of a
  register and of a field, takes a string of decimal digits and a string of
  hexadecimal digits after \<^verbatim>\<open>0x\<close> to the number they denote and an integer to
  itself. A register is translated only if its \<^verbatim>\<open>resval\<close>, when present, is read
  that way. For a field entry whose \<^verbatim>\<open>resval\<close> is the string \<^verbatim>\<open>x\<close>, the reset
  value is computed without an exception, the property \<^verbatim>\<open>reset\<close> is 0 and a
  warning is recorded; for any other \<^verbatim>\<open>resval\<close> of a field the property
  \<^verbatim>\<open>reset\<close> is what \<^verbatim>\<open>hex_or_dec_to_dec\<close> returns.
\<close>

theorem reset_value_parsing:
  "(ds \<noteq> [] \<and> (\<forall>c\<in>set ds. is_digit 10 c) \<longrightarrow>
      hex_or_dec_to_dec (JStr ds) = Inr (JInt (digits_value 10 ds)))
   \<and> (hs \<noteq> [] \<and> (\<forall>c\<in>set hs. is_digit 16 c) \<longrightarrow>
      hex_or_dec_to_dec (JStr (''0x'' @ hs)) = Inr (JInt (digits_value 16 hs)))
   \<and> hex_or_dec_to_dec (JInt n) = Inr (JInt n)
   \<and> (create_register E (JDict rd) st = Inr (R, st') \<and> map_of rd ''resval'' = Some v \<longrightarrow>
        (\<exists>r. hex_or_dec_to_dec v = Inr r \<and> reg_resval rd = Inr r))
   \<and> (map_of fd ''resval'' = Some (JStr ''x'') \<longrightarrow>
        field_resval fd rr bo bw st
          = Inr (JInt 0, warning (Unsupported_resval (JStr ''x'')) st))
   \<and> (create_field E hwqe dsw dhw rr cnt (JDict fd) st = Inr (F, sf)
        \<and> map_of fd ''resval'' = Some w \<longrightarrow>
        (if w = JStr ''x''
         then map_of (properties F) ''reset'' = Some (Doc (JInt 0))
              \<and> Unsupported_resval (JStr ''x'') \<in> set (warnings sf)
         else \<exists>r. hex_or_dec_to_dec w = Inr r
                \<and> map_of (properties F) ''reset'' = Some (Doc r)))"
proof (intro conjI impI)
  assume a: "ds \<noteq> [] \<and> (\<forall>c\<in>set ds. is_digit 10 c)"
  then have "take 2 ds \<noteq> ''0x''" by (simp add: decimal_not_0x)
  with a int_of_str_digits [of ds]
  show "hex_or_dec_to_dec (JStr ds) = Inr (JInt (digits_value 10 ds))"
    by (simp add: hex_or_dec_to_dec_def)
next
  assume a: "hs \<noteq> [] \<and> (\<forall>c\<in>set hs. is_digit 16 c)"
  with int_of_str16_0x [of hs]
  show "hex_or_dec_to_dec (JStr (''0x'' @ hs)) = Inr (JInt (digits_value 16 hs))"
    by (simp add: hex_or_dec_to_dec_def)
next
  show "hex_or_dec_to_dec (JInt n) = Inr (JInt n)"
    by (simp add: hex_or_dec_to_dec_def)
next
  assume a: "create_register E (JDict rd) st = Inr (R, st') \<and> map_of rd ''resval'' = Some v"
  from create_register_Inr [OF a [THEN conjunct1]] obtain r where "reg_resval rd = Inr r"
    by blast
  with a show "\<exists>r. hex_or_dec_to_dec v = Inr r \<and> reg_resval rd = Inr r"
    by (simp add: reg_resval_def)
next
  assume "map_of fd ''resval'' = Some (JStr ''x'')"
  then show "field_resval fd rr bo bw st
          = Inr (JInt 0, warning (Unsupported_resval (JStr ''x'')) st)"
    by (rule field_resval_x)
next
  assume a: "create_field E hwqe dsw dhw rr cnt (JDict fd) st = Inr (F, sf)
        \<and> map_of fd ''resval'' = Some w"
  from create_field_resval_given [OF a [THEN conjunct1] a [THEN conjunct2]]
  show "if w = JStr ''x''
         then map_of (properties F) ''reset'' = Some (Doc (JInt 0))
              \<and> Unsupported_resval (JStr ''x'') \<in> set (warnings sf)
         else \<exists>r. hex_or_dec_to_dec w = Inr r
                \<and> map_of (properties F) ''reset'' = Some (Doc r)" .
qed

text \<open>
  Claim C9 as stated fails at the register level: a register entry whose
  \<^verbatim>\<open>resval\<close> is the string \<^verbatim>\<open>x\<close> ends \<^verbatim>\<open>create_register\<close> with the
  \<^verbatim>\<open>ValueError\<close> of \<^verbatim>\<open>int\<close>; only the loop of \<^verbatim>\<open>add_fields\<close> tests for it.
\<close>

theorem register_resval_x_counterexample:
  "hex_or_dec_to_dec (JStr ''x'') = Inl ValueError
   \<and> create_register example_env
        (JDict [(''name'', JStr ''CTRL''), (''desc'', JStr ''d''), (''resval'', JStr ''x''),
                (''fields'', JList [])])
        example_state = Inl ValueError"
  by code_simp

theorem reset_value_parsing_witness:
  "hex_or_dec_to_dec (JStr ''165'') = Inr (JInt 165)
   \<and> hex_or_dec_to_dec (JStr ''0xA5'') = Inr (JInt 165)
   \<and> hex_or_dec_to_dec (JInt 7) = Inr (JInt 7)
   \<and> map_of example_reg ''resval'' = Some (JStr ''0xA5'')
   \<and> reg_resval example_reg = Inr (JInt 165)
   \<and> field_resval [(''bits'', JStr ''0''), (''resval'', JStr ''x'')] (JInt 165) 0 1 example_state
       = Inr (JInt 0, warning (Unsupported_resval (JStr ''x'')) example_state)
   \<and> map_of (properties (r_children example_reg_inst ! 1)) ''reset'' = Some (Doc (JInt 0))
   \<and> Unsupported_resval (JStr ''x'') \<in> set (warnings example_state_after)"
proof -
  let ?fd = "[(''name'', JStr ''EN''), (''bits'', JStr ''0''), (''swaccess'', JStr ''rw''),
            (''hwaccess'', JStr ''hrw''), (''resval'', JStr ''x''),
            (''enum'', JList [JDict [(''name'', JStr ''0_ERR''), (''value'', JInt 0),
                                     (''desc'', JStr ''d'')]])]"
  let ?st = "\<lparr>regwidth = Some 32, addroffset = 12, warnings = []\<rparr>"
  have d: "''165'' \<noteq> [] \<and> (\<forall>c\<in>set ''165''. is_digit 10 c)" by code_simp
  have h: "''A5'' \<noteq> [] \<and> (\<forall>c\<in>set ''A5''. is_digit 16 c)" by code_simp
  have dv: "digits_value 10 ''165'' = 165" "digits_value 16 ''A5'' = 165" by code_simp+
  have rv: "map_of example_reg ''resval'' = Some (JStr ''0xA5'')" by code_simp
  have fx: "map_of [(''bits'', JStr ''0''), (''resval'', JStr ''x'')] ''resval''
      = Some (JStr ''x'')" by simp
  have cf: "create_field example_env JNull (JStr ''ro'') (JStr ''hwo'') (JInt 165) 1
      (JDict ?fd) ?st = Inr (r_children example_reg_inst ! 1, example_state_after)"
    by code_simp
  have fv: "map_of ?fd ''resval'' = Some (JStr ''x'')" by simp
  note A = reset_value_parsing [where ds = "''165''" and hs = "''A5''" and n = 7
      and E = example_env and rd = example_reg and st = example_state
      and R = example_reg_inst and st' = example_state_after and v = "JStr ''0xA5''"
      and fd = "[(''bits'', JStr ''0''), (''resval'', JStr ''x'')]"
      and rr = "JInt 165" and bo = 0 and bw = 1]
  note B = reset_value_parsing [where E = example_env and hwqe = JNull
      and dsw = "JStr ''ro''" and dhw = "JStr ''hwo''" and rr = "JInt 165" and cnt = 1
      and fd = ?fd and st = ?st and F = "r_children example_reg_inst ! 1"
      and sf = example_state_after and w = "JStr ''x''"]
  from A d dv have 1: "hex_or_dec_to_dec (JStr ''165'') = Inr (JInt 165)" by simp
  from A h dv have 2: "hex_or_dec_to_dec (JStr ''0xA5'') = Inr (JInt 165)" by simp
  from A have 3: "hex_or_dec_to_dec (JInt 7) = Inr (JInt 7)" by simp
  from A example_reg_run rv 2 have 4: "reg_resval example_reg = Inr (JInt 165)" by auto
  from A fx have 5: "field_resval [(''bits'', JStr ''0''), (''resval'', JStr ''x'')]
      (JInt 165) 0 1 example_state
       = Inr (JInt 0, warning (Unsupported_resval (JStr ''x'')) example_state)"
    by simp
  from B cf fv have 6: "map_of (properties (r_children example_reg_inst ! 1)) ''reset''
      = Some (Doc (JInt 0))
   \<and> Unsupported_resval (JStr ''x'') \<in> set (warnings example_state_after)"
    by simp
  from 1 2 3 rv 4 5 6 show ?thesis by simp
qed

text \<open>
  Claim C7. A document without the key \<^verbatim>\<open>name\<close> ends \<^verbatim>\<open>import_ip\<close> with the
  \<^verbatim>\<open>KeyError\<close> of the subscript \<^verbatim>\<open>tree['name']\<close>, before the test that calls
  \<^verbatim>\<open>self.msg.fatal\<close>; a document whose \<^verbatim>\<open>name\<close> is empty (or any other false
  value) ends it with the \<^verbatim>\<open>RDLCompileError\<close> of \<^verbatim>\<open>self.msg.fatal\<close>. Neither
  returns a component.
\<close>

theorem name_missing_or_empty:
  "(map_of tree ''name'' = None \<longrightarrow>
      import_file E (JDict tree) = Inl (KeyError (JStr ''name'')))
   \<and> (map_of tree ''name'' = Some name \<and> \<not> py_truthy name \<longrightarrow>
      import_file E (JDict tree) = Inl RDLCompileError)"
  by (simp add: import_file_def import_ip_def as_dict_def getitem_def Let_def)

theorem name_missing_or_empty_witness:
  "map_of ([] :: dict) ''name'' = None
   \<and> import_file example_env (JDict []) = Inl (KeyError (JStr ''name''))
   \<and> map_of [(''name'', JStr [])] ''name'' = Some (JStr [])
   \<and> \<not> py_truthy (JStr [])
   \<and> import_file example_env (JDict [(''name'', JStr [])]) = Inl RDLCompileError"
proof -
  have a: "map_of ([] :: dict) ''name'' = None" by simp
  have b: "map_of [(''name'', JStr [])] ''name'' = Some (JStr []) \<and> \<not> py_truthy (JStr [])"
    by (simp add: py_truthy_def)
  note A = name_missing_or_empty [where tree = "[]" and E = example_env]
  note B = name_missing_or_empty [where tree = "[(''name'', JStr [])]" and E = example_env
      and name = "JStr []"]
  from A a have 1: "import_file example_env (JDict []) = Inl (KeyError (JStr ''name''))"
    by simp
  from B b have 2: "import_file example_env (JDict [(''name'', JStr [])]) = Inl RDLCompileError"
    by simp
  from a b 1 2 show ?thesis by simp
qed

subsection \<open>The loop over the registers\<close>

lemma same_signals_refl [simp]: "same_signals C C"
  by (simp add: same_signals_def)

lemma add_register_Inr:
  assumes "add_register E reg (C, st) = Inr s1"
  shows "\<exists>R m. create_register E reg st = Inr (R, m) \<and> s1 = (add_child C R, m)"
  using assms [unfolded add_register_def bind_eq_Inr] by auto

lemma add_register_loop:
  assumes "for_each (add_register E) regs (C, st) = Inr (C', st')" and "regwidth st = Some w"
  shows "same_signals C C' \<and> regwidth st' = Some w
    \<and> addroffset st' = addroffset st + int (length regs) * (w div 8)
    \<and> (\<exists>Rs. a_regs C' = a_regs C @ Rs \<and> length Rs = length regs
          \<and> (\<forall>k<length regs. addr_offset (Rs ! k) = addroffset st + int k * (w div 8)
                \<and> (\<exists>a b. create_register E (regs ! k) a = Inr (Rs ! k, b))))"
  using assms
proof (induction regs arbitrary: C st)
  case Nil
  then show ?case by simp
next
  case (Cons r rs)
  from Cons.prems(1) obtain s1 where
    ar: "add_register E r (C, st) = Inr s1"
    and r1: "for_each (add_register E) rs s1 = Inr (C', st')"
    by (auto simp: bind_eq_Inr)
  from add_register_Inr [OF ar] obtain R m where
    cr: "create_register E r st = Inr (R, m)" and s1: "s1 = (add_child C R, m)"
    by blast
  from create_register_Inr [OF cr] Cons.prems(2) have
    m: "regwidth m = Some w" "addroffset m = addroffset st + w div 8"
    and R: "addr_offset R = addroffset st"
    by auto
  from r1 s1 have "for_each (add_register E) rs (add_child C R, m) = Inr (C', st')" by simp
  from Cons.IH [OF this m(1)] obtain Rs where
    ss: "same_signals (add_child C R) C'" and rw: "regwidth st' = Some w"
    and ao: "addroffset st' = addroffset m + int (length rs) * (w div 8)"
    and ch: "a_regs C' = a_regs (add_child C R) @ Rs" and len: "length Rs = length rs"
    and each: "\<forall>k<length rs. addr_offset (Rs ! k) = addroffset m + int k * (w div 8)
                \<and> (\<exists>a b. create_register E (rs ! k) a = Inr (Rs ! k, b))"
    by blast
  have 1: "same_signals C C'" using ss by (simp add: same_signals_def add_child_def)
  have 2: "addroffset st' = addroffset st + int (length (r # rs)) * (w div 8)"
    using ao m(2) by (simp add: algebra_simps)
  have 3: "a_regs C' = a_regs C @ (R # Rs)" using ch by (simp add: add_child_def)
  have 4: "\<forall>k<length (r # rs).
      addr_offset ((R # Rs) ! k) = addroffset st + int k * (w div 8)
      \<and> (\<exists>a b. create_register E ((r # rs) ! k) a = Inr ((R # Rs) ! k, b))"
  proof (intro allI impI)
    fix k assume k: "k < length (r # rs)"
    show "addr_offset ((R # Rs) ! k) = addroffset st + int k * (w div 8)
      \<and> (\<exists>a b. create_register E ((r # rs) ! k) a = Inr ((R # Rs) ! k, b))"
    proof (cases k)
      case 0
      with R cr show ?thesis by auto
    next
      case (Suc j)
      with k have j: "j < length rs" by simp
      from each [rule_format, OF j] m(2) Suc show ?thesis
        by (simp add: algebra_simps)
    qed
  qed
  from 1 rw 2 3 4 len show ?case by (intro conjI exI [of _ "R # Rs"]) simp_all
qed

lemma add_registers_Inr:
  assumes "add_registers E C tree st = Inr (C', st')" and "regwidth st = Some w"
  shows "\<exists>il n intrs fs l uregs Rs.
      getitem tree ''interrupt_list'' = Inr il \<and> py_len il = Inr n \<and> n \<le> 32
    \<and> py_iter il = Inr intrs
    \<and> for_each intr_fields (enumerate 0 intrs) ([], [], []) = Inr fs
    \<and> getitem tree ''registers'' = Inr l \<and> py_iter l = Inr uregs
    \<and> same_signals C C'
    \<and> a_regs C' = a_regs C @ Rs \<and> length Rs = 3 + length uregs
    \<and> (\<forall>k<3 + length uregs. addr_offset (Rs ! k) = addroffset st + int k * (w div 8))
    \<and> (\<forall>k<3. \<exists>a b. create_register E (intr_regs fs ! k) a = Inr (Rs ! k, b))
    \<and> (\<forall>j<length uregs. \<exists>a b. create_register E (uregs ! j) a = Inr (Rs ! (3 + j), b))"
proof -
  from assms(1) obtain il n where
    il: "getitem tree ''interrupt_list'' = Inr il" and n: "py_len il = Inr n"
    and rest: "(if \<not> n \<le> 32 then bind (getitem tree ''name'') (\<lambda>_. Inl AssertionError)
       else bind (py_iter il) (\<lambda>intrs.
         bind (for_each intr_fields (enumerate 0 intrs) ([], [], [])) (\<lambda>fs.
         bind (for_each (add_register E) (intr_regs fs) (C, st)) (\<lambda>ns.
         bind (getitem tree ''registers'') (\<lambda>l.
         bind (py_iter l) (\<lambda>regs. for_each (add_register E) regs ns))))))
       = Inr (C', st')"
    unfolding add_registers_def Let_def intr_regs_def bind_eq_Inr by blast
  have n32: "n \<le> 32"
  proof (rule ccontr)
    assume "\<not> n \<le> 32"
    with rest show False by (simp add: bind_eq_Inr)
  qed
  with rest obtain intrs fs ns l uregs where
    it: "py_iter il = Inr intrs"
    and fs: "for_each intr_fields (enumerate 0 intrs) ([], [], []) = Inr fs"
    and l1: "for_each (add_register E) (intr_regs fs) (C, st) = Inr ns"
    and l: "getitem tree ''registers'' = Inr l" and u: "py_iter l = Inr uregs"
    and l2: "for_each (add_register E) uregs ns = Inr (C', st')"
    by (auto simp: bind_eq_Inr)
  obtain C1 st1 where ns: "ns = (C1, st1)" by (cases ns)
  have len3: "length (intr_regs fs) = 3" by (simp add: intr_regs_def)
  from add_register_loop [OF l1 [unfolded ns] assms(2)] len3 obtain R1 where
    a1: "same_signals C C1" "regwidth st1 = Some w"
      "addroffset st1 = addroffset st + 3 * (w div 8)"
      "a_regs C1 = a_regs C @ R1" "length R1 = 3"
    and e1: "\<forall>k<3. addr_offset (R1 ! k) = addroffset st + int k * (w div 8)
                \<and> (\<exists>a b. create_register E (intr_regs fs ! k) a = Inr (R1 ! k, b))"
    by auto
  from add_register_loop [OF l2 [unfolded ns] a1(2)] obtain R2 where
    a2: "same_signals C1 C'" "a_regs C' = a_regs C1 @ R2" "length R2 = length uregs"
    and e2: "\<forall>k<length uregs. addr_offset (R2 ! k) = addroffset st1 + int k * (w div 8)
                \<and> (\<exists>a b. create_register E (uregs ! k) a = Inr (R2 ! k, b))"
    by blast
  have 1: "same_signals C C'" using a1(1) a2(1) by (simp add: same_signals_def)
  have 2: "a_regs C' = a_regs C @ (R1 @ R2)" using a1(4) a2(2) by simp
  have 3: "length (R1 @ R2) = 3 + length uregs" using a1(5) a2(3) by simp
  have 4: "\<forall>k<3 + length uregs.
      addr_offset ((R1 @ R2) ! k) = addroffset st + int k * (w div 8)"
  proof (intro allI impI)
    fix k assume k: "k < 3 + length uregs"
    show "addr_offset ((R1 @ R2) ! k) = addroffset st + int k * (w div 8)"
    proof (cases "k < 3")
      case True
      with e1 a1(5) show ?thesis by (simp add: nth_append)
    next
      case False
      with k have j: "k - 3 < length uregs" by simp
      from False a1(5) have "(R1 @ R2) ! k = R2 ! (k - 3)" by (simp add: nth_append)
      with e2 [rule_format, OF j] a1(3) False show ?thesis
        by (simp add: algebra_simps of_nat_diff)
    qed
  qed
  have 5: "\<forall>k<3. \<exists>a b. create_register E (intr_regs fs ! k) a = Inr ((R1 @ R2) ! k, b)"
    using e1 a1(5) by (simp add: nth_append)
  have 6: "\<forall>j<length uregs. \<exists>a b.
      create_register E (uregs ! j) a = Inr ((R1 @ R2) ! (3 + j), b)"
    using e2 a1(5) by (simp add: nth_append)
  from il n n32 it fs l u 1 2 3 4 5 6 show ?thesis by blast
qed

subsection \<open>Signals and the whole document\<close>

lemma same_regs_refl [simp]: "same_regs C C"
  by (simp add: same_regs_def)

lemma same_regs_trans: "same_regs A B \<Longrightarrow> same_regs B C \<Longrightarrow> same_regs A C"
  by (simp add: same_regs_def)

lemma fold_forward:
  "fold (\<lambda>p S. if lookup_property E (fst p) \<and> fst p \<noteq> ''name''
                then assign_property S (fst p) (Doc (snd p)) else S) d S
   = S\<lparr>properties := properties S @ forwarded E d\<rparr>"
proof (induction d arbitrary: S)
  case Nil
  show ?case by (simp add: forwarded_def)
next
  case (Cons p ps)
  show ?case
    by (simp add: Cons.IH forwarded_def assign_property_def)
qed

lemma forward_props_simps [simp]:
  "properties (forward_props E d S) = properties S @ forwarded E d"
  "s_type_name (forward_props E d S) = s_type_name S"
  "s_inst_name (forward_props E d S) = s_inst_name S"
  by (simp_all add: forward_props_def fold_forward)

lemma create_signal_Inr:
  assumes "create_signal E sig t st = Inr (S, st')"
  shows "\<exists>d name. sig = JDict d \<and> map_of d ''name'' = Some name \<and> same_attrs st st'
    \<and> s_type_name S = name
    \<and> s_inst_name S = (if t = ''interrupt'' then Intr_o name else Given name)
    \<and> properties S
        = forwarded E (completed_entry d (if t = ''interrupt'' then ''output'' else t))"
proof -
  from assms obtain d where d: "sig = JDict d"
    by (cases sig) (simp_all add: create_signal_def as_dict_def)
  have ad: "as_dict (JDict d) = Inr d" by (simp add: as_dict_def)
  from assms [unfolded d create_signal_def Let_def bind_eq_Inr ad] obtain name where
    n: "getitem d ''name'' = Inr name"
    and S: "S = forward_props E (completed_entry d (if t = ''interrupt'' then ''output'' else t))
        \<lparr>properties = [], s_type_name = name,
         s_inst_name = (if t = ''interrupt'' then Intr_o name else Given name)\<rparr>"
    and st': "st' = warn_all unsupported_signal_props d (Signal name) st"
    unfolding completed_entry_def Let_def by auto
  from n have "map_of d ''name'' = Some name"
    by (cases "map_of d ''name''") (simp_all add: getitem_def)
  with d S st' show ?thesis by simp
qed

lemma add_signal_Inr:
  assumes "add_signal E t s (C, st) = Inr s1"
  shows "\<exists>S m. create_signal E s t st = Inr (S, m) \<and> s1 = (add_signal_child C S, m)"
  using assms [unfolded add_signal_def bind_eq_Inr] by auto

lemma add_signal_loop:
  assumes "for_each (add_signal E t) xs (C, st) = Inr (C', st')"
  shows "same_regs C C' \<and> same_attrs st st'
    \<and> (\<exists>Ss. a_signals C' = a_signals C @ Ss \<and> length Ss = length xs
          \<and> (\<forall>i<length xs. \<exists>a b. create_signal E (xs ! i) t a = Inr (Ss ! i, b)))"
  using assms
proof (induction xs arbitrary: C st)
  case Nil
  then show ?case by simp
next
  case (Cons x xs)
  from Cons.prems obtain s1 where
    ar: "add_signal E t x (C, st) = Inr s1"
    and r1: "for_each (add_signal E t) xs s1 = Inr (C', st')"
    by (auto simp: bind_eq_Inr)
  from add_signal_Inr [OF ar] obtain S m where
    cs: "create_signal E x t st = Inr (S, m)" and s1: "s1 = (add_signal_child C S, m)"
    by blast
  from create_signal_Inr [OF cs] have sa: "same_attrs st m" by blast
  from r1 s1 have "for_each (add_signal E t) xs (add_signal_child C S, m) = Inr (C', st')"
    by simp
  from Cons.IH [OF this] obtain Ss where
    sr: "same_regs (add_signal_child C S) C'" and sa2: "same_attrs m st'"
    and ch: "a_signals C' = a_signals (add_signal_child C S) @ Ss"
    and len: "length Ss = length xs"
    and each: "\<forall>i<length xs. \<exists>a b. create_signal E (xs ! i) t a = Inr (Ss ! i, b)"
    by blast
  have 1: "same_regs C C'" using sr by (simp add: same_regs_def add_signal_child_def)
  have 2: "same_attrs st st'" using sa sa2 by (rule same_attrs_trans)
  have 3: "a_signals C' = a_signals C @ (S # Ss)" using ch
    by (simp add: add_signal_child_def)
  have 4: "\<forall>i<length (x # xs). \<exists>a b.
      create_signal E ((x # xs) ! i) t a = Inr ((S # Ss) ! i, b)"
  proof (intro allI impI)
    fix i assume i: "i < length (x # xs)"
    show "\<exists>a b. create_signal E ((x # xs) ! i) t a = Inr ((S # Ss) ! i, b)"
    proof (cases i)
      case 0
      with cs show ?thesis by auto
    next
      case (Suc j)
      with i each show ?thesis by auto
    qed
  qed
  from 1 2 3 4 len show ?case by (intro conjI exI [of _ "S # Ss"]) simp_all
qed

lemma add_signal_list_Inr:
  assumes "add_signal_list E tree lt t (C, st) = Inr (C', st')"
  shows "same_regs C C' \<and> same_attrs st st'
    \<and> (\<exists>Ss. a_signals C' = a_signals C @ Ss \<and> signals_of E tree lt t Ss)"
proof (cases "map_of tree lt")
  case None
  with assms show ?thesis by (simp add: add_signal_list_def signals_of_def)
next
  case (Some l)
  with assms obtain entries where it: "py_iter l = Inr entries"
    and fe: "for_each (add_signal E t) entries (C, st) = Inr (C', st')"
    by (auto simp: add_signal_list_def bind_eq_Inr)
  from add_signal_loop [OF fe] obtain Ss where
    "same_regs C C'" "same_attrs st st'" "a_signals C' = a_signals C @ Ss"
    "length Ss = length entries"
    "\<forall>i<length entries. \<exists>a b. create_signal E (entries ! i) t a = Inr (Ss ! i, b)"
    by blast
  with Some it show ?thesis by (intro conjI exI [of _ Ss]) (simp_all add: signals_of_def)
qed

lemma add_clocking_entry_Inr:
  assumes "add_clocking_entry E entry (C, st) = Inr (C', st')"
  shows "same_regs C C' \<and> same_attrs st st' \<and> (\<exists>Ss. a_signals C' = a_signals C @ Ss)"
proof -
  from assms obtain items where
    fe: "for_each (\<lambda>kv. add_signal E ''input'' (JDict (clocking_sig_dict (fst kv) (snd kv))))
          items (C, st) = Inr (C', st')"
    by (cases entry) (simp_all add: add_clocking_entry_def)
  show ?thesis
    by (rule for_each_invariant [OF fe, where P = "\<lambda>s. same_regs C (fst s)
        \<and> same_attrs st (snd s) \<and> (\<exists>Ss. a_signals (fst s) = a_signals C @ Ss)",
        simplified])
      (auto dest!: add_signal_Inr create_signal_Inr
        simp: same_regs_def add_signal_child_def intro: same_attrs_trans)
qed

lemma add_clocking_Inr:
  assumes "for_each (add_clocking_entry E) entries (C, st) = Inr (C', st')"
  shows "same_regs C C' \<and> same_attrs st st' \<and> (\<exists>Ss. a_signals C' = a_signals C @ Ss)"
  by (rule for_each_invariant [OF assms, where P = "\<lambda>s. same_regs C (fst s)
        \<and> same_attrs st (snd s) \<and> (\<exists>Ss. a_signals (fst s) = a_signals C @ Ss)",
        simplified])
    (auto dest!: add_clocking_entry_Inr simp: same_regs_def intro: same_attrs_trans)

lemma add_signals_Inr:
  assumes "add_signals E C tree st = Inr (C', st')"
  shows "same_regs C C' \<and> same_attrs st st'
    \<and> (\<exists>Sc Si So Sio Sint. a_signals C' = a_signals C @ Sc @ Si @ So @ Sio @ Sint
          \<and> signals_of E tree ''available_input_list'' ''input'' Si
          \<and> signals_of E tree ''available_output_list'' ''output'' So
          \<and> signals_of E tree ''available_inout_list'' ''inout'' Sio
          \<and> signals_of E tree ''interrupt_list'' ''interrupt'' Sint)"
proof -
  from assms [unfolded add_signals_def bind_eq_Inr] obtain ns1 ns2 ns3 ns4 where
    c: "(case map_of tree ''clocking'' of
             None \<Rightarrow> Inr (C, st)
           | Some clocking \<Rightarrow>
               bind (py_iter clocking) (\<lambda>entries.
                 for_each (add_clocking_entry E) entries (C, st))) = Inr ns1"
    and i: "add_signal_list E tree ''available_input_list'' ''input'' ns1 = Inr ns2"
    and o: "add_signal_list E tree ''available_output_list'' ''output'' ns2 = Inr ns3"
    and io: "add_signal_list E tree ''available_inout_list'' ''inout'' ns3 = Inr ns4"
    and it: "add_signal_list E tree ''interrupt_list'' ''interrupt'' ns4 = Inr (C', st')"
    by blast
  obtain C1 s1 where ns1: "ns1 = (C1, s1)" by (cases ns1)
  obtain C2 s2 where ns2: "ns2 = (C2, s2)" by (cases ns2)
  obtain C3 s3 where ns3: "ns3 = (C3, s3)" by (cases ns3)
  obtain C4 s4 where ns4: "ns4 = (C4, s4)" by (cases ns4)
  have "same_regs C C1 \<and> same_attrs st s1 \<and> (\<exists>Ss. a_signals C1 = a_signals C @ Ss)"
  proof (cases "map_of tree ''clocking''")
    case None
    with c ns1 show ?thesis by simp
  next
    case (Some cl)
    with c ns1 obtain entries where
      "for_each (add_clocking_entry E) entries (C, st) = Inr (C1, s1)"
      by (auto simp: bind_eq_Inr)
    from add_clocking_Inr [OF this] show ?thesis .
  qed
  then obtain Sc where 1: "same_regs C C1" "same_attrs st s1" "a_signals C1 = a_signals C @ Sc"
    by blast
  from add_signal_list_Inr [OF i [unfolded ns1 ns2]] obtain Si where
    2: "same_regs C1 C2" "same_attrs s1 s2" "a_signals C2 = a_signals C1 @ Si"
       "signals_of E tree ''available_input_list'' ''input'' Si"
    by blast
  from add_signal_list_Inr [OF o [unfolded ns2 ns3]] obtain So where
    3: "same_regs C2 C3" "same_attrs s2 s3" "a_signals C3 = a_signals C2 @ So"
       "signals_of E tree ''available_output_list'' ''output'' So"
    by blast
  from add_signal_list_Inr [OF io [unfolded ns3 ns4]] obtain Sio where
    4: "same_regs C3 C4" "same_attrs s3 s4" "a_signals C4 = a_signals C3 @ Sio"
       "signals_of E tree ''available_inout_list'' ''inout'' Sio"
    by blast
  from add_signal_list_Inr [OF it [unfolded ns4]] obtain Sint where
    5: "same_regs C4 C'" "same_attrs s4 st'" "a_signals C' = a_signals C4 @ Sint"
       "signals_of E tree ''interrupt_list'' ''interrupt'' Sint"
    by blast
  have r: "same_regs C C'"
    using 1(1) 2(1) 3(1) 4(1) 5(1) by (simp add: same_regs_def)
  have a: "same_attrs st st'"
    using 1(2) 2(2) 3(2) 4(2) 5(2) by (simp add: same_attrs_def)
  have s: "a_signals C' = a_signals C @ Sc @ Si @ So @ Sio @ Sint"
    using 1(3) 2(3) 3(3) 4(3) 5(3) by simp
  from r a s 2(4) 3(4) 4(4) 5(4) show ?thesis by blast
qed

lemma import_file_Inr:
  assumes "import_file E doc = Inr (C, st')"
  shows "\<exists>tree name w C1 s1 Sc Si So Sio Sint.
      doc = JDict tree \<and> map_of tree ''name'' = Some name \<and> py_truthy name
    \<and> a_type_name C = name
    \<and> regwidth_of tree = Inr w
    \<and> a_regs C1 = [] \<and> regwidth s1 = Some w \<and> addroffset s1 = 0
    \<and> add_registers E C1 tree s1 = Inr (C, st')
    \<and> a_signals C = Sc @ Si @ So @ Sio @ Sint
    \<and> signals_of E tree ''available_input_list'' ''input'' Si
    \<and> signals_of E tree ''available_output_list'' ''output'' So
    \<and> signals_of E tree ''available_inout_list'' ''inout'' Sio
    \<and> signals_of E tree ''interrupt_list'' ''interrupt'' Sint"
proof -
  let ?st0 = "\<lparr>regwidth = None, addroffset = 0, warnings = []\<rparr>"
  from assms obtain tree where d: "doc = JDict tree"
    by (cases doc) (simp_all add: import_file_def import_ip_def as_dict_def)
  have ad: "as_dict (JDict tree) = Inr tree" by (simp add: as_dict_def)
  let ?st1 = "warn_all unsupported_addrmap_props tree Addrmap ?st0"
  from assms [unfolded d import_file_def import_ip_def Let_def bind_eq_Inr ad]
  obtain name where n: "getitem tree ''name'' = Inr name"
    and r: "(if \<not> py_truthy name then Inl RDLCompileError
       else bind (add_signals E
              (addrmap_desc tree
                (if has_key tree ''human_name''
                 then assign_property
                   \<lparr>properties = [], a_type_name = name, a_signals = [], a_regs = []\<rparr>
                   ''name'' (Doc name)
                 else \<lparr>properties = [], a_type_name = name, a_signals = [], a_regs = []\<rparr>))
              tree ?st1)
            (\<lambda>ns. bind (case map_of tree ''regwidth'' of
                          Some v \<Rightarrow> py_int v | None \<Rightarrow> Inr 32)
              (\<lambda>w. add_registers E (fst ns) tree ((snd ns)\<lparr>regwidth := Some w\<rparr>))))
      = Inr (C, st')"
    by auto
  let ?C2 = "addrmap_desc tree
                (if has_key tree ''human_name''
                 then assign_property
                   \<lparr>properties = [], a_type_name = name, a_signals = [], a_regs = []\<rparr>
                   ''name'' (Doc name)
                 else \<lparr>properties = [], a_type_name = name, a_signals = [], a_regs = []\<rparr>)"
  have t: "py_truthy name"
  proof (rule ccontr)
    assume "\<not> py_truthy name"
    with r show False by simp
  qed
  with r obtain ns w where
    as: "add_signals E ?C2 tree ?st1 = Inr ns"
    and w: "regwidth_of tree = Inr w"
    and ar: "add_registers E (fst ns) tree ((snd ns)\<lparr>regwidth := Some w\<rparr>) = Inr (C, st')"
    unfolding regwidth_of_def by (auto simp: bind_eq_Inr)
  obtain C1 s1 where ns: "ns = (C1, s1)" by (cases ns)
  have C2: "a_regs ?C2 = []" "a_signals ?C2 = []" "a_type_name ?C2 = name"
    by (simp_all add: addrmap_desc_def split: option.splits)
  from add_signals_Inr [OF as [unfolded ns]] C2 obtain Sc Si So Sio Sint where
    sr: "same_regs ?C2 C1" and sa: "same_attrs ?st1 s1"
    and sg: "a_signals C1 = Sc @ Si @ So @ Sio @ Sint"
      "signals_of E tree ''available_input_list'' ''input'' Si"
      "signals_of E tree ''available_output_list'' ''output'' So"
      "signals_of E tree ''available_inout_list'' ''inout'' Sio"
      "signals_of E tree ''interrupt_list'' ''interrupt'' Sint"
    by auto
  have sa0: "same_attrs ?st0 ?st1" by simp
  from sa sa0 have s1: "addroffset s1 = 0" by (simp add: same_attrs_def)
  from sr C2 have C1: "a_regs C1 = []" "a_type_name C1 = name" by (simp_all add: same_regs_def)
  let ?s = "s1\<lparr>regwidth := Some w\<rparr>"
  have s: "regwidth ?s = Some w" "addroffset ?s = 0" using s1 by simp_all
  from ar ns have ar': "add_registers E C1 tree ?s = Inr (C, st')" by simp
  from add_registers_Inr [OF ar' s(1)] have "same_signals C1 C" by blast
  with sg(1) C1 have C: "a_signals C = Sc @ Si @ So @ Sio @ Sint" "a_type_name C = name"
    by (simp_all add: same_signals_def)
  from n have nm: "map_of tree ''name'' = Some name"
    by (cases "map_of tree ''name''") (simp_all add: getitem_def)
  from d nm t C w C1(1) s ar' sg(2-5) show ?thesis by blast
qed

subsection \<open>Register offsets\<close>

lemma for_each_Cons_Inr:
  "f x s = Inr s1 \<Longrightarrow> for_each f xs s1 = Inr s2 \<Longrightarrow> for_each f (x # xs) s = Inr s2"
  by simp

lemma add_register_intro:
  "create_register E reg st = Inr (R, st') \<Longrightarrow>
   add_register E reg (C, st) = Inr (add_child C R, st')"
  by (simp add: add_register_def)

lemma add_registers_intro:
  assumes "getitem tree ''interrupt_list'' = Inr il" and "py_len il = Inr n" and "n \<le> 32"
    and "py_iter il = Inr intrs"
    and "for_each intr_fields (enumerate 0 intrs) ([], [], []) = Inr fs"
    and "for_each (add_register E) (intr_regs fs) (C, st) = Inr ns"
    and "getitem tree ''registers'' = Inr l" and "py_iter l = Inr regs"
    and "for_each (add_register E) regs ns = Inr r"
  shows "add_registers E C tree st = Inr r"
  using assms by (simp add: add_registers_def Let_def intr_regs_def)

lemma import_file_intro:
  assumes "getitem tree ''name'' = Inr name" and "py_truthy name"
    and "add_signals E
           (addrmap_desc tree
             (if has_key tree ''human_name''
              then assign_property
                \<lparr>properties = [], a_type_name = name, a_signals = [], a_regs = []\<rparr>
                ''name'' (Doc name)
              else \<lparr>properties = [], a_type_name = name, a_signals = [], a_regs = []\<rparr>))
           tree
           (warn_all unsupported_addrmap_props tree Addrmap
             \<lparr>regwidth = None, addroffset = 0, warnings = []\<rparr>) = Inr ns"
    and "regwidth_of tree = Inr w"
    and "add_registers E (fst ns) tree ((snd ns)\<lparr>regwidth := Some w\<rparr>) = Inr r"
  shows "import_file E (JDict tree) = Inr r"
  using assms
  by (simp add: import_file_def import_ip_def as_dict_def Let_def regwidth_of_def)

lemma example_doc_run:
  "import_file example_env (JDict example_tree) = Inr (example_map, example_map_state)"
proof -
  let ?C = "example_map\<lparr>a_regs := []\<rparr>"
  let ?s = "\<lambda>k. example_map_state\<lparr>addroffset := k\<rparr>"
  let ?R = "\<lambda>k. a_regs example_map ! k"
  have n: "getitem example_tree ''name'' = Inr (JStr ''uart'')" by code_simp
  have t: "py_truthy (JStr ''uart'')" by code_simp
  have sg: "add_signals example_env
           (addrmap_desc example_tree
             (if has_key example_tree ''human_name''
              then assign_property
                \<lparr>properties = [], a_type_name = JStr ''uart'', a_signals = [], a_regs = []\<rparr>
                ''name'' (Doc (JStr ''uart''))
              else \<lparr>properties = [], a_type_name = JStr ''uart'', a_signals = [],
                    a_regs = []\<rparr>))
           example_tree
           (warn_all unsupported_addrmap_props example_tree Addrmap
             \<lparr>regwidth = None, addroffset = 0, warnings = []\<rparr>)
      = Inr (?C, example_map_state\<lparr>regwidth := None, addroffset := 0\<rparr>)"
    by code_simp
  have w: "regwidth_of example_tree = Inr 32" by code_simp
  have il: "getitem example_tree ''interrupt_list'' = Inr (JList example_intrs)" by code_simp
  have len: "py_len (JList example_intrs) = Inr 2" by code_simp
  have it: "py_iter (JList example_intrs) = Inr example_intrs" by (simp add: py_iter_def)
  have fs: "for_each intr_fields (enumerate 0 example_intrs) ([], [], [])
      = Inr example_intr_fields" by code_simp
  have ir: "intr_regs example_intr_fields
      = [intr_regs example_intr_fields ! 0, intr_regs example_intr_fields ! 1,
         intr_regs example_intr_fields ! 2]"
    by (simp add: intr_regs_def)
  have r0: "create_register example_env (intr_regs example_intr_fields ! 0) (?s 0)
      = Inr (?R 0, ?s 4)" by code_simp
  have r1: "create_register example_env (intr_regs example_intr_fields ! 1) (?s 4)
      = Inr (?R 1, ?s 8)" by code_simp
  have r2: "create_register example_env (intr_regs example_intr_fields ! 2) (?s 8)
      = Inr (?R 2, ?s 12)" by code_simp
  have l: "getitem example_tree ''registers'' = Inr (JList example_user_regs)" by code_simp
  have ui: "py_iter (JList example_user_regs) = Inr example_user_regs"
    by (simp add: py_iter_def)
  have u: "example_user_regs = [example_user_regs ! 0]" by (simp add: example_user_regs_def)
  have r3: "create_register example_env (example_user_regs ! 0) (?s 12)
      = Inr (?R 3, example_map_state)" by code_simp
  let ?C3 = "add_child (add_child (add_child ?C (?R 0)) (?R 1)) (?R 2)"
  have a0: "add_register example_env (intr_regs example_intr_fields ! 0) (?C, ?s 0)
      = Inr (add_child ?C (?R 0), ?s 4)"
    by (rule add_register_intro [OF r0])
  have a1: "add_register example_env (intr_regs example_intr_fields ! 1)
      (add_child ?C (?R 0), ?s 4) = Inr (add_child (add_child ?C (?R 0)) (?R 1), ?s 8)"
    by (rule add_register_intro [OF r1])
  have a2: "add_register example_env (intr_regs example_intr_fields ! 2)
      (add_child (add_child ?C (?R 0)) (?R 1), ?s 8) = Inr (?C3, ?s 12)"
    by (rule add_register_intro [OF r2])
  have a3: "add_register example_env (example_user_regs ! 0) (?C3, ?s 12)
      = Inr (add_child ?C3 (?R 3), example_map_state)"
    by (rule add_register_intro [OF r3])
  have l1: "for_each (add_register example_env) (intr_regs example_intr_fields) (?C, ?s 0)
      = Inr (?C3, ?s 12)"
    by (subst ir) (simp only: for_each.simps a0 a1 a2 bind_Inr)
  have l2: "for_each (add_register example_env) example_user_regs (?C3, ?s 12)
      = Inr (add_child ?C3 (?R 3), example_map_state)"
    by (subst u) (simp only: for_each.simps a3 bind_Inr)
  have fin: "add_child ?C3 (?R 3) = example_map" by code_simp
  have s0: "(snd (?C, example_map_state\<lparr>regwidth := None, addroffset := 0\<rparr>))
      \<lparr>regwidth := Some 32\<rparr> = ?s 0" by code_simp
  have ar: "add_registers example_env ?C example_tree (?s 0) = Inr (example_map, example_map_state)"
    using add_registers_intro [OF il len _ it fs l1 l ui l2] fin by simp
  show ?thesis
    by (rule import_file_intro [OF n t sg w]) (simp only: fst_conv s0 ar)
qed

lemma intr_regs_names:
  assumes "create_register E (intr_regs fs ! k) a = Inr (R, b)" and "k < 3"
  shows "r_inst_name R = [''intr_state'', ''intr_enable'', ''intr_test''] ! k
    \<and> external R = (k = 2)"
proof -
  from create_register_Inr [OF assms(1)] obtain rd name lname where
    rd: "intr_regs fs ! k = JDict rd" and n: "getitem rd ''name'' = Inr name"
    and l: "lower name = Inr lname" and r: "r_inst_name R = lname"
    and e: "external R = (get_or_none rd ''hwext'' = JStr ''true'')"
    by blast
  from assms(2) have "k = 0 \<or> k = 1 \<or> k = 2" by auto
  then show ?thesis
  proof (elim disjE)
    assume "k = 0"
    with rd n l r e show ?thesis
      by (auto simp: intr_regs_def intr_state_reg_def getitem_def get_or_none_def lower_def
          py_lower_def lower_char_def py_isupper_def)
  next
    assume "k = 1"
    with rd n l r e show ?thesis
      by (auto simp: intr_regs_def intr_enable_reg_def getitem_def get_or_none_def lower_def
          py_lower_def lower_char_def py_isupper_def)
  next
    assume "k = 2"
    with rd n l r e show ?thesis
      by (auto simp: intr_regs_def intr_test_reg_def getitem_def get_or_none_def lower_def
          py_lower_def lower_char_def py_isupper_def)
  qed
qed



subsection \<open>Plain signals\<close>








subsection \<open>Interrupt fields\<close>

lemma digit_char_digit:
  assumes "d < 10"
  shows "is_digit 10 (digit_char d)" "digit_value (digit_char d) = Some d"
proof -
  from assms have "(of_char (char_of (48 + d)) :: nat) = 48 + d" by simp
  with assms show "is_digit 10 (digit_char d)" "digit_value (digit_char d) = Some d"
    by (simp_all add: is_digit_def digit_value_def digit_char_def Let_def)
qed

lemma str_of_nat_digits: "(\<forall>c\<in>set (str_of_nat n). is_digit 10 c) \<and> str_of_nat n \<noteq> []"
proof (induction n rule: str_of_nat.induct)
  case (1 n)
  show ?case
  proof (cases "n < 10")
    case True
    then show ?thesis by (subst (1 2) str_of_nat.simps) (simp add: digit_char_digit)
  next
    case False
    with 1 show ?thesis by (subst (1 2) str_of_nat.simps) (simp add: digit_char_digit)
  qed
qed

lemma digits_value_snoc:
  "digits_value b (ds @ [c]) = digits_value b ds * int b + int (the (digit_value c))"
  by (simp add: digits_value_def)

lemma digits_value_str_of_nat: "digits_value 10 (str_of_nat n) = int n"
proof (induction n rule: str_of_nat.induct)
  case (1 n)
  show ?case
  proof (cases "n < 10")
    case True
    then show ?thesis
      by (subst str_of_nat.simps) (simp add: digits_value_def digit_char_digit)
  next
    case False
    with 1 have "digits_value 10 (str_of_nat (n div 10)) = int (n div 10)" by simp
    moreover have "int (n div 10) * 10 + int (n mod 10) = int n"
      by (simp add: zdiv_int zmod_int)
    ultimately show ?thesis using False
      by (subst str_of_nat.simps) (simp add: digits_value_snoc digit_char_digit)
  qed
qed

lemma parse_bits_str_of_nat: "parse_bits (JStr (str_of_nat n)) = Inr (int n, 1)"
proof -
  have "int_of_str (str_of_nat n) = Some (int n)"
    using int_of_str_digits [of "str_of_nat n"] str_of_nat_digits [of n]
    by (simp add: digits_value_str_of_nat)
  from int_of_str_no_colon [OF this] this show ?thesis
    by (simp add: parse_bits_def py_split_no_sep)
qed

lemma intr_fields_Inr:
  assumes "intr_fields (cnt, x) acc = Inr acc'"
  shows "\<exists>d nm desc. x = JDict d \<and> map_of d ''name'' = Some nm \<and> map_of d ''desc'' = Some desc
    \<and> acc' = (fst acc @ [JDict (status_field nm desc cnt (get_or d ''default'' (JInt 0)))],
              fst (snd acc) @ [JDict (base_field nm desc cnt)],
              snd (snd acc) @ [JDict (base_field nm desc cnt)])"
proof -
  from assms obtain d where d: "x = JDict d"
    by (cases x) (simp_all add: intr_fields_def as_dict_def)
  have ad: "as_dict (JDict d) = Inr d" by (simp add: as_dict_def)
  from assms [unfolded intr_fields_def d Let_def bind_eq_Inr] ad obtain nm desc where
    n: "getitem d ''name'' = Inr nm" and ds: "getitem d ''desc'' = Inr desc"
    and a: "acc' = (fst acc @ [JDict (setitem [(''name'', nm), (''desc'', desc),
                (''bits'', JStr (str_of_nat cnt))] ''resval''
                (case map_of d ''default'' of Some v \<Rightarrow> v | None \<Rightarrow> JInt 0))],
              fst (snd acc) @ [JDict [(''name'', nm), (''desc'', desc),
                (''bits'', JStr (str_of_nat cnt))]],
              snd (snd acc) @ [JDict [(''name'', nm), (''desc'', desc),
                (''bits'', JStr (str_of_nat cnt))]])"
    by auto
  have g: "(case map_of d ''default'' of Some v \<Rightarrow> v | None \<Rightarrow> JInt 0)
      = get_or d ''default'' (JInt 0)"
    by (simp add: get_or_def split: option.splits)
  from n have n': "map_of d ''name'' = Some nm"
    by (cases "map_of d ''name''") (simp_all add: getitem_def)
  from ds have d': "map_of d ''desc'' = Some desc"
    by (cases "map_of d ''desc''") (simp_all add: getitem_def)
  from a g have "acc' = (fst acc @ [JDict (status_field nm desc cnt (get_or d ''default'' (JInt 0)))],
              fst (snd acc) @ [JDict (base_field nm desc cnt)],
              snd (snd acc) @ [JDict (base_field nm desc cnt)])"
    by (simp add: status_field_def base_field_def)
  with d n' d' show ?thesis by blast
qed

lemma intr_fields_loop:
  assumes "for_each intr_fields (enumerate n xs) acc = Inr acc'"
  shows "\<exists>As Bs Cs. acc' = (fst acc @ As, fst (snd acc) @ Bs, snd (snd acc) @ Cs)
    \<and> length As = length xs \<and> length Bs = length xs \<and> length Cs = length xs
    \<and> (\<forall>i<length xs. \<exists>d nm desc. xs ! i = JDict d
          \<and> map_of d ''name'' = Some nm \<and> map_of d ''desc'' = Some desc
          \<and> As ! i = JDict (status_field nm desc (n + i) (get_or d ''default'' (JInt 0)))
          \<and> Bs ! i = JDict (base_field nm desc (n + i))
          \<and> Cs ! i = JDict (base_field nm desc (n + i)))"
  using assms
proof (induction xs arbitrary: n acc)
  case Nil
  then show ?case by simp
next
  case (Cons x xs)
  from Cons.prems obtain a1 where
    s: "intr_fields (n, x) acc = Inr a1"
    and r: "for_each intr_fields (enumerate (Suc n) xs) a1 = Inr acc'"
    by (auto simp: bind_eq_Inr)
  from intr_fields_Inr [OF s] obtain d nm desc where
    x: "x = JDict d" "map_of d ''name'' = Some nm" "map_of d ''desc'' = Some desc"
    and a1: "a1 = (fst acc @ [JDict (status_field nm desc n (get_or d ''default'' (JInt 0)))],
              fst (snd acc) @ [JDict (base_field nm desc n)],
              snd (snd acc) @ [JDict (base_field nm desc n)])"
    by blast
  from Cons.IH [OF r] obtain As Bs Cs where
    acc': "acc' = (fst a1 @ As, fst (snd a1) @ Bs, snd (snd a1) @ Cs)"
    and len: "length As = length xs" "length Bs = length xs" "length Cs = length xs"
    and each: "\<forall>i<length xs. \<exists>d nm desc. xs ! i = JDict d
          \<and> map_of d ''name'' = Some nm \<and> map_of d ''desc'' = Some desc
          \<and> As ! i = JDict (status_field nm desc (Suc n + i) (get_or d ''default'' (JInt 0)))
          \<and> Bs ! i = JDict (base_field nm desc (Suc n + i))
          \<and> Cs ! i = JDict (base_field nm desc (Suc n + i))"
    by blast
  let ?A = "JDict (status_field nm desc n (get_or d ''default'' (JInt 0))) # As"
  let ?B = "JDict (base_field nm desc n) # Bs"
  let ?C = "JDict (base_field nm desc n) # Cs"
  have 1: "acc' = (fst acc @ ?A, fst (snd acc) @ ?B, snd (snd acc) @ ?C)"
    using acc' a1 by simp
  have 2: "\<forall>i<length (x # xs). \<exists>d nm desc. (x # xs) ! i = JDict d
          \<and> map_of d ''name'' = Some nm \<and> map_of d ''desc'' = Some desc
          \<and> ?A ! i = JDict (status_field nm desc (n + i) (get_or d ''default'' (JInt 0)))
          \<and> ?B ! i = JDict (base_field nm desc (n + i))
          \<and> ?C ! i = JDict (base_field nm desc (n + i))"
  proof (intro allI impI)
    fix i assume i: "i < length (x # xs)"
    show "\<exists>d nm desc. (x # xs) ! i = JDict d
          \<and> map_of d ''name'' = Some nm \<and> map_of d ''desc'' = Some desc
          \<and> ?A ! i = JDict (status_field nm desc (n + i) (get_or d ''default'' (JInt 0)))
          \<and> ?B ! i = JDict (base_field nm desc (n + i))
          \<and> ?C ! i = JDict (base_field nm desc (n + i))"
    proof (cases i)
      case 0
      with x show ?thesis by simp
    next
      case (Suc j)
      with i have "j < length xs" by simp
      with each Suc show ?thesis by simp
    qed
  qed
  from 1 2 len show ?case
    by (intro exI [of _ ?A] exI [of _ ?B] exI [of _ ?C]) simp
qed

subsection \<open>Interrupt registers\<close>

lemma base_field_keys:
  "map_of (base_field nm desc i @ extra) ''name'' = Some nm"
  "map_of (base_field nm desc i @ extra) ''desc'' = Some desc"
  "map_of (base_field nm desc i @ extra) ''bits'' = Some (JStr (str_of_nat i))"
  "getitem (base_field nm desc i @ extra) ''bits'' = Inr (JStr (str_of_nat i))"
  by (simp_all add: base_field_def getitem_def)

lemma base_field_no_keys:
  assumes "set (map fst extra) \<subseteq> {''resval''}"
  shows "get_or (base_field nm desc i @ extra) ''swaccess'' v = v"
    "get_or (base_field nm desc i @ extra) ''hwaccess'' v = v"
    "\<not> has_key (base_field nm desc i @ extra) ''enum''"
proof -
  have "map_of extra ''swaccess'' = None" "map_of extra ''hwaccess'' = None"
    "map_of extra ''enum'' = None"
    using assms by (auto simp: map_of_eq_None_iff)
  then show "get_or (base_field nm desc i @ extra) ''swaccess'' v = v"
    "get_or (base_field nm desc i @ extra) ''hwaccess'' v = v"
    "\<not> has_key (base_field nm desc i @ extra) ''enum''"
    by (simp_all add: base_field_def get_or_def has_key_def)
qed

lemma inherit_zero: "inherit_resval (JInt 0) (int i) 1 = Inr (JInt 0)"
  by (simp add: inherit_resval_def)

lemma intr_field_common:
  assumes cf: "create_field E hwqe (JStr swt) (JStr hwt) rr i
      (JDict (base_field nm desc i @ extra)) a = Inr (F, b)"
    and ex: "set (map fst extra) \<subseteq> {''resval''}"
    and ns: "\<not> no_storage (JStr swt) (JStr hwt)"
  shows "\<exists>s sw hw. nm = JStr s \<and> f_inst_name F = py_lower s \<and> f_type_name F = py_lower s
    \<and> f_bit_offset F = int i \<and> f_bit_width F = 1
    \<and> map_of (properties F) ''desc'' = Some (Doc desc)
    \<and> sw_from_access E (JStr swt) = Inr sw
    \<and> hw_from_access E (JStr hwt) = Inr hw
    \<and> map_of (properties F) ''sw'' = Some (fst sw)
    \<and> map_of (properties F) ''onread'' = snd (snd sw)
    \<and> map_of (properties F) ''onwrite'' = fst (snd sw)
    \<and> map_of (properties F) ''hw'' = Some (fst hw)
    \<and> map_of (properties F) ''we'' = snd hw"
proof -
  let ?fd = "base_field nm desc i @ extra"
  from create_field_names [OF cf] obtain s where
    s: "map_of ?fd ''name'' = Some (JStr s) \<or> map_of ?fd ''name'' = None \<and> s = ''val'' @ str_of_nat i"
    and n: "f_inst_name F = py_lower s" "f_type_name F = py_lower s"
    by blast
  from s have nm: "nm = JStr s" unfolding base_field_keys(1) by simp
  from create_field_sel [OF cf] have
    "parse_bits (JStr (str_of_nat i)) = Inr (f_bit_offset F, f_bit_width F)"
    by (auto simp: base_field_keys)
  then have bits: "f_bit_offset F = int i" "f_bit_width F = 1"
    by (simp_all add: parse_bits_str_of_nat)
  from create_field_map_of [OF cf] obtain sw hw rv where
    sw: "sw_from_access E (get_or ?fd ''swaccess'' (JStr swt)) = Inr sw"
    and hw: "hw_from_access E (get_or ?fd ''hwaccess'' (JStr hwt)) = Inr hw"
    and k: "\<forall>k. k \<noteq> ''encode'' \<longrightarrow> map_of (properties F) k
          = map_of (field_props ?fd hwqe (get_or ?fd ''swaccess'' (JStr swt))
              (get_or ?fd ''hwaccess'' (JStr hwt)) sw hw rv) k"
    by blast
  note g = base_field_no_keys [OF ex]
  from k ns have p: "map_of (properties F) ''desc'' = Some (Doc desc)"
    "map_of (properties F) ''sw'' = Some (fst sw)"
    "map_of (properties F) ''onread'' = snd (snd sw)"
    "map_of (properties F) ''onwrite'' = fst (snd sw)"
    "map_of (properties F) ''hw'' = Some (fst hw)"
    "map_of (properties F) ''we'' = snd hw"
    by (simp_all add: map_of_field_props g base_field_keys del: map_of_append)
  from nm n bits p sw hw show ?thesis by (simp add: g)
qed

lemma intr_field_reset_none:
  assumes cf: "create_field E hwqe dsw dhw (JInt 0) i (JDict (base_field nm desc i)) a
      = Inr (F, b)"
  shows "map_of (properties F) ''reset'' = Some (Doc (JInt 0))"
proof -
  let ?fd = "base_field nm desc i"
  from create_field_sel [OF cf] have
    "parse_bits (JStr (str_of_nat i)) = Inr (f_bit_offset F, f_bit_width F)"
    using base_field_keys(4) [of nm desc i "[]"] by auto
  then have bits: "f_bit_offset F = int i" "f_bit_width F = 1"
    by (simp_all add: parse_bits_str_of_nat)
  from create_field_map_of [OF cf] obtain sw hw rv st2 where
    fr: "field_resval ?fd (JInt 0) (f_bit_offset F) (f_bit_width F)
         (warn_all unsupported_field_props ?fd (Field (field_name_of ?fd i)) a) = Inr (rv, st2)"
    and k: "\<forall>k. k \<noteq> ''encode'' \<longrightarrow> map_of (properties F) k
          = map_of (field_props ?fd hwqe (get_or ?fd ''swaccess'' dsw)
              (get_or ?fd ''hwaccess'' dhw) sw hw rv) k"
    by blast
  have "map_of ?fd ''resval'' = None" by (simp add: base_field_def)
  with fr bits have "rv = JInt 0"
    by (simp add: field_resval_def inherit_zero)
  with k show ?thesis by (simp add: map_of_field_props)
qed

lemma intr_reg_dict:
  assumes "k < 3"
  shows "\<exists>rd. intr_regs fs ! k = JDict rd
    \<and> getitem rd ''fields'' = Inr (JList ([fst fs, fst (snd fs), snd (snd fs)] ! k))
    \<and> get_or_none rd ''swaccess'' = JStr (intr_swaccess ! k)
    \<and> get_or_none rd ''hwaccess'' = JStr (intr_hwaccess ! k)
    \<and> reg_resval rd = Inr (JInt 0)"
proof -
  from assms have "k = 0 \<or> k = 1 \<or> k = 2" by auto
  then show ?thesis
    by (elim disjE)
      (simp_all add: intr_regs_def intr_state_reg_def intr_enable_reg_def intr_test_reg_def
        getitem_def get_or_none_def reg_resval_def intr_swaccess_def intr_hwaccess_def)
qed

lemma intr_tokens_storage: "k < 3 \<Longrightarrow> \<not> no_storage (JStr (intr_swaccess ! k)) (JStr (intr_hwaccess ! k))"
  by (auto simp: no_storage_def intr_swaccess_def intr_hwaccess_def nth_Cons split: nat.splits)

lemma py_len_iter: "py_len v = Inr n \<Longrightarrow> py_iter v = Inr xs \<Longrightarrow> length xs = n"
  by (cases v) (auto simp: py_len_def py_iter_def)

lemma status_field_resval:
  "map_of (status_field nm desc i v) ''resval'' = Some v"
  by (simp add: status_field_def base_field_def)

lemma intr_state_reset:
  assumes cf: "create_field E hwqe dsw dhw rr i
      (JDict (status_field nm desc i (get_or d ''default'' (JInt 0)))) a = Inr (F, b)"
  shows "case map_of d ''default'' of
           None \<Rightarrow> map_of (properties F) ''reset'' = Some (Doc (JInt 0))
         | Some v \<Rightarrow>
             if v = JStr ''x''
             then map_of (properties F) ''reset'' = Some (Doc (JInt 0))
             else \<exists>r. hex_or_dec_to_dec v = Inr r
                    \<and> map_of (properties F) ''reset'' = Some (Doc r)"
proof (cases "map_of d ''default''")
  case None
  then have g: "get_or d ''default'' (JInt 0) = JInt 0" by (simp add: get_or_def)
  from create_field_resval_given [OF cf status_field_resval] g
  have "\<exists>r. hex_or_dec_to_dec (JInt 0) = Inr r \<and> map_of (properties F) ''reset'' = Some (Doc r)"
    by simp
  then have "map_of (properties F) ''reset'' = Some (Doc (JInt 0))"
    by (auto simp: hex_or_dec_to_dec_def)
  with None show ?thesis by simp
next
  case (Some v)
  then have g: "get_or d ''default'' (JInt 0) = v" by (simp add: get_or_def)
  from create_field_resval_given [OF cf status_field_resval] g Some show ?thesis
    by (cases "v = JStr ''x''") simp_all
qed

lemma intr_register:
  assumes cr: "create_register E (intr_regs fs ! k) a = Inr (R, b)" and k: "k < 3"
    and fs: "for_each intr_fields (enumerate 0 intrs) ([], [], []) = Inr fs"
  shows "length (r_children R) = length intrs
    \<and> (\<forall>i<length intrs. interrupt_field E (intrs ! i) k i (r_children R ! i))"
proof -
  from intr_fields_loop [OF fs] obtain As Bs Cs where
    fs': "fs = (As, Bs, Cs)"
    and len: "length As = length intrs" "length Bs = length intrs" "length Cs = length intrs"
    and each: "\<forall>i<length intrs. \<exists>d nm desc. intrs ! i = JDict d
          \<and> map_of d ''name'' = Some nm \<and> map_of d ''desc'' = Some desc
          \<and> As ! i = JDict (status_field nm desc (0 + i) (get_or d ''default'' (JInt 0)))
          \<and> Bs ! i = JDict (base_field nm desc (0 + i))
          \<and> Cs ! i = JDict (base_field nm desc (0 + i))"
    by auto
  let ?fl = "[As, Bs, Cs] ! k"
  from intr_reg_dict [OF k, of fs] fs' obtain rd where
    rd: "intr_regs fs ! k = JDict rd"
    and fl: "getitem rd ''fields'' = Inr (JList ?fl)"
    and tok: "get_or_none rd ''swaccess'' = JStr (intr_swaccess ! k)"
      "get_or_none rd ''hwaccess'' = JStr (intr_hwaccess ! k)"
    and rr: "reg_resval rd = Inr (JInt 0)"
    by auto
  have it: "py_iter (JList ?fl) = Inr ?fl" by (simp add: py_iter_def)
  have lfl: "length ?fl = length intrs"
    using k len by (auto simp: nth_Cons split: nat.splits)
  note cr' = cr [unfolded rd]
  from create_register_Inr [OF cr'] fl it rr have
    lc: "length (r_children R) = length ?fl" by auto
  have "\<forall>i<length intrs. interrupt_field E (intrs ! i) k i (r_children R ! i)"
  proof (intro allI impI)
    fix i assume i: "i < length intrs"
    with lfl have i': "i < length ?fl" by simp
    from create_register_field [OF cr' fl it i'] rr tok obtain a' b' where
      cf: "create_field E (get_or_none rd ''hwqe'') (JStr (intr_swaccess ! k))
         (JStr (intr_hwaccess ! k)) (JInt 0) i (?fl ! i) a' = Inr (r_children R ! i, b')"
      by auto
    from each i obtain d nm desc where
      x: "intrs ! i = JDict d" "map_of d ''name'' = Some nm" "map_of d ''desc'' = Some desc"
      and A: "As ! i = JDict (status_field nm desc i (get_or d ''default'' (JInt 0)))"
      and B: "Bs ! i = JDict (base_field nm desc i)"
      and C: "Cs ! i = JDict (base_field nm desc i)"
      by auto
    let ?F = "r_children R ! i"
    let ?extra = "if k = 0 then [(''resval'', get_or d ''default'' (JInt 0))] else []"
    have fli: "?fl ! i = JDict (base_field nm desc i @ ?extra)"
      using k A B C by (auto simp: nth_Cons status_field_def split: nat.splits)
    have ex: "set (map fst ?extra) \<subseteq> {''resval''}" by auto
    from intr_field_common [OF cf [unfolded fli] ex intr_tokens_storage [OF k]]
    obtain s sw hw where
      c: "nm = JStr s" "f_inst_name ?F = py_lower s" "f_type_name ?F = py_lower s"
        "f_bit_offset ?F = int i" "f_bit_width ?F = 1"
        "map_of (properties ?F) ''desc'' = Some (Doc desc)"
        "sw_from_access E (JStr (intr_swaccess ! k)) = Inr sw"
        "hw_from_access E (JStr (intr_hwaccess ! k)) = Inr hw"
        "map_of (properties ?F) ''sw'' = Some (fst sw)"
        "map_of (properties ?F) ''onread'' = snd (snd sw)"
        "map_of (properties ?F) ''onwrite'' = fst (snd sw)"
        "map_of (properties ?F) ''hw'' = Some (fst hw)"
        "map_of (properties ?F) ''we'' = snd hw"
      by blast
    have r: "if k = 0
            then (case map_of d ''default'' of
                    None \<Rightarrow> map_of (properties ?F) ''reset'' = Some (Doc (JInt 0))
                  | Some v \<Rightarrow>
                      if v = JStr ''x''
                      then map_of (properties ?F) ''reset'' = Some (Doc (JInt 0))
                      else \<exists>r. hex_or_dec_to_dec v = Inr r
                             \<and> map_of (properties ?F) ''reset'' = Some (Doc r))
            else map_of (properties ?F) ''reset'' = Some (Doc (JInt 0))"
    proof (cases "k = 0")
      case True
      with cf fli have "create_field E (get_or_none rd ''hwqe'') (JStr (intr_swaccess ! k))
         (JStr (intr_hwaccess ! k)) (JInt 0) i
         (JDict (status_field nm desc i (get_or d ''default'' (JInt 0)))) a' = Inr (?F, b')"
        by (simp add: status_field_def)
      from intr_state_reset [OF this] True show ?thesis by simp
    next
      case False
      with cf fli have "create_field E (get_or_none rd ''hwqe'') (JStr (intr_swaccess ! k))
         (JStr (intr_hwaccess ! k)) (JInt 0) i (JDict (base_field nm desc i)) a'
         = Inr (?F, b')"
        by simp
      from intr_field_reset_none [OF this] False show ?thesis by simp
    qed
    show "interrupt_field E (intrs ! i) k i ?F"
      unfolding interrupt_field_def
      using x(1,3) x(2) [unfolded c(1)] c(2-) r
      by (intro exI [of _ d] exI [of _ s] exI [of _ desc] exI [of _ sw] exI [of _ hw]) simp
  qed
  with lc lfl show ?thesis by simp
qed

text \<open>
  Claim C2, as amended. For a document that \<^verbatim>\<open>import_file\<close> translates, whose
  interrupt list has \<open>n\<close> entries (\<open>n\<close> is at most 32): the first three
  registers of the address map are \<^verbatim>\<open>intr_state\<close>, \<^verbatim>\<open>intr_enable\<close> and
  \<^verbatim>\<open>intr_test\<close>, in this order and before every register of the document;
  \<^verbatim>\<open>intr_test\<close> alone is external. Each of the three has \<open>n\<close> fields, and the
  \<open>i\<close>-th is the field of the \<open>i\<close>-th interrupt as \<open>interrupt_field\<close> says:
  one bit at position \<open>i\<close>, named by the interrupt's name in lower case, with its
  description, with the properties the tables give for the tokens \<^verbatim>\<open>rw1c\<close> and
  \<^verbatim>\<open>hrw\<close>, \<^verbatim>\<open>rw\<close> and \<^verbatim>\<open>hro\<close>, \<^verbatim>\<open>wo\<close> and \<^verbatim>\<open>hro\<close>, and for
  \<^verbatim>\<open>intr_state\<close> with the interrupt's default, as the reset values are read, as
  reset value (0 without a default).
\<close>

theorem interrupt_registers:
  assumes "import_file E (JDict tree) = Inr (C, st')"
  shows "\<exists>il intrs. getitem tree ''interrupt_list'' = Inr il \<and> py_iter il = Inr intrs
    \<and> length intrs \<le> 32
    \<and> 3 \<le> length (a_regs C)
    \<and> map r_inst_name (take 3 (a_regs C)) = [''intr_state'', ''intr_enable'', ''intr_test'']
    \<and> map external (take 3 (a_regs C)) = [False, False, True]
    \<and> (\<forall>k<3. length (r_children (a_regs C ! k)) = length intrs
          \<and> (\<forall>i<length intrs.
                interrupt_field E (intrs ! i) k i (r_children (a_regs C ! k) ! i)))"
proof -
  from import_file_Inr [OF assms] obtain w C1 s1 where
    C1: "a_regs C1 = []" and s1: "regwidth s1 = Some w"
    and ar: "add_registers E C1 tree s1 = Inr (C, st')"
    by blast
  from add_registers_Inr [OF ar s1] obtain il n intrs fs and uregs :: "jval list" and Rs where
    il: "getitem tree ''interrupt_list'' = Inr il" "py_len il = Inr n" "n \<le> 32"
      "py_iter il = Inr intrs"
    and fs: "for_each intr_fields (enumerate 0 intrs) ([], [], []) = Inr fs"
    and Rs: "a_regs C = a_regs C1 @ Rs" "length Rs = 3 + length uregs"
    and ir0: "\<forall>k<3. \<exists>a b. create_register E (intr_regs fs ! k) a = Inr (Rs ! k, b)"
    by blast
  from Rs C1 have len: "length (a_regs C) = 3 + length uregs" and eq: "a_regs C = Rs"
    by simp_all
  from ir0 eq have ir: "\<forall>k<3. \<exists>a b.
      create_register E (intr_regs fs ! k) a = Inr (a_regs C ! k, b)"
    by simp
  from py_len_iter [OF il(2,4)] il(3) have n: "length intrs \<le> 32" by simp
  have nm: "\<forall>k<3. r_inst_name (a_regs C ! k)
      = [''intr_state'', ''intr_enable'', ''intr_test''] ! k
      \<and> external (a_regs C ! k) = (k = 2)"
    using ir intr_regs_names by blast
  have names: "map r_inst_name (take 3 (a_regs C))
      = [''intr_state'', ''intr_enable'', ''intr_test'']"
  proof (rule nth_equalityI)
    show "length (map r_inst_name (take 3 (a_regs C)))
        = length [''intr_state'', ''intr_enable'', ''intr_test'']"
      using len by simp
  next
    fix i assume "i < length (map r_inst_name (take 3 (a_regs C)))"
    then have i: "i < 3" by simp
    with len have "map r_inst_name (take 3 (a_regs C)) ! i = r_inst_name (a_regs C ! i)"
      by simp
    with nm i show "map r_inst_name (take 3 (a_regs C)) ! i
        = [''intr_state'', ''intr_enable'', ''intr_test''] ! i"
      by simp
  qed
  have ext: "map external (take 3 (a_regs C)) = [False, False, True]"
  proof (rule nth_equalityI)
    show "length (map external (take 3 (a_regs C))) = length [False, False, True]"
      using len by simp
  next
    fix i assume "i < length (map external (take 3 (a_regs C)))"
    then have i: "i < 3" by simp
    with len have "map external (take 3 (a_regs C)) ! i = external (a_regs C ! i)"
      by simp
    with nm i show "map external (take 3 (a_regs C)) ! i = [False, False, True] ! i"
      by (auto simp: nth_Cons split: nat.splits)
  qed
  have fields: "\<forall>k<3. length (r_children (a_regs C ! k)) = length intrs
          \<and> (\<forall>i<length intrs.
                interrupt_field E (intrs ! i) k i (r_children (a_regs C ! k) ! i))"
  proof (intro allI impI)
    fix k :: nat assume k: "k < 3"
    with ir obtain a b where "create_register E (intr_regs fs ! k) a = Inr (a_regs C ! k, b)"
      by blast
    from intr_register [OF this k fs]
    show "length (r_children (a_regs C ! k)) = length intrs
          \<and> (\<forall>i<length intrs.
                interrupt_field E (intrs ! i) k i (r_children (a_regs C ! k) ! i))" .
  qed
  from il(1,4) n len names ext fields show ?thesis
    by (intro exI [of _ il] exI [of _ intrs]) simp
qed

theorem interrupt_registers_witness:
  "import_file example_env (JDict example_tree) = Inr (example_map, example_map_state)
   \<and> (\<exists>il intrs. getitem example_tree ''interrupt_list'' = Inr il \<and> py_iter il = Inr intrs
        \<and> length intrs \<le> 32
        \<and> 3 \<le> length (a_regs example_map)
        \<and> map r_inst_name (take 3 (a_regs example_map))
            = [''intr_state'', ''intr_enable'', ''intr_test'']
        \<and> map external (take 3 (a_regs example_map)) = [False, False, True]
        \<and> (\<forall>k<3. length (r_children (a_regs example_map ! k)) = length intrs
              \<and> (\<forall>i<length intrs. interrupt_field example_env (intrs ! i) k i
                    (r_children (a_regs example_map ! k) ! i))))
   \<and> map f_inst_name (r_children (a_regs example_map ! 0)) = [''tx_done'', ''rx_full'']
   \<and> map f_bit_offset (r_children (a_regs example_map ! 0)) = [0, 1]
   \<and> map f_bit_width (r_children (a_regs example_map ! 0)) = [1, 1]
   \<and> map (\<lambda>F. map_of (properties F) ''reset'') (r_children (a_regs example_map ! 0))
       = [Some (Doc (JInt 0)), Some (Doc (JInt 1))]"
proof -
  note T = interrupt_registers [OF example_doc_run]
  have "map f_inst_name (r_children (a_regs example_map ! 0)) = [''tx_done'', ''rx_full'']"
    "map f_bit_offset (r_children (a_regs example_map ! 0)) = [0, 1]"
    "map f_bit_width (r_children (a_regs example_map ! 0)) = [1, 1]"
    "map (\<lambda>F. map_of (properties F) ''reset'') (r_children (a_regs example_map ! 0))
       = [Some (Doc (JInt 0)), Some (Doc (JInt 1))]"
    by code_simp+
  with T example_doc_run show ?thesis by simp
qed

text \<open>
  Claim C2 as stated fails: the field of the interrupt \<^verbatim>\<open>RX_Full\<close> of the
  example document is named \<^verbatim>\<open>rx_full\<close>, not by the interrupt's name; and for
  an interrupt whose declared default is the string \<^verbatim>\<open>x\<close> the reset value of
  the state field is 0, with a warning.
\<close>

theorem interrupt_name_counterexample:
  "import_file example_env (JDict example_tree) = Inr (example_map, example_map_state)
   \<and> getitem example_tree ''interrupt_list'' = Inr (JList example_intrs)
   \<and> example_intrs ! 1 = JDict [(''name'', JStr ''RX_Full''), (''desc'', JStr ''d''),
                                 (''default'', JInt 1)]
   \<and> f_inst_name (r_children (a_regs example_map ! 0) ! 1) = ''rx_full''
   \<and> ''rx_full'' \<noteq> ''RX_Full''
   \<and> field_resval (status_field (JStr ''ovf'') (JStr ''d'') 0 (JStr ''x'')) (JInt 0) 0 1
        example_state
      = Inr (JInt 0, warning (Unsupported_resval (JStr ''x'')) example_state)"
proof -
  have "getitem example_tree ''interrupt_list'' = Inr (JList example_intrs)"
    "example_intrs ! 1 = JDict [(''name'', JStr ''RX_Full''), (''desc'', JStr ''d''),
                                 (''default'', JInt 1)]"
    "f_inst_name (r_children (a_regs example_map ! 0) ! 1) = ''rx_full''"
    "''rx_full'' \<noteq> ''RX_Full''"
    "field_resval (status_field (JStr ''ovf'') (JStr ''d'') 0 (JStr ''x'')) (JInt 0) 0 1
        example_state
      = Inr (JInt 0, warning (Unsupported_resval (JStr ''x'')) example_state)"
    by code_simp+
  with example_doc_run show ?thesis by simp
qed

subsection \<open>The limit on the number of interrupts\<close>

































end
